(* ===== verification/Prelude.thy ===== *)
theory Prelude
  imports Main "HOL-Library.Word" "HOL-Library.Sublist"
begin

text \<open>
  Shared vocabulary of the development. JavaScript strings are sequences of UTF-16
  code units, so a string of the program is a list of 16-bit words; the bytes the
  transport delivers (a \<open>Uint8Array\<close>) are lists of 8-bit words. \<open>js\<close> turns an
  ASCII literal of the source into such a string. The theory also holds the generic
  search on lists (\<open>index_of\<close>, the \<open>StringIndexOf\<close> of the ECMAScript
  specification) that the string builtins and the frame decoder share, and the
  collection \<open>model_defs\<close> of non-recursive definitions that a concrete evaluation
  unfolds.
\<close>

type_synonym byte = "8 word"
type_synonym cu = "16 word"
type_synonym jstr = "cu list"

text \<open>
  The exceptions the modelled code can raise: \<open>SyntaxError\<close> from \<open>JSON.parse\<close>,
  \<open>TypeError\<close> from a property read on \<open>null\<close>, a rejected \<open>fetch\<close> or
  \<open>read\<close> (\<open>NetworkError\<close>, a \<open>TypeError\<close> in browsers, kept apart here),
  and \<open>new Error(message)\<close>.
\<close>

datatype js_error = SyntaxError | TypeError | NetworkError | Error jstr

named_theorems model_defs "non-recursive definitions of the model, unfolded by evaluation"

definition js :: "string \<Rightarrow> jstr" where
  "js s = map (\<lambda>c. word_of_nat (of_char c)) s"

text \<open>An ASCII literal as the bytes of its UTF-8 encoding.\<close>

definition bytes :: "string \<Rightarrow> byte list" where
  "bytes s = map (\<lambda>c. word_of_nat (of_char c)) s"

text \<open>\<open>index_of sep s\<close>: the first position at which \<open>sep\<close> occurs in \<open>s\<close>.\<close>

fun index_of :: "'a list \<Rightarrow> 'a list \<Rightarrow> nat option" where
  "index_of sep [] = (if sep = [] then Some 0 else None)"
| "index_of sep (c # cs) =
     (if prefix sep (c # cs) then Some 0 else map_option Suc (index_of sep cs))"

lemma bytes_Nil [simp]: "bytes [] = []"
  and bytes_Cons [simp]: "bytes (c # s) = word_of_nat (of_char c) # bytes s"
  and bytes_append [simp]: "bytes (s @ t) = bytes s @ bytes t"
  by (simp_all add: bytes_def)

lemma js_Nil [simp]: "js [] = []"
  and js_Cons [simp]: "js (c # s) = word_of_nat (of_char c) # js s"
  and js_append [simp]: "js (s @ t) = js s @ js t"
  by (simp_all add: js_def)

lemma length_js [simp]: "length (js s) = length s"
  by (simp add: js_def)

lemma prefix_append_long:
  "length sep \<le> length s \<Longrightarrow> prefix sep (s @ t) \<longleftrightarrow> prefix sep s"
  by (metis prefix_append prefix_length_le prefix_order.dual_order.trans
      append_eq_append_conv_if prefix_def take_all_iff)

lemma index_of_Some:
  "index_of sep s = Some j \<Longrightarrow> j + length sep \<le> length s \<and> prefix sep (drop j s)"
proof (induction sep s arbitrary: j rule: index_of.induct)
  case (1 sep)
  then show ?case by (simp split: if_splits)
next
  case (2 sep c cs)
  then show ?case by (auto dest: prefix_length_le split: if_splits)
qed

lemma index_of_first:
  "index_of sep s = Some j \<Longrightarrow> i < j \<Longrightarrow> \<not> prefix sep (drop i s)"
proof (induction sep s arbitrary: i j rule: index_of.induct)
  case (1 sep)
  then show ?case by (simp split: if_splits)
next
  case (2 sep c cs)
  then show ?case by (cases i) (auto split: if_splits)
qed

lemma index_of_None:
  "index_of sep s = None \<Longrightarrow> \<not> prefix sep (drop i s)"
proof (induction sep s arbitrary: i rule: index_of.induct)
  case (1 sep)
  then show ?case by (simp split: if_splits)
next
  case (2 sep c cs)
  then show ?case by (cases i) (auto split: if_splits)
qed

lemma index_of_None_iff:
  "index_of sep s = None \<longleftrightarrow> \<not> sublist sep s"
proof (induction sep s rule: index_of.induct)
  case (1 sep)
  then show ?case by simp
next
  case (2 sep c cs)
  then show ?case by (auto simp: sublist_Cons_right)
qed

lemma index_of_append:
  "index_of sep s = Some j \<Longrightarrow> index_of sep (s @ t) = Some j"
proof (induction sep s arbitrary: j rule: index_of.induct)
  case (1 sep)
  then show ?case by (cases t) (simp_all split: if_splits)
next
  case (2 sep c cs)
  show ?case
  proof (cases "prefix sep (c # cs)")
    case True
    then have "prefix sep ((c # cs) @ t)" by (rule prefix_prefix)
    then show ?thesis using "2.prems" True by simp
  next
    case False
    with "2.prems" obtain j' where j': "index_of sep cs = Some j'" and "j = Suc j'"
      by auto
    from j' have "length sep \<le> length (c # cs)"
      using index_of_Some by fastforce
    then have "\<not> prefix sep ((c # cs) @ t)"
      using False prefix_append_long by blast
    with j' "2.IH" [OF False j'] \<open>j = Suc j'\<close> show ?thesis by simp
  qed
qed

lemma prefix_drop_split:
  "prefix sep (drop j s) \<Longrightarrow> s = take j s @ sep @ drop (j + length sep) s"
proof -
  assume "prefix sep (drop j s)"
  then obtain zs where zs: "drop j s = sep @ zs" by (auto simp: prefix_def)
  then have "drop (j + length sep) s = zs"
    by (metis add.commute drop_drop append_eq_conv_conj)
  with zs show ?thesis by (metis append_take_drop_id)
qed

lemmas replicate_numeral [simp] =
  replicate_Suc [of "pred_numeral k" for k, folded numeral_eq_Suc]

lemma last_butlast_Cons [simp]:
  "xs \<noteq> [] \<Longrightarrow> butlast (x # xs) = x # butlast xs \<and> last (x # xs) = last xs"
  by simp

end
