(* ===== verification/JsString.thy ===== *)
theory JsString
  imports Prelude
begin

text \<open>
  The ECMAScript string and array builtins that the stream handler of
  \<open>app/agent/page.tsx\<close> calls, at the level of UTF-16 code units:
  \<open>String.prototype.split\<close> with a string separator, \<open>Array.prototype.join\<close>,
  \<open>Array.prototype.pop\<close> followed by \<open>|| ''\<close>, and \<open>String.prototype.match\<close>
  with a regular expression of the shape \<open>/lit(.*)/\<close>, read through \<open>?.[1]\<close>.
  The lemmas show that splitting and joining are inverse, that no piece of a split
  holds the separator, and, the fact the frame decoder rests on, that splitting
  a concatenation re-splits only the last piece.
\<close>

subsection \<open>Splitting and joining\<close>

text \<open>
  \<open>split_from\<close> is the loop of \<open>String.prototype.split\<close> (ECMA-262, 22.1.3.23):
  find the next occurrence of the separator with \<open>StringIndexOf\<close>, cut the piece
  before it, continue after it, and append the rest when no occurrence is left.
\<close>

function split_from :: "'a list \<Rightarrow> 'a list \<Rightarrow> 'a list list" where
  "split_from sep s =
     (if sep = [] then [s]
      else case index_of sep s of
        None \<Rightarrow> [s]
      | Some j \<Rightarrow> take j s # split_from sep (drop (j + length sep) s))"
  by pat_completeness auto
termination
proof (relation "measure (\<lambda>(sep, s). length s)")
  fix sep s :: "'a list" and j
  assume "\<not> sep = []" and "index_of sep s = Some j"
  then show "((sep, drop (j + length sep) s), sep, s) \<in> measure (\<lambda>(sep, s). length s)"
    using index_of_Some [of sep s j] by (cases sep) auto
qed simp

declare split_from.simps [simp del]

text \<open>
  \<open>s.split(sep)\<close>: an empty separator splits into single code units (and the empty
  string into no piece at all); otherwise the loop above, which returns \<open>[s]\<close>
  when the separator does not occur, so \<open>''.split(sep) = ['']\<close>.
\<close>

definition js_split :: "'a list \<Rightarrow> 'a list \<Rightarrow> 'a list list" where
  "js_split s sep = (if sep = [] then map (\<lambda>c. [c]) s else split_from sep s)"

text \<open>\<open>xs.join(sep)\<close> for an array of strings.\<close>

fun js_join :: "'a list list \<Rightarrow> 'a list \<Rightarrow> 'a list" where
  "js_join [] sep = []"
| "js_join [x] sep = x"
| "js_join (x # y # xs) sep = x @ sep @ js_join (y # xs) sep"

text \<open>
  \<open>xs.pop()\<close> returns the last element, or \<open>undefined\<close> (\<open>None\<close>) on an empty
  array, and removes it; \<open>v || ''\<close> replaces a falsy string by \<open>''\<close>.
\<close>

definition js_pop :: "'a list \<Rightarrow> 'a option \<times> 'a list" where
  "js_pop xs = (if xs = [] then (None, []) else (Some (last xs), butlast xs))"

definition or_empty :: "'a list option \<Rightarrow> 'a list" where
  "or_empty v = (case v of None \<Rightarrow> [] | Some s \<Rightarrow> s)"

declare js_split_def [model_defs] js_pop_def [model_defs] or_empty_def [model_defs]

subsection \<open>Regular expressions of the shape \<open>/lit(.*)/\<close>\<close>

text \<open>
  Without the \<open>s\<close> flag, \<open>.\<close> matches every code unit but the four line
  terminators LF, CR, U+2028 and U+2029. \<open>s.match(/lit(.*)/)?.[1]\<close> finds the first
  occurrence of the literal anywhere in \<open>s\<close> (the pattern is not anchored, and
  \<open>.*\<close> matches the empty string, so the first occurrence always matches) and
  captures the longest run of non-terminators after it; with no occurrence,
  \<open>match\<close> returns \<open>null\<close> and the optional chain \<open>undefined\<close> (\<open>None\<close>).
\<close>

definition line_terminator :: "cu \<Rightarrow> bool" where
  "line_terminator c \<longleftrightarrow> c = 0x0A \<or> c = 0x0D \<or> c = 0x2028 \<or> c = 0x2029"

definition regex_capture :: "jstr \<Rightarrow> jstr \<Rightarrow> jstr option" where
  "regex_capture lit s =
     map_option (\<lambda>i. takeWhile (\<lambda>c. \<not> line_terminator c) (drop (i + length lit) s))
       (index_of lit s)"

declare line_terminator_def [model_defs] regex_capture_def [model_defs]

subsection \<open>Facts about splitting\<close>

lemma split_from_None:
  "index_of sep s = None \<Longrightarrow> split_from sep s = [s]"
  by (simp add: split_from.simps)

lemma split_from_Some:
  "sep \<noteq> [] \<Longrightarrow> index_of sep s = Some j \<Longrightarrow>
   split_from sep s = take j s # split_from sep (drop (j + length sep) s)"
  by (simp add: split_from.simps)

lemma split_from_not_Nil [simp]: "split_from sep s \<noteq> []"
  by (subst split_from.simps) (simp split: option.split)

lemma js_split_not_Nil:
  "sep \<noteq> [] \<Longrightarrow> js_split s sep \<noteq> []"
  by (simp add: js_split_def)

lemma js_join_Cons:
  "xs \<noteq> [] \<Longrightarrow> js_join (x # xs) sep = x @ sep @ js_join xs sep"
  by (cases xs) simp_all

text \<open>Joining the pieces with the separator gives the string back.\<close>

lemma join_split_from:
  "sep \<noteq> [] \<Longrightarrow> js_join (split_from sep s) sep = s"
proof (induction sep s rule: split_from.induct)
  case (1 sep s)
  show ?case
  proof (cases "index_of sep s")
    case None
    then show ?thesis by (simp add: split_from_None)
  next
    case (Some j)
    with "1.prems" have rest: "js_join (split_from sep (drop (j + length sep) s)) sep
        = drop (j + length sep) s"
      using "1.IH" by simp
    from Some have "j + length sep \<le> length s" and "prefix sep (drop j s)"
      using index_of_Some by blast+
    then have "s = take j s @ sep @ drop (j + length sep) s"
      by (simp add: prefix_drop_split)
    with Some "1.prems" rest show ?thesis
      by (simp add: split_from_Some js_join_Cons)
  qed
qed

text \<open>No piece holds the separator.\<close>

lemma split_from_pieces:
  "sep \<noteq> [] \<Longrightarrow> p \<in> set (split_from sep s) \<Longrightarrow> \<not> sublist sep p"
proof (induction sep s rule: split_from.induct)
  case (1 sep s)
  show ?case
  proof (cases "index_of sep s")
    case None
    with "1.prems" show ?thesis by (simp add: split_from_None index_of_None_iff)
  next
    case (Some j)
    have "\<not> sublist sep (take j s)"
    proof
      assume "sublist sep (take j s)"
      then obtain i where i: "index_of sep (take j s) = Some i"
        using index_of_None_iff by fastforce
      then have "i + length sep \<le> j"
        using index_of_Some by fastforce
      moreover from i have "index_of sep (take j s @ drop j s) = Some i"
        by (rule index_of_append)
      ultimately show False using Some "1.prems" by simp
    qed
    with Some "1.prems" "1.IH" show ?thesis by (auto simp: split_from_Some)
  qed
qed

text \<open>
  Splitting a concatenation re-splits only the last piece of the first part: the
  pieces found in \<open>s\<close> before its last separator stay what they were.
\<close>

lemma split_from_append:
  "sep \<noteq> [] \<Longrightarrow> split_from sep (s @ t) =
     butlast (split_from sep s) @ split_from sep (last (split_from sep s) @ t)"
proof (induction sep s rule: split_from.induct)
  case (1 sep s)
  show ?case
  proof (cases "index_of sep s")
    case None
    then show ?thesis by (simp add: split_from_None)
  next
    case (Some j)
    then have app: "index_of sep (s @ t) = Some j" by (rule index_of_append)
    from Some have "j + length sep \<le> length s" using index_of_Some by blast
    then have "drop (j + length sep) (s @ t) = drop (j + length sep) s @ t"
      by simp
    moreover have "take j (s @ t) = take j s"
      using \<open>j + length sep \<le> length s\<close> by simp
    ultimately show ?thesis
      using "1.IH" [OF "1.prems" Some] "1.prems" Some app
      by (simp add: split_from_Some)
  qed
qed

text \<open>With a one-unit separator that no piece contains, splitting undoes joining.\<close>

lemma index_of_single:
  "c \<notin> set x \<Longrightarrow> index_of [c] (x @ c # r) = Some (length x)"
  by (induction x) auto

lemma split_from_single_piece: "c \<notin> set x \<Longrightarrow> split_from [c] (x @ c # r) = x # split_from [c] r"
  using split_from_Some [OF _ index_of_single] by simp

lemma split_from_join_single:
  "xs \<noteq> [] \<Longrightarrow> \<forall>x \<in> set xs. c \<notin> set x \<Longrightarrow> split_from [c] (js_join xs [c]) = xs"
proof (induction xs)
  case Nil
  then show ?case by simp
next
  case (Cons x xs)
  show ?case
  proof (cases "xs = []")
    case True
    with Cons.prems have "index_of [c] x = None"
      by (auto simp: index_of_None_iff sublist_def)
    with True show ?thesis by (simp add: split_from_None)
  next
    case False
    with Cons.prems have "index_of [c] (js_join (x # xs) [c]) = Some (length x)"
      by (simp add: js_join_Cons index_of_single)
    with False Cons show ?thesis by (simp add: split_from_Some js_join_Cons)
  qed
qed


text \<open>Splitting at a single character gives one more piece than it has occurrences.\<close>

lemma count_join_single:
  "\<forall>x \<in> set xs. c \<notin> set x \<Longrightarrow>
   length (filter (\<lambda>d. d = c) (js_join xs [c])) = length xs - 1"
proof (induction xs)
  case (Cons x xs)
  then show ?case
    by (cases "xs = []") (auto simp: js_join_Cons filter_empty_conv)
qed simp

lemma length_split_single:
  "length (split_from [c] s) = length (filter (\<lambda>d. d = c) s) + 1"
proof -
  have "\<forall>x \<in> set (split_from [c] s). c \<notin> set x"
    using split_from_pieces [of "[c]" _ s] by (metis sublist_def split_list append_Cons
        append_Nil not_Cons_self2)
  then have "length (filter (\<lambda>d. d = c) (js_join (split_from [c] s) [c])) =
      length (split_from [c] s) - 1"
    by (rule count_join_single)
  moreover have "split_from [c] s \<noteq> []" by simp
  ultimately show ?thesis
    using join_split_from [of "[c]" s] by (simp add: Suc_diff_1 length_greater_0_conv)
qed

end
