(* ===== verification/Utf8.thy ===== *)
theory Utf8
  imports Prelude
begin

unbundle bit_operations_syntax

text \<open>
  The \<open>TextDecoder\<close> that \<open>app/agent/page.tsx\<close> creates (\<open>new TextDecoder()\<close>,
  UTF-8, replacement on errors, BOM not ignored) and calls as
  \<open>decoder.decode(value, {stream: true})\<close> on every fragment: the UTF-8 decoder
  of the WHATWG Encoding Standard (section 8.1.1), one handler call per byte, with
  the state that a streaming call keeps between fragments, the replacement of
  malformed input by U+FFFD, the stripping of one leading byte order mark, and the
  serialisation of code points into UTF-16 code units.
\<close>

record utf8_dec =
  code_point :: nat
  bytes_seen :: nat
  bytes_needed :: nat
  lower_boundary :: byte
  upper_boundary :: byte

definition utf8_fresh :: utf8_dec where
  "utf8_fresh = \<lparr>code_point = 0, bytes_seen = 0, bytes_needed = 0,
                  lower_boundary = 0x80, upper_boundary = 0xBF\<rparr>"

text \<open>Step 3 of the handler: a byte with no sequence in progress.\<close>

definition utf8_lead :: "utf8_dec \<Rightarrow> byte \<Rightarrow> utf8_dec \<times> nat list" where
  "utf8_lead st b =
     (if b \<le> 0x7F then (st, [unat b])
      else if 0xC2 \<le> b \<and> b \<le> 0xDF then
        (st\<lparr>bytes_needed := 1, code_point := unat (b AND 0x1F)\<rparr>, [])
      else if 0xE0 \<le> b \<and> b \<le> 0xEF then
        (st\<lparr>lower_boundary := (if b = 0xE0 then 0xA0 else lower_boundary st),
             upper_boundary := (if b = 0xED then 0x9F else upper_boundary st),
             bytes_needed := 2, code_point := unat (b AND 0xF)\<rparr>, [])
      else if 0xF0 \<le> b \<and> b \<le> 0xF4 then
        (st\<lparr>lower_boundary := (if b = 0xF0 then 0x90 else lower_boundary st),
             upper_boundary := (if b = 0xF4 then 0x8F else upper_boundary st),
             bytes_needed := 3, code_point := unat (b AND 0x7)\<rparr>, [])
      else (st, [0xFFFD]))"

text \<open>
  Steps 4 to 10: a byte outside the boundaries ends the sequence with an error
  (U+FFFD) and is processed again from the reset state; otherwise it adds six
  bits, and the last byte of a sequence emits the code point.
\<close>

definition utf8_handler :: "utf8_dec \<Rightarrow> byte \<Rightarrow> utf8_dec \<times> nat list" where
  "utf8_handler st b =
     (if bytes_needed st = 0 then utf8_lead st b
      else if b < lower_boundary st \<or> upper_boundary st < b then
        (let (st', out) = utf8_lead utf8_fresh b in (st', 0xFFFD # out))
      else
        let st1 = st\<lparr>lower_boundary := 0x80, upper_boundary := 0xBF,
                      code_point := code_point st * 64 + unat (b AND 0x3F),
                      bytes_seen := Suc (bytes_seen st)\<rparr>
        in if bytes_seen st1 \<noteq> bytes_needed st1 then (st1, [])
           else (st1\<lparr>code_point := 0, bytes_needed := 0, bytes_seen := 0\<rparr>, [code_point st1]))"

fun utf8_run :: "utf8_dec \<Rightarrow> byte list \<Rightarrow> utf8_dec \<times> nat list" where
  "utf8_run st [] = (st, [])"
| "utf8_run st (b # bs) =
     (let (st1, o1) = utf8_handler st b; (st2, o2) = utf8_run st1 bs in (st2, o1 @ o2))"

text \<open>A code point as UTF-16 code units: one unit, or a surrogate pair.\<close>

definition utf16_encode :: "nat \<Rightarrow> jstr" where
  "utf16_encode c =
     (if c < 0x10000 then [word_of_nat c]
      else [word_of_nat (0xD800 + (c - 0x10000) div 0x400),
            word_of_nat (0xDC00 + (c - 0x10000) mod 0x400)])"

record text_decoder =
  utf8 :: utf8_dec
  bom_seen :: bool

definition decoder_new :: text_decoder where
  "decoder_new = \<lparr>utf8 = utf8_fresh, bom_seen = False\<rparr>"

text \<open>
  Serialising the decoded code points: until the first code point is seen, a
  U+FEFF is dropped (the BOM seen flag is then set either way).
\<close>

fun serialize :: "bool \<Rightarrow> nat list \<Rightarrow> bool \<times> jstr" where
  "serialize bom [] = (bom, [])"
| "serialize bom (c # cs) =
     (if \<not> bom \<and> c = 0xFEFF then serialize True cs
      else let (bom', out) = serialize True cs in (bom', utf16_encode c @ out))"

text \<open>\<open>decoder.decode(value, {stream: true})\<close>: the state is kept, not flushed.\<close>

definition text_decode :: "text_decoder \<Rightarrow> byte list \<Rightarrow> text_decoder \<times> jstr" where
  "text_decode d bs =
     (let (u, cps) = utf8_run (utf8 d) bs; (bom, out) = serialize (bom_seen d) cps
      in (\<lparr>utf8 = u, bom_seen = bom\<rparr>, out))"

text \<open>
  \<open>UTF-8 decode without BOM\<close> (Encoding Standard 6), as the URL standard uses it
  for percent-decoded bytes: the whole input, then the end of the queue, which
  turns an unfinished sequence into one U+FFFD; a BOM is kept.
\<close>

definition utf8_decode_no_bom :: "byte list \<Rightarrow> jstr" where
  "utf8_decode_no_bom bs =
     (let (st, cps) = utf8_run utf8_fresh bs
      in concat (map utf16_encode (cps @ (if bytes_needed st \<noteq> 0 then [0xFFFD] else []))))"

declare utf8_decode_no_bom_def [model_defs]
declare utf8_fresh_def [model_defs] utf8_lead_def [model_defs] utf8_handler_def [model_defs]
  utf16_encode_def [model_defs] decoder_new_def [model_defs] text_decode_def [model_defs]

subsection \<open>Fragment boundaries do not matter\<close>

lemma utf8_run_append:
  "utf8_run st (xs @ ys) =
     (let (st1, o1) = utf8_run st xs; (st2, o2) = utf8_run st1 ys in (st2, o1 @ o2))"
  by (induction st xs rule: utf8_run.induct) (simp_all split: prod.split)

lemma serialize_append:
  "serialize bom (xs @ ys) =
     (let (b1, o1) = serialize bom xs; (b2, o2) = serialize b1 ys in (b2, o1 @ o2))"
  by (induction bom xs rule: serialize.induct) (simp_all split: prod.split)

lemma text_decode_append:
  "text_decode d (xs @ ys) =
     (let (d1, o1) = text_decode d xs; (d2, o2) = text_decode d1 ys in (d2, o1 @ o2))"
  by (simp add: text_decode_def utf8_run_append serialize_append split: prod.split)

end
