(* ===== verification/FrameDecoder.thy ===== *)
theory FrameDecoder
  imports JsString Utf8
begin

text \<open>
  The Frame Decoder: the part of \<open>generate\<close> in \<open>app/agent/page.tsx\<close> that turns
  the byte fragments of the response body into complete frames (lines 16 to 23).
  Its state is the \<open>TextDecoder\<close> and the pending text \<open>buffer\<close>; one step,
  \<open>feed\<close>, decodes a fragment, appends it to the buffer, splits at blank lines
  (\<open>\n\n\<close>), keeps the last piece as the new buffer and hands the others on.
  The abstract specification is a batch one: the frames of a stream are the
  pieces of its decoded text before the last blank line. \<open>feed_all_refines\<close>
  shows that feeding any fragmentation of the bytes produces exactly those
  frames and leaves exactly the rest in the buffer.
\<close>

record frame_decoder =
  decoder :: text_decoder
  buffer :: jstr

definition frame_sep :: jstr where
  "frame_sep = [0x0A, 0x0A]"

definition fd_new :: frame_decoder where
  "fd_new = \<lparr>decoder = decoder_new, buffer = []\<rparr>"

text \<open>
  \<^verbatim>\<open>buffer += decoder.decode(value, {stream:true})
const chunks = buffer.split('\n\n')
buffer = chunks.pop() || ''\<close>
\<close>

definition feed :: "frame_decoder \<Rightarrow> byte list \<Rightarrow> frame_decoder \<times> jstr list" where
  "feed fd value =
     (let (d', text) = text_decode (decoder fd) value;
          buf = buffer fd @ text;
          chunks = js_split buf frame_sep;
          (popped, rest) = js_pop chunks
      in (\<lparr>decoder = d', buffer = or_empty popped\<rparr>, rest))"

fun feed_all :: "frame_decoder \<Rightarrow> byte list list \<Rightarrow> frame_decoder \<times> jstr list" where
  "feed_all fd [] = (fd, [])"
| "feed_all fd (v # vs) =
     (let (fd1, c1) = feed fd v; (fd2, c2) = feed_all fd1 vs in (fd2, c1 @ c2))"

text \<open>The batch specification: the complete frames of a text, and what is left.\<close>

definition frames_of :: "jstr \<Rightarrow> jstr list" where
  "frames_of t = butlast (js_split t frame_sep)"

definition pending_of :: "jstr \<Rightarrow> jstr" where
  "pending_of t = last (js_split t frame_sep)"

definition buffer_ok :: "frame_decoder \<Rightarrow> bool" where
  "buffer_ok fd \<longleftrightarrow> \<not> sublist frame_sep (buffer fd)"

declare frame_sep_def [model_defs] fd_new_def [model_defs] feed_def [model_defs]
  frames_of_def [model_defs] pending_of_def [model_defs]

subsection \<open>One step\<close>

lemma frame_sep_not_Nil [simp]: "frame_sep \<noteq> []"
  by (simp add: frame_sep_def)

lemma js_split_frame_sep: "js_split t frame_sep = split_from frame_sep t"
  by (simp add: js_split_def)

lemma feed_eq:
  "feed fd v =
     (let (d', text) = text_decode (decoder fd) v
      in (\<lparr>decoder = d', buffer = pending_of (buffer fd @ text)\<rparr>,
          frames_of (buffer fd @ text)))"
  by (simp add: feed_def js_pop_def or_empty_def frames_of_def pending_of_def Let_def
      js_split_frame_sep split: prod.split)

text \<open>Splitting a concatenation: the frames of the first part stay, its rest is re-split.\<close>

lemma frames_of_append:
  "frames_of (s @ t) = frames_of s @ frames_of (pending_of s @ t)"
  and pending_of_append:
  "pending_of (s @ t) = pending_of (pending_of s @ t)"
proof -
  have split: "split_from frame_sep (s @ t) =
      butlast (split_from frame_sep s) @ split_from frame_sep (last (split_from frame_sep s) @ t)"
    by (rule split_from_append) simp
  show "frames_of (s @ t) = frames_of s @ frames_of (pending_of s @ t)"
    by (simp add: frames_of_def pending_of_def js_split_frame_sep split butlast_append)
  show "pending_of (s @ t) = pending_of (pending_of s @ t)"
    by (simp add: pending_of_def js_split_frame_sep split)
qed

subsection \<open>The buffer invariant\<close>

text \<open>
  The pending buffer never holds a complete frame boundary: it is the text after
  the last blank line seen so far.
\<close>

lemma pending_of_no_sep: "\<not> sublist frame_sep (pending_of t)"
proof -
  have "pending_of t \<in> set (split_from frame_sep t)"
    by (simp add: pending_of_def js_split_frame_sep)
  then show ?thesis by (rule split_from_pieces [rotated]) simp
qed

lemma no_sep_frames_pending:
  "\<not> sublist frame_sep b \<Longrightarrow> frames_of b = [] \<and> pending_of b = b"
  by (simp add: frames_of_def pending_of_def js_split_frame_sep split_from_None
      index_of_None_iff)

lemma feed_buffer_ok: "buffer_ok (fst (feed fd v))"
  by (simp add: feed_eq buffer_ok_def pending_of_no_sep split: prod.split)

lemma fd_new_ok: "buffer_ok fd_new"
  by (simp add: buffer_ok_def fd_new_def)

lemma text_decode_Nil [simp]: "text_decode d [] = (d, [])"
  by (cases d) (simp add: text_decode_def)

subsection \<open>Refinement of the batch specification\<close>

lemma feed_all_eq:
  "buffer_ok fd \<Longrightarrow> feed_all fd vs =
     (let (d', text) = text_decode (decoder fd) (concat vs)
      in (\<lparr>decoder = d', buffer = pending_of (buffer fd @ text)\<rparr>,
          frames_of (buffer fd @ text)))"
proof (induction vs arbitrary: fd)
  case Nil
  then show ?case by (cases fd) (simp add: buffer_ok_def no_sep_frames_pending)
next
  case (Cons v vs)
  obtain d1 t1 where t1: "text_decode (decoder fd) v = (d1, t1)"
    by fastforce
  obtain d2 t2 where t2: "text_decode d1 (concat vs) = (d2, t2)"
    by fastforce
  let ?fd1 = "\<lparr>decoder = d1, buffer = pending_of (buffer fd @ t1)\<rparr>"
  have feed1: "feed fd v = (?fd1, frames_of (buffer fd @ t1))"
    by (simp add: feed_eq t1)
  have "buffer_ok ?fd1"
    by (simp add: buffer_ok_def pending_of_no_sep)
  then have rest: "feed_all ?fd1 vs =
      (\<lparr>decoder = d2, buffer = pending_of (pending_of (buffer fd @ t1) @ t2)\<rparr>,
       frames_of (pending_of (buffer fd @ t1) @ t2))"
    using Cons.IH [of ?fd1] by (simp add: t2)
  have "text_decode (decoder fd) (concat (v # vs)) = (d2, t1 @ t2)"
    by (simp add: text_decode_append t1 t2)
  moreover have "frames_of (buffer fd @ t1 @ t2) =
      frames_of (buffer fd @ t1) @ frames_of (pending_of (buffer fd @ t1) @ t2)"
    and "pending_of (buffer fd @ t1 @ t2) = pending_of (pending_of (buffer fd @ t1) @ t2)"
    using frames_of_append [of "buffer fd @ t1" t2] pending_of_append [of "buffer fd @ t1" t2]
    by simp_all
  ultimately show ?case
    by (simp add: feed1 rest)
qed

text \<open>
  C1. Feeding the fragments of a response body one after the other, from a fresh
  decoder, emits exactly the complete frames of the decoded body, in order, and
  leaves exactly the text after the last blank line in the buffer, whatever the
  fragment boundaries (also inside a multi-byte character).
\<close>

theorem feed_all_refines:
  "feed_all fd_new vs =
     (\<lparr>decoder = fst (text_decode decoder_new (concat vs)),
       buffer = pending_of (snd (text_decode decoder_new (concat vs)))\<rparr>,
      frames_of (snd (text_decode decoder_new (concat vs))))"
  using feed_all_eq [OF fd_new_ok, of vs]
  by (simp add: fd_new_def split: prod.split)

end
