(* ===== verification/Json.thy ===== *)
theory Json
  imports JsString
begin

text \<open>
  The JSON builtins the program calls: \<open>JSON.parse\<close> (ECMA-262 25.5.1, on the
  grammar of ECMA-404), \<open>JSON.stringify\<close> without replacer or indentation
  (25.5.2), and the property read \<open>v.key\<close> on a parsed value. A value is a
  \<open>json\<close>; an object keeps its own properties in the order
  \<open>OrdinaryOwnPropertyKeys\<close> enumerates them (array-index keys ascending, then the
  other keys in creation order), which is the order \<open>JSON.stringify\<close> prints.
  A number is kept as the exact decimal value \<open>m * 10 ^ e\<close> of its literal,
  normalised so that \<open>m\<close> has no trailing zero digit.
\<close>

datatype json =
    JNull
  | JBool bool
  | JNum int int
  | JStr jstr
  | JArr "json list"
  | JObj "(jstr \<times> json) list"

type_synonym props = "(jstr \<times> json) list"

text \<open>A JavaScript value as the program sees it: \<open>undefined\<close> or a JSON value.\<close>

datatype jsval = Undefined | Val json

subsection \<open>Characters\<close>

definition is_ws :: "cu \<Rightarrow> bool" where
  "is_ws c \<longleftrightarrow> c = 0x09 \<or> c = 0x0A \<or> c = 0x0D \<or> c = 0x20"

definition skip_ws :: "jstr \<Rightarrow> jstr" where
  "skip_ws s = dropWhile is_ws s"

definition is_digit :: "cu \<Rightarrow> bool" where
  "is_digit c \<longleftrightarrow> 0x30 \<le> c \<and> c \<le> 0x39"

definition digit_val :: "cu \<Rightarrow> nat" where
  "digit_val c = unat c - 0x30"

definition hex_val :: "cu \<Rightarrow> nat option" where
  "hex_val c =
     (if 0x30 \<le> c \<and> c \<le> 0x39 then Some (unat c - 0x30)
      else if 0x41 \<le> c \<and> c \<le> 0x46 then Some (unat c - 0x37)
      else if 0x61 \<le> c \<and> c \<le> 0x66 then Some (unat c - 0x57)
      else None)"

definition hex_digit :: "nat \<Rightarrow> cu" where
  "hex_digit d = word_of_nat (if d < 10 then 0x30 + d else 0x57 + d)"

definition dec_char :: "nat \<Rightarrow> cu" where
  "dec_char d = word_of_nat (0x30 + d)"

fun dec_digits :: "nat \<Rightarrow> nat list" where
  "dec_digits n = (if n < 10 then [n] else dec_digits (n div 10) @ [n mod 10])"

declare dec_digits.simps [simp del]

definition digits_value :: "nat list \<Rightarrow> nat" where
  "digits_value ds = foldl (\<lambda>acc d. 10 * acc + d) 0 ds"

declare is_ws_def [model_defs] skip_ws_def [model_defs] is_digit_def [model_defs]
  digit_val_def [model_defs] hex_val_def [model_defs] hex_digit_def [model_defs]
  dec_char_def [model_defs] digits_value_def [model_defs]

subsection \<open>Objects: own properties in enumeration order\<close>

text \<open>
  A key is an array index when it is the canonical decimal form of an integer
  below \<open>2 ^ 32 - 1\<close>.
\<close>

definition array_index :: "jstr \<Rightarrow> nat option" where
  "array_index k =
     (if k \<noteq> [] \<and> list_all is_digit k \<and> (k = [0x30] \<or> hd k \<noteq> 0x30)
         \<and> digits_value (map digit_val k) < 4294967295
      then Some (digits_value (map digit_val k)) else None)"

fun insert_index_key :: "nat \<Rightarrow> jstr \<Rightarrow> json \<Rightarrow> props \<Rightarrow> props" where
  "insert_index_key i k v [] = [(k, v)]"
| "insert_index_key i k v ((k', v') # ps) =
     (case array_index k' of
        Some i' \<Rightarrow> if i < i' then (k, v) # (k', v') # ps
                   else (k', v') # insert_index_key i k v ps
      | None \<Rightarrow> (k, v) # (k', v') # ps)"

text \<open>
  \<open>CreateDataProperty\<close> as \<open>JSON.parse\<close> calls it for each member: a key that is
  already present keeps its place and takes the new value (the last duplicate
  wins); a new key goes where the enumeration order puts it.
\<close>

definition obj_set :: "props \<Rightarrow> jstr \<Rightarrow> json \<Rightarrow> props" where
  "obj_set ps k v =
     (if k \<in> set (map fst ps) then map (\<lambda>(k', v'). if k' = k then (k', v) else (k', v')) ps
      else case array_index k of
        None \<Rightarrow> ps @ [(k, v)]
      | Some i \<Rightarrow> insert_index_key i k v ps)"

declare array_index_def [model_defs] obj_set_def [model_defs]

subsection \<open>\<open>JSON.parse\<close>\<close>

definition simple_escape :: "cu \<Rightarrow> cu option" where
  "simple_escape e =
     (if e = 0x22 then Some 0x22 else if e = 0x5C then Some 0x5C
      else if e = 0x2F then Some 0x2F else if e = 0x62 then Some 0x08
      else if e = 0x66 then Some 0x0C else if e = 0x6E then Some 0x0A
      else if e = 0x72 then Some 0x0D else if e = 0x74 then Some 0x09 else None)"

definition hex4 :: "cu \<Rightarrow> cu \<Rightarrow> cu \<Rightarrow> cu \<Rightarrow> cu option" where
  "hex4 a b c d =
     (case (hex_val a, hex_val b, hex_val c, hex_val d) of
        (Some x, Some y, Some z, Some w) \<Rightarrow> Some (word_of_nat (((x * 16 + y) * 16 + z) * 16 + w))
      | _ \<Rightarrow> None)"

declare simple_escape_def [model_defs] hex4_def [model_defs]

text \<open>The characters of a string literal after its opening quote.\<close>

fun parse_chars :: "jstr \<Rightarrow> jstr \<Rightarrow> (jstr \<times> jstr) option" where
  "parse_chars acc [] = None"
| "parse_chars acc (c # cs) =
     (if c = 0x22 then Some (acc, cs)
      else if c = 0x5C then
        (case cs of
           [] \<Rightarrow> None
         | e # cs' \<Rightarrow>
             if e = 0x75 then
               (case cs' of
                  h1 # h2 # h3 # h4 # r \<Rightarrow>
                    (case hex4 h1 h2 h3 h4 of
                       None \<Rightarrow> None
                     | Some u \<Rightarrow> parse_chars (acc @ [u]) r)
                | _ \<Rightarrow> None)
             else
               (case simple_escape e of
                  None \<Rightarrow> None
                | Some u \<Rightarrow> parse_chars (acc @ [u]) cs'))
      else if c < 0x20 then None
      else parse_chars (acc @ [c]) cs)"

text \<open>
  A number literal \<open>-? (0 | [1-9][0-9]* ) (. [0-9]+)? ([eE] [+-]? [0-9]+)?\<close> and its
  exact value, normalised: the trailing zero digits move into the exponent, and
  zero (also \<open>-0\<close>, which \<open>JSON.stringify\<close> prints as \<open>0\<close>) is \<open>JNum 0 0\<close>.
\<close>

definition mk_num :: "bool \<Rightarrow> nat list \<Rightarrow> int \<Rightarrow> json" where
  "mk_num neg ds e =
     (let zs = length (takeWhile (\<lambda>d. d = 0) (rev ds));
          m = digits_value (rev (dropWhile (\<lambda>d. d = 0) (rev ds)))
      in if m = 0 then JNum 0 0 else JNum (if neg then - int m else int m) (e + int zs))"

definition parse_exp :: "jstr \<Rightarrow> (int \<times> jstr) option" where
  "parse_exp s =
     (case s of
        c # r \<Rightarrow>
          if c = 0x65 \<or> c = 0x45 then
            (let (neg, r1) = (case r of
                                s1 # r' \<Rightarrow> if s1 = 0x2D then (True, r')
                                          else if s1 = 0x2B then (False, r') else (False, r)
                              | [] \<Rightarrow> (False, r));
                 ds = takeWhile is_digit r1
             in if ds = [] then None
                else let v = int (digits_value (map digit_val ds))
                     in Some (if neg then - v else v, dropWhile is_digit r1))
          else Some (0, s)
      | [] \<Rightarrow> Some (0, s))"

definition parse_number :: "jstr \<Rightarrow> (json \<times> jstr) option" where
  "parse_number s =
     (let (neg, s1) = (case s of c # r \<Rightarrow> if c = 0x2D then (True, r) else (False, s)
                                 | [] \<Rightarrow> (False, s))
      in case s1 of
           [] \<Rightarrow> None
         | c # r \<Rightarrow>
             if \<not> is_digit c then None
             else
               let ip = (if c = 0x30 then [c] else takeWhile is_digit s1);
                   s2 = drop (length ip) s1;
                   (fp, s3) = (case s2 of
                                 d # r2 \<Rightarrow> if d = 0x2E then (Some (takeWhile is_digit r2), dropWhile is_digit r2)
                                           else (Some [], s2)
                               | [] \<Rightarrow> (Some [], s2))
               in case fp of
                    None \<Rightarrow> None
                  | Some fds \<Rightarrow>
                      if s2 \<noteq> [] \<and> hd s2 = 0x2E \<and> fds = [] then None
                      else case parse_exp s3 of
                             None \<Rightarrow> None
                           | Some (e, s4) \<Rightarrow>
                               Some (mk_num neg (map digit_val (ip @ fds)) (e - int (length fds)), s4))"

declare mk_num_def [model_defs] parse_exp_def [model_defs] parse_number_def [model_defs]

text \<open>
  The value grammar, with fuel: every call spends one unit. \<open>json_parse\<close> gives
  \<open>2 * length s + 1\<close> units, and \<open>parse_fuel_enough\<close> below shows that more fuel
  never changes the result, so the fuel is no limit of the model.
\<close>

fun parse_value :: "nat \<Rightarrow> jstr \<Rightarrow> (json \<times> jstr) option"
and parse_elems :: "nat \<Rightarrow> json list \<Rightarrow> jstr \<Rightarrow> (json \<times> jstr) option"
and parse_members :: "nat \<Rightarrow> props \<Rightarrow> jstr \<Rightarrow> (json \<times> jstr) option" where
  "parse_value 0 s = None"
| "parse_value (Suc n) s =
     (case skip_ws s of
        [] \<Rightarrow> None
      | c # r \<Rightarrow>
          if c = 0x7B then
            (case skip_ws r of
               [] \<Rightarrow> None
             | d # r' \<Rightarrow> if d = 0x7D then Some (JObj [], r') else parse_members n [] r)
          else if c = 0x5B then
            (case skip_ws r of
               [] \<Rightarrow> None
             | d # r' \<Rightarrow> if d = 0x5D then Some (JArr [], r') else parse_elems n [] r)
          else if c = 0x22 then map_option (\<lambda>(str, r'). (JStr str, r')) (parse_chars [] r)
          else if c = 0x2D \<or> is_digit c then parse_number (c # r)
          else if prefix (js ''true'') (c # r) then Some (JBool True, drop 4 (c # r))
          else if prefix (js ''false'') (c # r) then Some (JBool False, drop 5 (c # r))
          else if prefix (js ''null'') (c # r) then Some (JNull, drop 4 (c # r))
          else None)"
| "parse_elems 0 acc s = None"
| "parse_elems (Suc n) acc s =
     (case parse_value n s of
        None \<Rightarrow> None
      | Some (v, r) \<Rightarrow>
          (case skip_ws r of
             [] \<Rightarrow> None
           | d # r' \<Rightarrow>
               if d = 0x2C then parse_elems n (acc @ [v]) r'
               else if d = 0x5D then Some (JArr (acc @ [v]), r')
               else None))"
| "parse_members 0 ps s = None"
| "parse_members (Suc n) ps s =
     (case skip_ws s of
        [] \<Rightarrow> None
      | c # r \<Rightarrow>
          if c \<noteq> 0x22 then None
          else case parse_chars [] r of
            None \<Rightarrow> None
          | Some (k, r1) \<Rightarrow>
              (case skip_ws r1 of
                 [] \<Rightarrow> None
               | d # r2 \<Rightarrow>
                   if d \<noteq> 0x3A then None
                   else case parse_value n r2 of
                     None \<Rightarrow> None
                   | Some (v, r3) \<Rightarrow>
                       (case skip_ws r3 of
                          [] \<Rightarrow> None
                        | e # r4 \<Rightarrow>
                            if e = 0x2C then parse_members n (obj_set ps k v) r4
                            else if e = 0x7D then Some (JObj (obj_set ps k v), r4)
                            else None)))"

text \<open>\<open>JSON.parse(s)\<close>: a value surrounded by whitespace only, or \<open>SyntaxError\<close>.\<close>

definition json_parse :: "jstr \<Rightarrow> js_error + json" where
  "json_parse s =
     (case parse_value (2 * length s + 1) s of
        None \<Rightarrow> Inl SyntaxError
      | Some (v, r) \<Rightarrow> if skip_ws r = [] then Inr v else Inl SyntaxError)"

declare json_parse_def [model_defs]

subsection \<open>\<open>JSON.stringify\<close>\<close>

definition is_lead :: "cu \<Rightarrow> bool" where
  "is_lead c \<longleftrightarrow> 0xD800 \<le> c \<and> c \<le> 0xDBFF"

definition is_trail :: "cu \<Rightarrow> bool" where
  "is_trail c \<longleftrightarrow> 0xDC00 \<le> c \<and> c \<le> 0xDFFF"

text \<open>\<open>UnicodeEscape\<close>: \<open>\u\<close> and four lowercase hexadecimal digits.\<close>

definition unicode_escape :: "cu \<Rightarrow> jstr" where
  "unicode_escape c =
     [0x5C, 0x75, hex_digit (unat c div 4096), hex_digit (unat c div 256 mod 16),
      hex_digit (unat c div 16 mod 16), hex_digit (unat c mod 16)]"

text \<open>One code point of \<open>QuoteJSONString\<close> that is not half of a surrogate pair.\<close>

definition quote_unit :: "cu \<Rightarrow> jstr" where
  "quote_unit c =
     (if c = 0x08 then [0x5C, 0x62] else if c = 0x09 then [0x5C, 0x74]
      else if c = 0x0A then [0x5C, 0x6E] else if c = 0x0C then [0x5C, 0x66]
      else if c = 0x0D then [0x5C, 0x72] else if c = 0x22 then [0x5C, 0x22]
      else if c = 0x5C then [0x5C, 0x5C]
      else if c < 0x20 \<or> is_lead c \<or> is_trail c then unicode_escape c
      else [c])"

fun quote_units :: "jstr \<Rightarrow> jstr" where
  "quote_units [] = []"
| "quote_units [c] = quote_unit c"
| "quote_units (c # d # cs) =
     (if is_lead c \<and> is_trail d then c # d # quote_units cs
      else quote_unit c @ quote_units (d # cs))"

definition quote_json :: "jstr \<Rightarrow> jstr" where
  "quote_json s = 0x22 # quote_units s @ [0x22]"

declare is_lead_def [model_defs] is_trail_def [model_defs] unicode_escape_def [model_defs]
  quote_unit_def [model_defs] quote_json_def [model_defs]

text \<open>
  \<open>Number::toString\<close> of \<open>m * 10 ^ e\<close>, \<open>m\<close> without trailing zero digits: with
  \<open>k\<close> the number of digits of \<open>m\<close> and \<open>n = k + e\<close>, plain digits and zeros
  when \<open>k \<le> n \<le> 21\<close>, a decimal point inside the digits when \<open>0 < n \<le> 21\<close>,
  leading \<open>0.\<close> and zeros when \<open>-6 < n \<le> 0\<close>, exponent notation otherwise.
\<close>

definition pos_num_str :: "nat \<Rightarrow> int \<Rightarrow> jstr" where
  "pos_num_str m e =
     (let ds = map dec_char (dec_digits m); k = int (length ds); n = k + e
      in if k \<le> n \<and> n \<le> 21 then ds @ replicate (nat (n - k)) 0x30
         else if 0 < n \<and> n \<le> 21 then take (nat n) ds @ 0x2E # drop (nat n) ds
         else if -6 < n \<and> n \<le> 0 then [0x30, 0x2E] @ replicate (nat (- n)) 0x30 @ ds
         else
           let es = (if n - 1 < 0 then 0x2D else 0x2B) # map dec_char (dec_digits (nat \<bar>n - 1\<bar>))
           in if k = 1 then ds @ 0x65 # es
              else take 1 ds @ 0x2E # drop 1 ds @ 0x65 # es)"

definition num_str :: "int \<Rightarrow> int \<Rightarrow> jstr" where
  "num_str m e =
     (if m = 0 then [0x30]
      else if m < 0 then 0x2D # pos_num_str (nat (- m)) e
      else pos_num_str (nat m) e)"

declare pos_num_str_def [model_defs] num_str_def [model_defs]

fun stringify :: "json \<Rightarrow> jstr"
and stringify_elems :: "json list \<Rightarrow> jstr"
and stringify_members :: "props \<Rightarrow> jstr" where
  "stringify JNull = js ''null''"
| "stringify (JBool b) = (if b then js ''true'' else js ''false'')"
| "stringify (JNum m e) = num_str m e"
| "stringify (JStr s) = quote_json s"
| "stringify (JArr xs) = 0x5B # stringify_elems xs @ [0x5D]"
| "stringify (JObj ps) = 0x7B # stringify_members ps @ [0x7D]"
| "stringify_elems [] = []"
| "stringify_elems [x] = stringify x"
| "stringify_elems (x # y # xs) = stringify x @ 0x2C # stringify_elems (y # xs)"
| "stringify_members [] = []"
| "stringify_members [(k, v)] = quote_json k @ 0x3A # stringify v"
| "stringify_members ((k, v) # p # ps) =
     quote_json k @ 0x3A # stringify v @ 0x2C # stringify_members (p # ps)"

subsection \<open>Property reads\<close>

text \<open>
  \<open>v.key\<close> on a parsed value: on \<open>null\<close> a \<open>TypeError\<close>; on an object its own
  property or \<open>undefined\<close>; on the other values \<open>undefined\<close>. The keys the
  program reads (\<open>agent_config\<close>, \<open>score\<close>, \<open>assessment_id\<close>) are no array
  index, no \<open>length\<close> and no member of \<open>Object.prototype\<close>, so nothing else
  is found. \<open>v?.key\<close> gives \<open>undefined\<close> on \<open>null\<close> and \<open>undefined\<close> instead.
\<close>

definition get_prop :: "json \<Rightarrow> jstr \<Rightarrow> js_error + jsval" where
  "get_prop v k =
     (case v of
        JNull \<Rightarrow> Inl TypeError
      | JObj ps \<Rightarrow> Inr (case map_of ps k of None \<Rightarrow> Undefined | Some x \<Rightarrow> Val x)
      | _ \<Rightarrow> Inr Undefined)"

definition opt_prop :: "jsval \<Rightarrow> jstr \<Rightarrow> jsval" where
  "opt_prop v k =
     (case v of
        Undefined \<Rightarrow> Undefined
      | Val JNull \<Rightarrow> Undefined
      | Val x \<Rightarrow> (case get_prop x k of Inl _ \<Rightarrow> Undefined | Inr y \<Rightarrow> y))"

declare get_prop_def [model_defs] opt_prop_def [model_defs]

text \<open>The code units a number prints with: digits, sign, point and exponent.\<close>

definition num_chars :: "cu set" where
  "num_chars = {c. 0x30 \<le> unat c \<and> unat c \<le> 0x39} \<union> {0x2B, 0x2D, 0x2E, 0x65}"

text \<open>The fuel of a concrete call is a numeral; these equations let \<open>simp\<close> unfold it.\<close>

lemmas parse_value_numeral [simp] =
  parse_value.simps(2) [of "pred_numeral k" for k, folded numeral_eq_Suc]
lemmas parse_elems_numeral [simp] =
  parse_elems.simps(2) [of "pred_numeral k" for k, folded numeral_eq_Suc]
lemmas parse_members_numeral [simp] =
  parse_members.simps(2) [of "pred_numeral k" for k, folded numeral_eq_Suc]

subsection \<open>\<open>JSON.stringify\<close> never prints a line feed\<close>

lemma cu_of_nat_not_lf: "n < 65536 \<Longrightarrow> n \<noteq> 10 \<Longrightarrow> (word_of_nat n :: cu) \<noteq> 0x0A"
proof
  assume n: "n < 65536" "n \<noteq> 10" and eq: "(word_of_nat n :: cu) = 0x0A"
  then have "unat (word_of_nat n :: cu) = unat (0x0A :: cu)" by simp
  with n show False by (simp add: unat_of_nat)
qed

lemma dec_digits_lt: "d \<in> set (dec_digits n) \<Longrightarrow> d < 10"
proof (induction n rule: dec_digits.induct)
  case (1 n)
  then show ?case
    by (cases "n < 10") (auto simp: dec_digits.simps [of n])
qed

lemma hex_digit_not_lf: "d < 16 \<Longrightarrow> hex_digit d \<noteq> 0x0A"
  unfolding hex_digit_def by (rule cu_of_nat_not_lf) simp_all

lemma quote_unit_no_lf: "0x0A \<notin> set (quote_unit c)"
proof -
  have "unat c < 65536" using unsigned_less [of c] by simp
  then have "unat c div 4096 < 16" by simp
  then show ?thesis
    by (auto simp: quote_unit_def unicode_escape_def hex_digit_not_lf)
qed

lemma quote_units_no_lf: "0x0A \<notin> set (quote_units s)"
  by (induction s rule: quote_units.induct) (auto simp: quote_unit_no_lf is_lead_def is_trail_def)

lemma unat_cu_small: "n < 65536 \<Longrightarrow> unat (word_of_nat n :: cu) = n"
  by (simp add: unat_of_nat)

lemma dec_char_num_chars: "d < 10 \<Longrightarrow> dec_char d \<in> num_chars"
proof -
  assume "d < 10"
  then have "unat (dec_char d) = 0x30 + d"
    unfolding dec_char_def by (intro unat_cu_small) simp
  with \<open>d < 10\<close> show ?thesis by (simp add: num_chars_def)
qed

lemma num_str_chars: "set (num_str m e) \<subseteq> num_chars"
proof -
  have ds: "set (map dec_char (dec_digits n)) \<subseteq> num_chars" for n
    using dec_digits_lt dec_char_num_chars by fastforce
  have td: "set (take k (map dec_char (dec_digits n))) \<subseteq> num_chars"
    "set (drop k (map dec_char (dec_digits n))) \<subseteq> num_chars" for k n
    using ds set_take_subset set_drop_subset by (metis order_trans)+
  have cs: "0x30 \<in> num_chars" "0x2E \<in> num_chars" "0x2D \<in> num_chars" "0x2B \<in> num_chars" "0x65 \<in> num_chars"
    by (simp_all add: num_chars_def)
  have "set (pos_num_str k e) \<subseteq> num_chars" for k
    unfolding pos_num_str_def Let_def
    using ds td cs by (simp add: set_replicate_conv_if)
  then show ?thesis
    using cs by (simp add: num_str_def)
qed

lemma num_str_not_Nil: "num_str m e \<noteq> []"
proof -
  have "dec_digits n \<noteq> []" for n by (subst dec_digits.simps) simp
  then show ?thesis
    by (simp add: num_str_def pos_num_str_def Let_def)
qed

lemma num_str_no_lf: "0x0A \<notin> set (num_str m e)"
  using num_str_chars [of m e] unfolding num_chars_def by auto

lemma num_chars_plain: "c \<in> num_chars \<Longrightarrow> \<not> is_ws c \<and> c \<noteq> 0x22"
  by (auto simp: num_chars_def is_ws_def)

lemma num_chars_ascii: "c \<in> num_chars \<Longrightarrow> c < 0x80 \<and> c \<noteq> 0x2F \<and> c \<noteq> 0x3F \<and> c \<noteq> 0x25"
  unfolding num_chars_def by (auto simp: word_less_nat_alt)

lemma stringify_no_lf:
  "0x0A \<notin> set (stringify v)"
  and "0x0A \<notin> set (stringify_elems xs)"
  and "0x0A \<notin> set (stringify_members ps)"
  by (induction v and xs and ps rule: stringify_stringify_elems_stringify_members.induct)
    (auto simp: num_str_no_lf quote_json_def quote_units_no_lf)


subsection \<open>The parser's fuel is no limit\<close>

text \<open>
  Each call of the parser either consumes input or hands a shorter suffix on,
  and one more unit of fuel than twice the input's length never changes a
  result: the value and element loops need at most that depth.
\<close>

lemma skip_ws_length: "length (skip_ws s) \<le> length s"
  by (simp add: skip_ws_def length_dropWhile_le)

lemma skip_ws_Cons_length: "skip_ws s = c # r \<Longrightarrow> length r < length s"
  using skip_ws_length [of s] by simp

lemma parse_chars_shorter: "parse_chars acc s = Some (k, r) \<Longrightarrow> length r < length s"
proof (induction acc s rule: parse_chars.induct)
  case (2 acc c cs)
  show ?case
  proof (cases "c = 0x22 \<or> c = 0x5C")
    case True
    then show ?thesis
      using 2 by (auto split: if_splits list.splits option.splits) (metis less_SucI)+
  next
    case False
    then show ?thesis
      using 2 by (simp split: if_splits)
  qed
qed simp

lemma parse_exp_shorter: "parse_exp s = Some (e, r) \<Longrightarrow> length r \<le> length s"
  by (auto simp: parse_exp_def Let_def length_dropWhile_le split: list.splits if_splits
      intro: le_trans [OF length_dropWhile_le])

lemma le_length_dropWhile: "n \<le> length (dropWhile P xs) \<Longrightarrow> n \<le> length xs"
  using length_dropWhile_le [of P xs] by linarith

lemma drop_Cons_length: "drop k xs = y # ys \<Longrightarrow> length ys < length xs"
  by (metis length_Cons length_drop diff_le_self Suc_le_eq)

lemma parse_number_shorter: "parse_number s = Some (v, r) \<Longrightarrow> length r \<le> length s"
  by (auto simp: parse_number_def Let_def split: list.splits if_splits option.splits prod.splits
      dest!: parse_exp_shorter le_length_dropWhile drop_Cons_length)


lemma parse_shorter:
  "parse_value n s = Some (v, r) \<Longrightarrow> length r \<le> length s"
  "parse_elems n acc s = Some (v, r) \<Longrightarrow> length r \<le> length s"
  "parse_members n ps s = Some (v, r) \<Longrightarrow> length r \<le> length s"
proof (induction n s and n acc s and n ps s arbitrary: v r and v r and v r
    rule: parse_value_parse_elems_parse_members.induct)
  case (2 n s)
  then show ?case
    by (auto split: list.splits if_splits option.splits
        dest!: skip_ws_Cons_length parse_chars_shorter parse_number_shorter) fastforce+
next
  case (4 n acc s)
  then show ?case
    by (fastforce split: list.splits if_splits option.splits dest!: skip_ws_Cons_length)
next
  case (6 n ps s)
  then show ?case
    by (fastforce split: list.splits if_splits option.splits
        dest!: skip_ws_Cons_length parse_chars_shorter)
qed simp_all

lemma parse_fuel_step:
  "2 * length s + 1 \<le> n \<Longrightarrow> parse_value (Suc n) s = parse_value n s"
  "2 * length s + 2 \<le> n \<Longrightarrow> parse_elems (Suc n) acc s = parse_elems n acc s"
  "2 * length s + 2 \<le> n \<Longrightarrow> parse_members (Suc n) ps s = parse_members n ps s"
proof (induction n s and n acc s and n ps s rule: parse_value_parse_elems_parse_members.induct)
  case (2 n s)
  show ?case
  proof (cases "skip_ws s")
    case (Cons c r)
    have "length r < length s"
      using Cons by (rule skip_ws_Cons_length)
    then show ?thesis
      using Cons "2.IH" "2.prems" by (auto split: list.split)
  qed simp
next
  case (4 n acc s)
  have v: "parse_value (Suc n) s = parse_value n s"
    using "4.prems" by (intro "4.IH"(1)) simp
  show ?case
  proof (cases "parse_value n s")
    case (Some p)
    obtain v r where p: "p = (v, r)" by fastforce
    have "length r \<le> length s"
      using Some p by (simp add: parse_shorter(1) del: parse_value.simps)
    moreover have "length r' < length r" if "skip_ws r = d # r'" for d r'
      using that by (rule skip_ws_Cons_length)
    ultimately show ?thesis
      using Some p v "4.IH"(2) [OF Some p [symmetric]] "4.prems"
      by (auto split: list.split)
  next
    case None
    then show ?thesis by (simp add: v del: parse_value.simps)
  qed
next
  case (6 n ps s)
  show ?case
  proof (cases "\<exists>r k r1 r2. skip_ws s = 0x22 # r \<and> parse_chars [] r = Some (k, r1) \<and>
      skip_ws r1 = 0x3A # r2")
    case True
    then obtain r k r1 r2 where h: "skip_ws s = 0x22 # r" "parse_chars [] r = Some (k, r1)"
      "skip_ws r1 = 0x3A # r2"
      by blast
    have l: "length r2 < length s"
      using skip_ws_Cons_length [OF h(1)] parse_chars_shorter [OF h(2)] skip_ws_Cons_length [OF h(3)]
      by linarith
    have v: "parse_value (Suc n) r2 = parse_value n r2"
      using l "6.prems" by (intro "6.IH"(1) [OF h(1) _ h(2) refl h(3)]) simp_all
    show ?thesis
    proof (cases "parse_value n r2")
      case (Some q)
      obtain v r3 where q: "q = (v, r3)" by fastforce
      have "length r3 \<le> length r2"
        using Some q by (simp add: parse_shorter(1) del: parse_value.simps)
      moreover have "length r4 < length r3" if "skip_ws r3 = e # r4" for e r4
        using that by (rule skip_ws_Cons_length)
      ultimately show ?thesis
        using h v Some q "6.IH"(2) [OF h(1) _ h(2) refl h(3) _ Some q [symmetric]] "6.prems" l
        by (auto split: list.split)
    next
      case None
      then show ?thesis by (simp add: h v del: parse_value.simps)
    qed
  next
    case False
    show ?thesis
    proof (cases "skip_ws s")
      case (Cons c r)
      show ?thesis
      proof (cases "c = 0x22 \<and> parse_chars [] r \<noteq> None")
        case True
        then obtain k r1 where k: "parse_chars [] r = Some (k, r1)" by auto
        have "\<forall>r2. skip_ws r1 \<noteq> 0x3A # r2"
          using False Cons True k by blast
        then show ?thesis
          using Cons True k by (simp split: list.split)
      next
        case False
        then show ?thesis
          using Cons by (cases "parse_chars [] r") auto
      qed
    qed simp
  qed
qed simp_all


lemma parse_fuel_enough:
  "2 * length s + 1 \<le> n \<Longrightarrow> parse_value n s = parse_value (2 * length s + 1) s"
proof (induction n rule: dec_induct)
  case (step n)
  then show ?case
    using parse_fuel_step(1) [of s n] by simp
qed simp

text \<open>
  The fuel of \<open>json_parse\<close> is enough: any amount beyond \<open>2 * length s + 1\<close>
  gives the same result, so the model behaves as the unbounded
  recursive-descent parser.
\<close>

lemma json_parse_fuel_independent:
  "json_parse s =
     (case parse_value (2 * length s + 1 + k) s of
        None \<Rightarrow> Inl SyntaxError
      | Some (v, r) \<Rightarrow> if skip_ws r = [] then Inr v else Inl SyntaxError)"
  using parse_fuel_enough [of s "2 * length s + 1 + k"] by (simp add: json_parse_def)

end
