(* ===== verification/JsonPretty.thy ===== *)
theory JsonPretty
  imports Json
begin

text \<open>
  \<open>JSON.stringify(v, null, 2)\<close>, which the agent console and the experiment
  detail page render: \<open>SerializeJSONObject\<close> and \<open>SerializeJSONArray\<close> with
  the gap of two spaces, each member or element on a line of its own indented
  one gap deeper, \<open>": "\<close> between a key and its value, and \<open>{}\<close>, \<open>[]\<close> for
  the empty object and array. \<open>minify\<close> removes the white space outside string
  literals; it is the reference the printer is compared with.
\<close>

definition gap :: jstr where
  "gap = js ''  ''"

fun pretty :: "jstr \<Rightarrow> json \<Rightarrow> jstr"
and pretty_elems :: "jstr \<Rightarrow> json list \<Rightarrow> jstr"
and pretty_members :: "jstr \<Rightarrow> props \<Rightarrow> jstr" where
  "pretty ind JNull = js ''null''"
| "pretty ind (JBool b) = (if b then js ''true'' else js ''false'')"
| "pretty ind (JNum m e) = num_str m e"
| "pretty ind (JStr s) = quote_json s"
| "pretty ind (JArr xs) =
     (if xs = [] then js ''[]'' else 0x5B # pretty_elems (ind @ gap) xs @ 0x0A # ind @ [0x5D])"
| "pretty ind (JObj ps) =
     (if ps = [] then js ''{}'' else 0x7B # pretty_members (ind @ gap) ps @ 0x0A # ind @ [0x7D])"
| "pretty_elems ind [] = []"
| "pretty_elems ind (x # xs) =
     0x0A # ind @ pretty ind x @ (if xs = [] then [] else 0x2C # pretty_elems ind xs)"
| "pretty_members ind [] = []"
| "pretty_members ind ((k, v) # ps) =
     0x0A # ind @ quote_json k @ [0x3A, 0x20] @ pretty ind v @
     (if ps = [] then [] else 0x2C # pretty_members ind ps)"

text \<open>\<open>JSON.stringify(x, null, 2)\<close> of a value that may be \<open>undefined\<close>, which gives \<open>undefined\<close>.\<close>

definition pretty_val :: "jsval \<Rightarrow> jstr option" where
  "pretty_val v = (case v of Undefined \<Rightarrow> None | Val x \<Rightarrow> Some (pretty [] x))"

declare gap_def [model_defs] pretty_val_def [model_defs]

text \<open>Outside a string (\<open>False\<close>) white space is dropped; inside, an escape is copied whole.\<close>

fun minify :: "bool \<Rightarrow> jstr \<Rightarrow> jstr" where
  "minify q [] = []"
| "minify False (c # cs) = (if is_ws c then minify False cs else c # minify (c = 0x22) cs)"
| "minify True (c # cs) =
     (if c = 0x5C then (case cs of [] \<Rightarrow> [c] | d # ds \<Rightarrow> c # d # minify True ds)
      else c # minify (c \<noteq> 0x22) cs)"

subsection \<open>Characters that neither open a string nor are white space\<close>

lemma cu_not_special:
  assumes "n < 65536" "n \<noteq> 9" "n \<noteq> 10" "n \<noteq> 13" "n \<noteq> 32" "n \<noteq> 34" "n \<noteq> 92"
  shows "\<not> is_ws (word_of_nat n :: cu) \<and> (word_of_nat n :: cu) \<noteq> 0x22 \<and> (word_of_nat n :: cu) \<noteq> 0x5C"
  using assms unat_cu_small [OF assms(1)] by (auto simp: is_ws_def word_unat_eq_iff)

lemma hex_digit_plain: "d < 16 \<Longrightarrow> \<not> is_ws (hex_digit d) \<and> hex_digit d \<noteq> 0x22 \<and> hex_digit d \<noteq> 0x5C"
  unfolding hex_digit_def using cu_not_special [of "0x30 + d"] cu_not_special [of "0x57 + d"] by auto

lemma num_str_plain: "\<forall>c \<in> set (num_str m e). \<not> is_ws c \<and> c \<noteq> 0x22"
  using num_str_chars num_chars_plain by blast

lemma minify_plain:
  "\<forall>c \<in> set t. \<not> is_ws c \<and> c \<noteq> 0x22 \<Longrightarrow> minify False (t @ r) = t @ minify False r"
  by (induction t) auto

lemma minify_spaces: "set ind \<subseteq> {0x20} \<Longrightarrow> minify False (ind @ r) = minify False r"
  by (induction ind) (auto simp: is_ws_def)

subsection \<open>Strings are copied\<close>

lemma minify_quote_unit: "minify True (quote_unit c @ r) = quote_unit c @ minify True r"
proof -
  have "unat c < 65536" using unsigned_less [of c] by simp
  then have "unat c div 4096 < 16" by simp
  then have h: "\<not> is_ws (hex_digit d) \<and> hex_digit d \<noteq> 0x22 \<and> hex_digit d \<noteq> 0x5C"
    if "d \<in> {unat c div 4096, unat c div 256 mod 16, unat c div 16 mod 16, unat c mod 16}" for d
    using that hex_digit_plain by auto
  show ?thesis
    using h by (simp add: quote_unit_def unicode_escape_def)
qed

lemma surrogate_not_special: "is_lead c \<or> is_trail c \<Longrightarrow> c \<noteq> 0x22 \<and> c \<noteq> 0x5C"
  by (auto simp: is_lead_def is_trail_def)

lemma minify_quote_units: "minify True (quote_units s @ r) = quote_units s @ minify True r"
proof (induction s arbitrary: r rule: quote_units.induct)
  case 1
  then show ?case by simp
next
  case (2 c)
  then show ?case using minify_quote_unit [of c r] by simp
next
  case (3 c d cs)
  then show ?case
    using minify_quote_unit [of c "quote_units (d # cs) @ r"] surrogate_not_special [of c]
      surrogate_not_special [of d]
    by auto
qed

lemma minify_quote_json: "minify False (quote_json s @ r) = quote_json s @ minify False r"
  using minify_quote_units [of s "0x22 # r"] by (simp add: quote_json_def is_ws_def)

subsection \<open>The printer adds white space only\<close>

lemma gap_spaces: "set gap \<subseteq> {0x20}"
  by (simp add: gap_def)

lemma literal_plain:
  "\<forall>c \<in> set (js ''null''). \<not> is_ws c \<and> c \<noteq> 0x22"
  "\<forall>c \<in> set (js ''true''). \<not> is_ws c \<and> c \<noteq> 0x22"
  "\<forall>c \<in> set (js ''false''). \<not> is_ws c \<and> c \<noteq> 0x22"
  by (simp_all add: is_ws_def)

lemma minify_pretty:
  "set ind \<subseteq> {0x20} \<Longrightarrow> minify False (pretty ind v @ r) = stringify v @ minify False r"
  "set ind \<subseteq> {0x20} \<Longrightarrow> minify False (pretty_elems ind xs @ r) = stringify_elems xs @ minify False r"
  "set ind \<subseteq> {0x20} \<Longrightarrow> minify False (pretty_members ind ps @ r) = stringify_members ps @ minify False r"
proof (induction ind v and ind xs and ind ps arbitrary: r and r and r
    rule: pretty_pretty_elems_pretty_members.induct)
  case (1 ind)
  then show ?case using minify_plain [OF literal_plain(1)] by simp
next
  case (2 ind b)
  then show ?case using minify_plain [OF literal_plain(2)] minify_plain [OF literal_plain(3)] by simp
next
  case (3 ind m e)
  then show ?case using minify_plain [OF num_str_plain] by simp
next
  case (4 ind s)
  then show ?case using minify_quote_json by simp
next
  case (5 ind xs)
  have sp: "set (ind @ gap) \<subseteq> {0x20}" using 5(2) gap_spaces by auto
  show ?case
  proof (cases "xs = []")
    case True
    then show ?thesis by (simp add: is_ws_def)
  next
    case False
    then show ?thesis
      using 5(1) [OF False sp] minify_spaces [OF 5(2)] by (simp add: is_ws_def)
  qed
next
  case (6 ind ps)
  have sp: "set (ind @ gap) \<subseteq> {0x20}" using 6(2) gap_spaces by auto
  show ?case
  proof (cases "ps = []")
    case True
    then show ?thesis by (simp add: is_ws_def)
  next
    case False
    then show ?thesis
      using 6(1) [OF False sp] minify_spaces [OF 6(2)] by (simp add: is_ws_def)
  qed
next
  case (7 ind)
  then show ?case by simp
next
  case (8 ind x xs)
  show ?case
  proof (cases xs)
    case Nil
    then show ?thesis using 8(1) [OF 8(3)] minify_spaces [OF 8(3)] by (simp add: is_ws_def)
  next
    case (Cons y ys)
    then show ?thesis
      using 8(1) [OF 8(3)] 8(2) [OF _ 8(3)] minify_spaces [OF 8(3)] by (simp add: is_ws_def)
  qed
next
  case (9 ind)
  then show ?case by simp
next
  case (10 ind k v ps)
  show ?case
  proof (cases ps)
    case Nil
    then show ?thesis
      using 10(1) [OF 10(3)] minify_spaces [OF 10(3)] minify_quote_json by (simp add: is_ws_def)
  next
    case (Cons p ps')
    then show ?thesis
      using 10(1) [OF 10(3)] 10(2) [OF _ 10(3)] minify_spaces [OF 10(3)] minify_quote_json
      by (simp add: is_ws_def)
  qed
qed

text \<open>
  \<open>JSON.stringify(v, null, 2)\<close> differs from \<open>JSON.stringify(v)\<close> only by
  white space outside string literals: removing it gives the compact text back.
\<close>

lemma pretty_minifies_to_stringify: "minify False (pretty [] v) = stringify v"
  using minify_pretty(1) [of "[]" v "[]"] by simp

end
