(* ===== verification/JsValues.thy ===== *)
theory JsValues
  imports Json
begin

text \<open>
  The ECMAScript conversions the pages apply to form fields and to values read
  from JSON: \<open>String.prototype.trim\<close>, \<open>Number(string)\<close> (the abstract
  operation \<open>StringToNumber\<close>), the string conversion a template literal
  \<open>`${x}`\<close> performs on a parsed value, and the truthiness \<open>!x\<close> tests.
  A number is an exact decimal as in \<open>Json\<close>, or \<open>NaN\<close>, or an infinity.
\<close>

datatype jsnum = Fin int int | NaN | Inf bool

subsection \<open>\<open>trim\<close>\<close>

text \<open>\<open>WhiteSpace\<close> and \<open>LineTerminator\<close> code units (ECMA-262 12.2, 12.3).\<close>

definition js_space :: "cu \<Rightarrow> bool" where
  "js_space c \<longleftrightarrow>
     c = 0x09 \<or> c = 0x0B \<or> c = 0x0C \<or> c = 0x20 \<or> c = 0xA0 \<or> c = 0xFEFF \<or>
     c = 0x0A \<or> c = 0x0D \<or> c = 0x2028 \<or> c = 0x2029 \<or>
     c = 0x1680 \<or> (0x2000 \<le> c \<and> c \<le> 0x200A) \<or> c = 0x202F \<or> c = 0x205F \<or> c = 0x3000"

definition js_trim :: "jstr \<Rightarrow> jstr" where
  "js_trim s = rev (dropWhile js_space (rev (dropWhile js_space s)))"

subsection \<open>\<open>Number(s)\<close>\<close>

definition fin_of :: "json \<Rightarrow> jsnum" where
  "fin_of v = (case v of JNum m e \<Rightarrow> Fin m e | _ \<Rightarrow> NaN)"

text \<open>\<open>StrUnsignedDecimalLiteral\<close>: \<open>Infinity\<close>, or digits with an optional
  fraction (at least one digit on either side of the point) and exponent.\<close>

definition str_unsigned :: "bool \<Rightarrow> jstr \<Rightarrow> jsnum option" where
  "str_unsigned neg s =
     (if s = js ''Infinity'' then Some (Inf (\<not> neg))
      else
        let ip = takeWhile is_digit s; r1 = dropWhile is_digit s;
            (fp, r2) = (case r1 of
                          c # t \<Rightarrow> if c = 0x2E then (takeWhile is_digit t, dropWhile is_digit t)
                                  else ([], r1)
                        | [] \<Rightarrow> ([], r1))
        in if ip = [] \<and> fp = [] then None
           else case parse_exp r2 of
                  Some (x, []) \<Rightarrow> Some (fin_of (mk_num neg (map digit_val (ip @ fp))
                                                    (x - int (length fp))))
                | _ \<Rightarrow> None)"

definition str_decimal :: "jstr \<Rightarrow> jsnum option" where
  "str_decimal s =
     (case s of
        c # t \<Rightarrow> if c = 0x2B then str_unsigned False t
                else if c = 0x2D then str_unsigned True t
                else str_unsigned False s
      | [] \<Rightarrow> None)"

text \<open>\<open>NonDecimalIntegerLiteral\<close>: \<open>0x\<close>, \<open>0o\<close> or \<open>0b\<close> (either case) and digits of that radix.\<close>

definition radix_digit :: "nat \<Rightarrow> cu \<Rightarrow> nat option" where
  "radix_digit b c = (case hex_val c of Some d \<Rightarrow> if d < b then Some d else None | None \<Rightarrow> None)"

definition non_decimal :: "jstr \<Rightarrow> jsnum option" where
  "non_decimal s =
     (case s of
        z # p # ds \<Rightarrow>
          (let b = (if p = 0x78 \<or> p = 0x58 then 16 else if p = 0x6F \<or> p = 0x4F then 8
                    else if p = 0x62 \<or> p = 0x42 then 2 else 0)
           in if z \<noteq> 0x30 \<or> b = 0 \<or> ds = [] \<or> (\<exists>c \<in> set ds. radix_digit b c = None) then None
              else Some (fin_of (mk_num False
                     (dec_digits (foldl (\<lambda>acc c. b * acc + the (radix_digit b c)) 0 ds)) 0)))
      | _ \<Rightarrow> None)"

definition js_number :: "jstr \<Rightarrow> jsnum" where
  "js_number s =
     (let t = js_trim s
      in if t = [] then Fin 0 0
         else case non_decimal t of
                Some n \<Rightarrow> n
              | None \<Rightarrow> (case str_decimal t of Some n \<Rightarrow> n | None \<Rightarrow> NaN))"

text \<open>\<open>JSON.stringify\<close> of a number: non-finite numbers print as \<open>null\<close>.\<close>

definition num_json :: "jsnum \<Rightarrow> json" where
  "num_json n = (case n of Fin m e \<Rightarrow> JNum m e | _ \<Rightarrow> JNull)"

subsection \<open>Values in template literals and conditions\<close>

text \<open>
  \<open>ToString\<close> of a value read from JSON, as \<open>`${x}`\<close> applies it: arrays join
  their elements with \<open>,\<close> (\<open>null\<close> elements as the empty string), objects
  print as \<open>[object Object]\<close>.
\<close>

fun val_str :: "json \<Rightarrow> jstr"
and elem_strs :: "json list \<Rightarrow> jstr list" where
  "val_str JNull = js ''null''"
| "val_str (JBool b) = (if b then js ''true'' else js ''false'')"
| "val_str (JNum m e) = num_str m e"
| "val_str (JStr s) = s"
| "val_str (JArr xs) = js_join (elem_strs xs) [0x2C]"
| "val_str (JObj ps) = js ''[object Object]''"
| "elem_strs [] = []"
| "elem_strs (x # xs) = (if x = JNull then [] else val_str x) # elem_strs xs"

definition template_val :: "jsval \<Rightarrow> jstr" where
  "template_val v = (case v of Undefined \<Rightarrow> js ''undefined'' | Val x \<Rightarrow> val_str x)"

text \<open>\<open>ToBoolean\<close>: \<open>undefined\<close>, \<open>null\<close>, \<open>false\<close>, zero and the empty string are falsy.\<close>

definition truthy :: "jsval \<Rightarrow> bool" where
  "truthy v =
     (case v of
        Undefined \<Rightarrow> False
      | Val JNull \<Rightarrow> False
      | Val (JBool b) \<Rightarrow> b
      | Val (JNum m e) \<Rightarrow> m \<noteq> 0
      | Val (JStr s) \<Rightarrow> s \<noteq> []
      | Val _ \<Rightarrow> True)"

text \<open>\<open>x || d\<close> on values.\<close>

definition val_or :: "jsval \<Rightarrow> jsval \<Rightarrow> jsval" where
  "val_or x d = (if truthy x then x else d)"

subsection \<open>TypeScript annotations\<close>

text \<open>
  A TypeScript type of a value read from JSON: numbers, strings, arrays, and
  object types whose properties may be optional (\<open>k?: t\<close>, the \<open>bool\<close>).
  The annotation is erased at run time; \<open>has_type\<close> is the promise it makes.
\<close>

datatype ts_type = TNumber | TString | TArray ts_type | TObject "(jstr \<times> bool \<times> ts_type) list"

fun has_type :: "ts_type \<Rightarrow> json \<Rightarrow> bool" where
  "has_type TNumber v = (case v of JNum _ _ \<Rightarrow> True | _ \<Rightarrow> False)"
| "has_type TString v = (case v of JStr _ \<Rightarrow> True | _ \<Rightarrow> False)"
| "has_type (TArray t) v = (case v of JArr xs \<Rightarrow> list_all (has_type t) xs | _ \<Rightarrow> False)"
| "has_type (TObject fs) v =
     (case v of
        JObj ps \<Rightarrow> list_all (\<lambda>(k, opt, t). case map_of ps k of None \<Rightarrow> opt | Some x \<Rightarrow> has_type t x) fs
      | _ \<Rightarrow> False)"

declare js_space_def [model_defs] js_trim_def [model_defs] fin_of_def [model_defs]
  str_unsigned_def [model_defs] str_decimal_def [model_defs] radix_digit_def [model_defs]
  non_decimal_def [model_defs] js_number_def [model_defs] num_json_def [model_defs]
  template_val_def [model_defs] truthy_def [model_defs] val_or_def [model_defs]


subsection \<open>\<open>trim\<close> is idempotent\<close>

lemma last_dropWhile: "dropWhile P xs \<noteq> [] \<Longrightarrow> last (dropWhile P xs) = last xs"
  by (induction xs) auto

lemma dropWhile_keep: "xs = [] \<or> \<not> P (hd xs) \<Longrightarrow> dropWhile P xs = xs"
  by (cases xs) auto

lemma js_trim_ends:
  "js_trim s = [] \<or> (\<not> js_space (hd (js_trim s)) \<and> \<not> js_space (last (js_trim s)))"
proof -
  let ?a = "dropWhile js_space s"
  let ?b = "dropWhile js_space (rev ?a)"
  have "?b = [] \<or> \<not> js_space (hd ?b)"
    by (metis hd_dropWhile)
  moreover have "?b \<noteq> [] \<Longrightarrow> \<not> js_space (last ?b)"
    using last_dropWhile [of js_space "rev ?a"] hd_dropWhile [of js_space s]
    by (metis Nil_is_rev_conv dropWhile.simps(1) last_rev)
  ultimately show ?thesis
    by (auto simp: js_trim_def hd_rev last_rev)
qed

lemma js_trim_idem: "js_trim (js_trim s) = js_trim s"
proof -
  let ?t = "js_trim s"
  have "dropWhile js_space ?t = ?t"
    using js_trim_ends [of s] by (intro dropWhile_keep) auto
  moreover have "dropWhile js_space (rev ?t) = rev ?t"
    using js_trim_ends [of s] by (intro dropWhile_keep) (auto simp: hd_rev)
  ultimately show ?thesis
    by (simp add: js_trim_def [of ?t])
qed

end
