(* ===== verification/AgentConsole.thy ===== *)
theory AgentConsole
  imports FrameDecoder JsonPretty JsValues
begin

text \<open>
  The Event Dispatcher and the \<open>generate\<close> handler of \<open>app/agent/page.tsx\<close>.
  The React state of the page is the record \<open>ui\<close>: \<open>events\<close> (the progress
  log shown as \<open>events.join('\n')\<close>) and \<open>agent\<close> (the result slot).
  \<open>dispatch\<close> is one iteration of the \<open>for\<close> loop over complete chunks (lines 24
  to 31); \<open>dispatch_all\<close> the loop, which stops at the first exception, keeping
  the state updates made before it. \<open>read_loop\<close> is the \<open>while(true)\<close> loop over
  the results of \<open>reader.read()\<close>; \<open>generate\<close> the whole handler: reset, read
  of the stored assessment, request, and loop. An exception that escapes the
  handler rejects its promise: the outcome \<open>Rejected\<close>.
\<close>

record ui =
  events :: "jstr list"
  agent :: jsval

datatype outcome = Resolved | Rejected js_error | Pending

text \<open>What one \<open>await reader.read()\<close> yields: a fragment, the end, or a failure.\<close>

datatype read_result = Chunk "byte list" | Done | ReadFail

text \<open>What \<open>fetch\<close> yields: a rejection, a response without body, or a body.\<close>

datatype fetch_result = FetchFail | NoBody | Body "read_result list"

subsection \<open>The Event Dispatcher\<close>

text \<open>\<^verbatim>\<open>`${evt}: ${JSON.stringify(data)}`\<close>\<close>

definition render_event :: "jstr \<Rightarrow> json \<Rightarrow> jstr" where
  "render_event evt data = evt @ js '': '' @ stringify data"

definition dispatch :: "ui \<Rightarrow> jstr \<Rightarrow> ui \<times> js_error option" where
  "dispatch u chunk =
     (let evt = regex_capture (js ''event: '') chunk;
          dataLine = regex_capture (js ''data: '') chunk
      in case (evt, dataLine) of
           (Some e, Some d) \<Rightarrow>
             if e = [] \<or> d = [] then (u, None)
             else
               (case json_parse d of
                  Inl err \<Rightarrow> (u, Some err)
                | Inr data \<Rightarrow>
                    let u1 = u\<lparr>events := events u @ [render_event e data]\<rparr>
                    in if e = js ''result'' then
                         (case get_prop data (js ''agent_config'') of
                            Inl err \<Rightarrow> (u1, Some err)
                          | Inr v \<Rightarrow> (u1\<lparr>agent := v\<rparr>, None))
                       else (u1, None))
         | _ \<Rightarrow> (u, None))"

fun dispatch_all :: "ui \<Rightarrow> jstr list \<Rightarrow> ui \<times> js_error option" where
  "dispatch_all u [] = (u, None)"
| "dispatch_all u (c # cs) =
     (case dispatch u c of
        (u', None) \<Rightarrow> dispatch_all u' cs
      | (u', Some err) \<Rightarrow> (u', Some err))"

text \<open>The two captures a chunk is read through.\<close>

abbreviation event_of :: "jstr \<Rightarrow> jstr option" where
  "event_of c \<equiv> regex_capture (js ''event: '') c"

abbreviation data_of :: "jstr \<Rightarrow> jstr option" where
  "data_of c \<equiv> regex_capture (js ''data: '') c"

subsection \<open>The read loop\<close>

definition on_chunk :: "ui \<Rightarrow> frame_decoder \<Rightarrow> byte list \<Rightarrow> ui \<times> (js_error + frame_decoder)" where
  "on_chunk u fd value =
     (let (fd', chunks) = feed fd value;
          (u', err) = dispatch_all u chunks
      in (u', case err of None \<Rightarrow> Inr fd' | Some e \<Rightarrow> Inl e))"

fun read_loop :: "ui \<Rightarrow> frame_decoder \<Rightarrow> read_result list \<Rightarrow> ui \<times> outcome" where
  "read_loop u fd [] = (u, Pending)"
| "read_loop u fd (Done # rs) = (u, Resolved)"
| "read_loop u fd (ReadFail # rs) = (u, Rejected NetworkError)"
| "read_loop u fd (Chunk v # rs) =
     (case on_chunk u fd v of
        (u', Inl e) \<Rightarrow> (u', Rejected e)
      | (u', Inr fd') \<Rightarrow> read_loop u' fd' rs)"

subsection \<open>The request\<close>

text \<open>
  The \<open>user_goal\<close> literal of the request, as UTF-16 code units (U+63D0 U+5347
  U+672A U+6765 \<open>12\<close> U+4E2A U+6708 U+5C31 U+4E1A U+97E7 U+6027).
\<close>

definition agent_goal :: jstr where
  "agent_goal = [0x63D0, 0x5347, 0x672A, 0x6765, 0x31, 0x32, 0x4E2A, 0x6708, 0x5C31,
                 0x4E1A, 0x97E7, 0x6027]"

text \<open>
  \<^verbatim>\<open>const assessment = assessmentRaw ? JSON.parse(assessmentRaw) : null\<close>:
  a missing item (\<open>null\<close>) and the empty string are falsy.
\<close>

definition read_assessment :: "jstr option \<Rightarrow> js_error + jsval" where
  "read_assessment raw =
     (case raw of
        None \<Rightarrow> Inr (Val JNull)
      | Some s \<Rightarrow> if s = [] then Inr (Val JNull)
                  else (case json_parse s of Inl e \<Rightarrow> Inl e | Inr v \<Rightarrow> Inr (Val v)))"

text \<open>\<open>JSON.stringify\<close> of an object literal leaves out the members that are \<open>undefined\<close>.\<close>

fun present :: "(jstr \<times> jsval) list \<Rightarrow> props" where
  "present [] = []"
| "present ((k, Undefined) # ps) = present ps"
| "present ((k, Val v) # ps) = (k, v) # present ps"

definition agent_request_body :: "jsval \<Rightarrow> jstr" where
  "agent_request_body a =
     stringify (JObj (present
       [(js ''user_goal'', Val (JStr agent_goal)),
        (js ''risk_score'', opt_prop a (js ''score'')),
        (js ''assessment_id'', opt_prop a (js ''assessment_id''))]))"

subsection \<open>The handler\<close>

text \<open>\<^verbatim>\<open>setEvents([]); setAgent(null)\<close>\<close>

definition ui_reset :: "ui \<Rightarrow> ui" where
  "ui_reset u = u\<lparr>events := [], agent := Val JNull\<rparr>"

text \<open>
  \<open>generate u stored server\<close>: \<open>stored\<close> is \<open>localStorage.getItem('assessment')\<close>
  and \<open>server\<close> the answer of \<open>POST /api/py/agent/generate\<close> to a request body.
  Whatever the status of the response, its body is read (the code never looks at
  \<open>res.ok\<close>); a response without body ends the handler (\<open>if(!reader) return\<close>).
\<close>

definition generate :: "ui \<Rightarrow> jstr option \<Rightarrow> (jstr \<Rightarrow> fetch_result) \<Rightarrow> ui \<times> outcome" where
  "generate u stored server =
     (let u0 = ui_reset u
      in case read_assessment stored of
           Inl e \<Rightarrow> (u0, Rejected e)
         | Inr a \<Rightarrow>
             (case server (agent_request_body a) of
                FetchFail \<Rightarrow> (u0, Rejected NetworkError)
              | NoBody \<Rightarrow> (u0, Resolved)
              | Body rs \<Rightarrow> read_loop u0 fd_new rs))"

text \<open>
  The result card: \<open>{agent ? JSON.stringify(agent, null, 2) : '...'}\<close>, the
  placeholder being U+6682 U+65E0.
\<close>

definition agent_view :: "ui \<Rightarrow> jstr" where
  "agent_view u =
     (case agent u of
        Val x \<Rightarrow> if truthy (Val x) then pretty [] x else [0x6682, 0x65E0]
      | Undefined \<Rightarrow> [0x6682, 0x65E0])"

declare agent_view_def [model_defs] render_event_def [model_defs] dispatch_def [model_defs] on_chunk_def [model_defs]
  agent_goal_def [model_defs] read_assessment_def [model_defs]
  agent_request_body_def [model_defs] ui_reset_def [model_defs] generate_def [model_defs]

definition no_lf :: "jstr \<Rightarrow> bool" where
  "no_lf s \<longleftrightarrow> 0x0A \<notin> set s"

subsection \<open>The loops compose\<close>

lemma dispatch_all_append:
  "dispatch_all u (xs @ ys) =
     (case dispatch_all u xs of
        (u', None) \<Rightarrow> dispatch_all u' ys
      | (u', Some e) \<Rightarrow> (u', Some e))"
  by (induction u xs rule: dispatch_all.induct) (simp_all split: prod.split option.split)

lemma feed_all_Cons:
  "feed_all fd (v # vs) =
     (fst (feed_all (fst (feed fd v)) vs), snd (feed fd v) @ snd (feed_all (fst (feed fd v)) vs))"
  by (simp split: prod.split)

text \<open>Reading fragments is dispatching the frames that feeding them emits.\<close>

lemma read_loop_chunks:
  "read_loop u fd (map Chunk vs @ rs) =
     (case dispatch_all u (snd (feed_all fd vs)) of
        (u', Some e) \<Rightarrow> (u', Rejected e)
      | (u', None) \<Rightarrow> read_loop u' (fst (feed_all fd vs)) rs)"
proof (induction vs arbitrary: u fd)
  case Nil
  then show ?case by simp
next
  case (Cons v vs)
  obtain fd1 c1 where f1: "feed fd v = (fd1, c1)" by fastforce
  show ?case
  proof (cases "dispatch_all u c1")
    case (Pair u1 err)
    then show ?thesis
      using Cons.IH [of u1 fd1]
      by (cases err) (simp_all add: on_chunk_def f1 feed_all_Cons dispatch_all_append
          split: prod.split option.split)
  qed
qed

lemma read_loop_fresh:
  "read_loop u fd_new (map Chunk vs @ rs) =
     (case dispatch_all u (frames_of (snd (text_decode decoder_new (concat vs)))) of
        (u', Some e) \<Rightarrow> (u', Rejected e)
      | (u', None) \<Rightarrow>
          read_loop u' \<lparr>decoder = fst (text_decode decoder_new (concat vs)),
                        buffer = pending_of (snd (text_decode decoder_new (concat vs)))\<rparr> rs)"
proof -
  have "feed_all fd_new vs =
      (\<lparr>decoder = fst (text_decode decoder_new (concat vs)),
        buffer = pending_of (snd (text_decode decoder_new (concat vs)))\<rparr>,
       frames_of (snd (text_decode decoder_new (concat vs))))"
    using feed_all_eq [OF fd_new_ok, of vs] by (simp add: fd_new_def split: prod.split)
  then show ?thesis unfolding read_loop_chunks by simp
qed

lemma read_loop_same_bytes:
  "concat vs = concat ws \<Longrightarrow>
   read_loop u fd_new (map Chunk vs @ rs) = read_loop u fd_new (map Chunk ws @ rs)"
  unfolding read_loop_fresh by simp

text \<open>
  C2. The read loop over a body that arrives in any fragments and then ends is
  the batch dispatch of the complete frames of the whole decoded body: it
  resolves when every frame is dispatched without exception, and otherwise
  rejects with the first exception, keeping the updates made before it. The
  text after the last blank line is dropped without error.
\<close>

theorem read_loop_refines:
  "read_loop u fd_new (map Chunk vs @ Done # rs) =
     (case dispatch_all u (frames_of (snd (text_decode decoder_new (concat vs)))) of
        (u', None) \<Rightarrow> (u', Resolved)
      | (u', Some e) \<Rightarrow> (u', Rejected e))"
  by (simp add: read_loop_fresh split: prod.split option.split)

subsection \<open>One chunk, case by case\<close>

lemma dispatch_skip:
  "(\<forall>e d. event_of c = Some e \<longrightarrow> data_of c = Some d \<longrightarrow> e = [] \<or> d = []) \<Longrightarrow>
   dispatch u c = (u, None)"
  by (auto simp: dispatch_def Let_def split: option.split)

lemma dispatch_parse_error:
  "event_of c = Some e \<Longrightarrow> e \<noteq> [] \<Longrightarrow> data_of c = Some d \<Longrightarrow> d \<noteq> [] \<Longrightarrow>
   json_parse d = Inl err \<Longrightarrow> dispatch u c = (u, Some err)"
  by (simp add: dispatch_def)

lemma dispatch_progress:
  "event_of c = Some e \<Longrightarrow> e \<noteq> [] \<Longrightarrow> data_of c = Some d \<Longrightarrow> d \<noteq> [] \<Longrightarrow>
   json_parse d = Inr v \<Longrightarrow> e \<noteq> js ''result'' \<Longrightarrow>
   dispatch u c = (u\<lparr>events := events u @ [render_event e v]\<rparr>, None)"
  by (simp add: dispatch_def)

lemma dispatch_result:
  "event_of c = Some (js ''result'') \<Longrightarrow> data_of c = Some d \<Longrightarrow> d \<noteq> [] \<Longrightarrow>
   json_parse d = Inr v \<Longrightarrow>
   dispatch u c =
     (case get_prop v (js ''agent_config'') of
        Inl err \<Rightarrow> (u\<lparr>events := events u @ [render_event (js ''result'') v]\<rparr>, Some err)
      | Inr a \<Rightarrow> (u\<lparr>events := events u @ [render_event (js ''result'') v], agent := a\<rparr>, None))"
  by (simp add: dispatch_def split: sum.split)

lemmas dispatch_cases = dispatch_skip dispatch_parse_error dispatch_progress dispatch_result

lemma dispatch_events:
  "\<exists>new. events (fst (dispatch u c)) = events u @ new \<and> length new \<le> 1"
  by (auto simp: dispatch_def Let_def split: option.split sum.split if_splits)

text \<open>
  C5. A chunk without an \<open>event:\<close> line or without a \<open>data:\<close> line, or with an
  empty one, is dropped: it changes nothing and the loop goes on with the next.
\<close>

theorem dispatch_drops_incomplete:
  "(\<forall>e d. event_of c = Some e \<longrightarrow> data_of c = Some d \<longrightarrow> e = [] \<or> d = []) \<Longrightarrow>
   dispatch_all u (c # cs) = dispatch_all u cs"
  by (simp add: dispatch_skip)

theorem dispatch_drops_incomplete_witness:
  "dispatch_all \<lparr>events = [], agent = Undefined\<rparr> [js ''data: 1''] = (\<lparr>events = [], agent = Undefined\<rparr>, None)"
proof -
  have h: "\<forall>e d. event_of (js ''data: 1'') = Some e \<longrightarrow> data_of (js ''data: 1'') = Some d \<longrightarrow>
      e = [] \<or> d = []"
    by (simp add: model_defs)
  show ?thesis
    using dispatch_drops_incomplete [OF h, of "\<lparr>events = [], agent = Undefined\<rparr>" "[]"] by simp
qed

text \<open>
  C6. A chunk whose \<open>data:\<close> line is not valid JSON throws out of the loop: the
  \<open>SyntaxError\<close> of \<open>JSON.parse\<close> rejects the handler, and no later chunk of
  the stream is dispatched.
\<close>

theorem malformed_payload_aborts:
  "event_of c = Some e \<Longrightarrow> e \<noteq> [] \<Longrightarrow> data_of c = Some d \<Longrightarrow> d \<noteq> [] \<Longrightarrow>
   json_parse d = Inl err \<Longrightarrow> dispatch_all u (c # cs) = (u, Some err)"
  by (simp add: dispatch_parse_error)

theorem malformed_payload_aborts_witness:
  "event_of (js ''event: a\<newline>data: {'') = Some (js ''a'') \<and> js ''a'' \<noteq> [] \<and>
   data_of (js ''event: a\<newline>data: {'') = Some (js ''{'') \<and> js ''{'' \<noteq> [] \<and>
   json_parse (js ''{'') = Inl SyntaxError \<and>
   dispatch_all \<lparr>events = [], agent = Undefined\<rparr> [js ''event: a\<newline>data: {'', js ''event: b\<newline>data: 1''] =
     (\<lparr>events = [], agent = Undefined\<rparr>, Some SyntaxError)"
proof -
  have e: "event_of (js ''event: a\<newline>data: {'') = Some (js ''a'')"
    and d: "data_of (js ''event: a\<newline>data: {'') = Some (js ''{'')"
    and p: "json_parse (js ''{'') = Inl SyntaxError"
    by (simp_all add: model_defs)
  show ?thesis
    using e d p malformed_payload_aborts [OF e _ d _ p, of "\<lparr>events = [], agent = Undefined\<rparr>" "[js ''event: b\<newline>data: 1'']"]
    by simp
qed

text \<open>
  C7. Two \<open>result\<close> frames in one stream: both are logged, in order, and the
  result slot holds the \<open>agent_config\<close> of the second (last write wins).
\<close>

theorem result_last_write_wins:
  assumes "event_of c1 = Some (js ''result'')" "data_of c1 = Some d1" "d1 \<noteq> []"
    "json_parse d1 = Inr (JObj ps1)" "map_of ps1 (js ''agent_config'') = Some a1"
  and "event_of c2 = Some (js ''result'')" "data_of c2 = Some d2" "d2 \<noteq> []"
    "json_parse d2 = Inr (JObj ps2)" "map_of ps2 (js ''agent_config'') = Some a2"
  shows "dispatch_all u [c1, c2] =
           (u\<lparr>events := events u @ [render_event (js ''result'') (JObj ps1),
                                    render_event (js ''result'') (JObj ps2)],
              agent := Val a2\<rparr>, None)"
  using assms by (simp add: dispatch_result get_prop_def)

theorem result_last_write_wins_witness:
  \<open>event_of (js ''event: result\<newline>data: {"agent_config":1}'') = Some (js ''result'') \<and>
   data_of (js ''event: result\<newline>data: {"agent_config":1}'') = Some (js ''{"agent_config":1}'') \<and>
   json_parse (js ''{"agent_config":1}'') = Inr (JObj [(js ''agent_config'', JNum 1 0)]) \<and>
   event_of (js ''event: result\<newline>data: {"agent_config":2}'') = Some (js ''result'') \<and>
   data_of (js ''event: result\<newline>data: {"agent_config":2}'') = Some (js ''{"agent_config":2}'') \<and>
   json_parse (js ''{"agent_config":2}'') = Inr (JObj [(js ''agent_config'', JNum 2 0)]) \<and>
   agent (fst (dispatch_all \<lparr>events = [], agent = Undefined\<rparr>
     [js ''event: result\<newline>data: {"agent_config":1}'',
      js ''event: result\<newline>data: {"agent_config":2}''])) = Val (JNum 2 0)\<close>
proof -
  have e1: \<open>event_of (js ''event: result\<newline>data: {"agent_config":1}'') = Some (js ''result'')\<close>
    and d1: \<open>data_of (js ''event: result\<newline>data: {"agent_config":1}'') = Some (js ''{"agent_config":1}'')\<close>
    and p1: \<open>json_parse (js ''{"agent_config":1}'') = Inr (JObj [(js ''agent_config'', JNum 1 0)])\<close>
    and e2: \<open>event_of (js ''event: result\<newline>data: {"agent_config":2}'') = Some (js ''result'')\<close>
    and d2: \<open>data_of (js ''event: result\<newline>data: {"agent_config":2}'') = Some (js ''{"agent_config":2}'')\<close>
    and p2: \<open>json_parse (js ''{"agent_config":2}'') = Inr (JObj [(js ''agent_config'', JNum 2 0)])\<close>
    by (simp_all add: model_defs)
  show ?thesis
    using e1 d1 p1 e2 d2 p2
      result_last_write_wins [OF e1 d1 _ p1 _ e2 d2 _ p2, of "JNum 1 0" "JNum 2 0" "\<lparr>events = [], agent = Undefined\<rparr>"]
    by simp
qed

text \<open>
  C8. A \<open>result\<close> frame whose payload is \<open>null\<close> is logged, and then
  \<open>data.agent_config\<close> throws a \<open>TypeError\<close> that ends the loop.
\<close>

theorem null_result_type_error:
  "event_of c = Some (js ''result'') \<Longrightarrow> data_of c = Some d \<Longrightarrow> d \<noteq> [] \<Longrightarrow>
   json_parse d = Inr JNull \<Longrightarrow>
   dispatch_all u (c # cs) =
     (u\<lparr>events := events u @ [render_event (js ''result'') JNull]\<rparr>, Some TypeError)"
  by (simp add: dispatch_result get_prop_def)

theorem null_result_type_error_witness:
  "event_of (js ''event: result\<newline>data: null'') = Some (js ''result'') \<and>
   data_of (js ''event: result\<newline>data: null'') = Some (js ''null'') \<and>
   json_parse (js ''null'') = Inr JNull \<and>
   dispatch_all \<lparr>events = [], agent = Undefined\<rparr> [js ''event: result\<newline>data: null''] =
     (\<lparr>events = [render_event (js ''result'') JNull], agent = Undefined\<rparr>, Some TypeError)"
proof -
  have e: "event_of (js ''event: result\<newline>data: null'') = Some (js ''result'')"
    and d: "data_of (js ''event: result\<newline>data: null'') = Some (js ''null'')"
    and p: "json_parse (js ''null'') = Inr JNull"
    by (simp_all add: model_defs)
  show ?thesis
    using e d p null_result_type_error [OF e d _ p, of "\<lparr>events = [], agent = Undefined\<rparr>" "[]"] by simp
qed

text \<open>
  C9. The progress log is append-only: dispatching chunks only adds lines at its
  end, at most one per chunk, also when an exception stops the loop.
\<close>

theorem events_append_only:
  "\<exists>new. events (fst (dispatch_all u cs)) = events u @ new \<and> length new \<le> length cs"
proof (induction u cs rule: dispatch_all.induct)
  case (1 u)
  then show ?case by simp
next
  case (2 u c cs)
  obtain new1 where n1: "events (fst (dispatch u c)) = events u @ new1" "length new1 \<le> 1"
    using dispatch_events by blast
  show ?case
  proof (cases "dispatch u c")
    case (Pair u1 err)
    show ?thesis
    proof (cases err)
      case None
      from "2.IH" [OF Pair [symmetric] None] obtain new2 where
        "events (fst (dispatch_all u1 cs)) = events u1 @ new2" "length new2 \<le> length cs"
        by blast
      with n1 Pair None show ?thesis
        by (intro exI [of _ "new1 @ new2"]) simp
    next
      case (Some e)
      with n1 Pair show ?thesis by (intro exI [of _ new1]) simp
    qed
  qed
qed

text \<open>
  C10. A transport failure in the middle of the stream rejects the handler with a
  \<open>NetworkError\<close> and keeps the progress made before it: the frames complete
  in the fragments received so far have been dispatched.
\<close>

theorem read_failure_keeps_progress:
  "read_loop u fd_new (map Chunk vs @ ReadFail # rs) =
     (case dispatch_all u (frames_of (snd (text_decode decoder_new (concat vs)))) of
        (u', None) \<Rightarrow> (u', Rejected NetworkError)
      | (u', Some e) \<Rightarrow> (u', Rejected e))"
  by (simp add: read_loop_fresh split: prod.split option.split)

subsection \<open>One line per event\<close>

lemma regex_capture_no_lf: "regex_capture lit s = Some e \<Longrightarrow> no_lf e"
  by (auto simp: regex_capture_def no_lf_def line_terminator_def dest: set_takeWhileD)

lemma render_event_no_lf: "no_lf e \<Longrightarrow> no_lf (render_event e v)"
  by (simp add: no_lf_def render_event_def stringify_no_lf)

lemma dispatch_no_lf:
  "\<forall>x \<in> set (events u). no_lf x \<Longrightarrow> \<forall>x \<in> set (events (fst (dispatch u c))). no_lf x"
  by (auto simp: dispatch_def Let_def render_event_no_lf regex_capture_no_lf
      split: option.split sum.split if_splits)

lemma dispatch_all_no_lf:
  "\<forall>x \<in> set (events u). no_lf x \<Longrightarrow> \<forall>x \<in> set (events (fst (dispatch_all u cs))). no_lf x"
proof (induction u cs rule: dispatch_all.induct)
  case (1 u)
  then show ?case by simp
next
  case (2 u c cs)
  have "\<forall>x \<in> set (events (fst (dispatch u c))). no_lf x"
    using "2.prems" by (rule dispatch_no_lf)
  with "2.IH" show ?case by (auto split: prod.split option.split)
qed

text \<open>
  C11. Every line the dispatcher adds to the progress log is free of line feeds:
  the event name is captured up to the end of its line and \<open>JSON.stringify\<close>
  escapes every line feed. So the text the page renders,
  \<open>events.join('\n')\<close>, splits back into exactly the logged events: one display
  line per event.
\<close>

theorem progress_display_lines:
  "\<forall>x \<in> set (events u). no_lf x \<Longrightarrow> events (fst (dispatch_all u cs)) \<noteq> [] \<Longrightarrow>
   js_split (js_join (events (fst (dispatch_all u cs))) [0x0A]) [0x0A] =
     events (fst (dispatch_all u cs))"
  using dispatch_all_no_lf [of u cs]
  by (simp add: js_split_def split_from_join_single no_lf_def)

theorem progress_display_lines_witness:
  "events (fst (dispatch_all \<lparr>events = [], agent = Undefined\<rparr> [js ''event: a\<newline>data: 1''])) = [js ''a: 1''] \<and>
   js_split (js_join [js ''a: 1''] [0x0A]) [0x0A] = [js ''a: 1'']"
proof -
  have h: "\<forall>x \<in> set (events \<lparr>events = [], agent = Undefined\<rparr>). no_lf x" by simp
  have ev: "events (fst (dispatch_all \<lparr>events = [], agent = Undefined\<rparr> [js ''event: a\<newline>data: 1''])) = [js ''a: 1'']"
    by (simp add: model_defs dec_digits.simps)
  show ?thesis
    using ev progress_display_lines [OF h, of "[js ''event: a\<newline>data: 1'']"] by simp
qed

subsection \<open>The loop ends with the stream\<close>

text \<open>
  C35. The read loop settles as soon as the stream does: when the reads deliver
  \<open>done\<close> or fail at some point, the handler resolves or rejects and is not
  left pending. Only a stream that stays open leaves it pending.
\<close>

theorem read_loop_settles:
  "Done \<in> set rs \<or> ReadFail \<in> set rs \<Longrightarrow> snd (read_loop u fd rs) \<noteq> Pending"
  by (induction u fd rs rule: read_loop.induct) (auto split: prod.split sum.split)

theorem read_loop_settles_witness:
  "snd (read_loop \<lparr>events = [], agent = Val JNull\<rparr> fd_new [Chunk (bytes ''event: a''), Done]) \<noteq> Pending"
  using read_loop_settles [of "[Chunk (bytes ''event: a''), Done]" "\<lparr>events = [], agent = Val JNull\<rparr>" fd_new]
  by simp

text \<open>
  C40. The result card shows the configuration of the \<open>result\<close> frame: after
  a frame whose payload is an object with a truthy \<open>agent_config\<close>, the card
  holds \<open>JSON.stringify(agent_config, null, 2)\<close>, and removing its layout
  white space gives \<open>JSON.stringify(agent_config)\<close>, the text of the
  configuration inside the logged line.
\<close>

theorem result_card_shows_config:
  assumes "event_of c = Some (js ''result'')" "data_of c = Some d" "d \<noteq> []" "json_parse d = Inr (JObj ps)"
    "map_of ps (js ''agent_config'') = Some a" "truthy (Val a)"
  shows "agent_view (fst (dispatch u c)) = pretty [] a \<and>
         minify False (agent_view (fst (dispatch u c))) = stringify a"
  using dispatch_result [OF assms(1-4), of u] assms(5,6) pretty_minifies_to_stringify [of a]
  by (simp add: get_prop_def agent_view_def)

theorem result_card_shows_config_witness:
  \<open>agent_view (fst (dispatch \<lparr>events = [], agent = Val JNull\<rparr> (js ''event: result\<newline>data: {"agent_config":[1]}''))) =
     pretty [] (JArr [JNum 1 0]) \<and>
   minify False (agent_view (fst (dispatch \<lparr>events = [], agent = Val JNull\<rparr>
     (js ''event: result\<newline>data: {"agent_config":[1]}'')))) = stringify (JArr [JNum 1 0])\<close>
proof -
  have e: \<open>event_of (js ''event: result\<newline>data: {"agent_config":[1]}'') = Some (js ''result'')\<close>
    and d: \<open>data_of (js ''event: result\<newline>data: {"agent_config":[1]}'') = Some (js ''{"agent_config":[1]}'')\<close>
    and p: \<open>json_parse (js ''{"agent_config":[1]}'') = Inr (JObj [(js ''agent_config'', JArr [JNum 1 0])])\<close>
    by (simp_all add: model_defs dec_digits.simps)
  have n: \<open>js ''{"agent_config":[1]}'' \<noteq> []\<close> by simp
  have m: "map_of [(js ''agent_config'', JArr [JNum 1 0])] (js ''agent_config'') = Some (JArr [JNum 1 0])" by simp
  have t: "truthy (Val (JArr [JNum 1 0]))" by (simp add: truthy_def)
  show ?thesis
    by (rule result_card_shows_config [OF e d n p m t])
qed

end
