(* ===== verification/UrlQuery.thy ===== *)
theory UrlQuery
  imports JsString Utf8
begin

text \<open>
  \<open>new URL(req.url).searchParams.get(name)\<close>, as the admin API routes call it:
  the \<open>application/x-www-form-urlencoded\<close> parser of the WHATWG URL standard
  (section 5.1) applied to the query of the request URL, then the first value
  whose decoded name matches. The query is given as the ASCII bytes the URL
  parser leaves (it percent-encodes every other code point).
\<close>

definition hex_byte :: "byte \<Rightarrow> nat option" where
  "hex_byte b =
     (if 0x30 \<le> b \<and> b \<le> 0x39 then Some (unat b - 0x30)
      else if 0x41 \<le> b \<and> b \<le> 0x46 then Some (unat b - 0x37)
      else if 0x61 \<le> b \<and> b \<le> 0x66 then Some (unat b - 0x57)
      else None)"

text \<open>Percent-decode: \<open>%XX\<close> with two hexadecimal digits is one byte; any other \<open>%\<close> stays.\<close>

fun percent_decode :: "byte list \<Rightarrow> byte list" where
  "percent_decode [] = []"
| "percent_decode (b # bs) =
     (if b = 0x25 then
        (case bs of
           h1 # h2 # rest \<Rightarrow>
             (case (hex_byte h1, hex_byte h2) of
                (Some x, Some y) \<Rightarrow> word_of_nat (x * 16 + y) # percent_decode rest
              | _ \<Rightarrow> b # percent_decode bs)
         | _ \<Rightarrow> b # percent_decode bs)
      else b # percent_decode bs)"

definition plus_to_space :: "byte list \<Rightarrow> byte list" where
  "plus_to_space bs = map (\<lambda>b. if b = 0x2B then 0x20 else b) bs"

text \<open>One \<open>name=value\<close> sequence: split at the first \<open>=\<close>, then \<open>+\<close> to space, percent-decode, UTF-8 decode.\<close>

definition parse_pair :: "byte list \<Rightarrow> jstr \<times> jstr" where
  "parse_pair seq =
     (let (n, v) = (case index_of [0x3D] seq of
                      None \<Rightarrow> (seq, [])
                    | Some i \<Rightarrow> (take i seq, drop (Suc i) seq))
      in (utf8_decode_no_bom (percent_decode (plus_to_space n)),
          utf8_decode_no_bom (percent_decode (plus_to_space v))))"

definition urlencoded_parse :: "byte list \<Rightarrow> (jstr \<times> jstr) list" where
  "urlencoded_parse q = map parse_pair (filter (\<lambda>s. s \<noteq> []) (js_split q [0x26]))"

text \<open>\<open>searchParams.get(name)\<close>: the first value with that name, or \<open>null\<close> (\<open>None\<close>).\<close>

definition search_get :: "byte list \<Rightarrow> jstr \<Rightarrow> jstr option" where
  "search_get q name = map_option snd (find (\<lambda>(n, v). n = name) (urlencoded_parse q))"

declare hex_byte_def [model_defs] plus_to_space_def [model_defs] parse_pair_def [model_defs]
  urlencoded_parse_def [model_defs] search_get_def [model_defs]

end
