(* ===== verification/UrlEncoding.thy ===== *)
theory UrlEncoding
  imports Json UrlQuery
begin

unbundle bit_operations_syntax

text \<open>
  The URL parser's encoding of a string: the UTF-16 code units are read as
  code points (a lone surrogate becomes U+FFFD, the conversion to a
  \<open>USVString\<close>) and each code point is written as one to four UTF-8 bytes.
  The route handlers see a query and a dynamic segment after the reverse:
  percent-decoding and the UTF-8 decoder of \<open>Utf8\<close>. The theory proves that the
  decoder inverts the encoder, so that a segment reaches its handler unchanged.
\<close>

fun code_points :: "jstr \<Rightarrow> nat list" where
  "code_points [] = []"
| "code_points [c] = [if is_lead c \<or> is_trail c then 0xFFFD else unat c]"
| "code_points (c # d # cs) =
     (if is_lead c \<and> is_trail d
      then (0x10000 + (unat c - 0xD800) * 0x400 + (unat d - 0xDC00)) # code_points cs
      else (if is_lead c \<or> is_trail c then 0xFFFD else unat c) # code_points (d # cs))"

definition utf8_bytes :: "nat \<Rightarrow> byte list" where
  "utf8_bytes n =
     (if n < 0x80 then [of_nat n]
      else if n < 0x800 then [of_nat (0xC0 + n div 64), of_nat (0x80 + n mod 64)]
      else if n < 0x10000
      then [of_nat (0xE0 + n div 4096), of_nat (0x80 + n div 64 mod 64), of_nat (0x80 + n mod 64)]
      else [of_nat (0xF0 + n div 262144), of_nat (0x80 + n div 4096 mod 64),
            of_nat (0x80 + n div 64 mod 64), of_nat (0x80 + n mod 64)])"

definition utf8_encode :: "jstr \<Rightarrow> byte list" where
  "utf8_encode s = concat (map utf8_bytes (code_points s))"

declare utf8_bytes_def [model_defs] utf8_encode_def [model_defs]

text \<open>
  What the properties speak of: a Unicode scalar value, and a string without
  lone surrogates.
\<close>

definition scalar_value :: "nat \<Rightarrow> bool" where
  "scalar_value n \<longleftrightarrow> n < 0x110000 \<and> (n < 0xD800 \<or> 0xE000 \<le> n)"

fun wf_utf16 :: "jstr \<Rightarrow> bool" where
  "wf_utf16 [] = True"
| "wf_utf16 [c] = (\<not> is_lead c \<and> \<not> is_trail c)"
| "wf_utf16 (c # d # cs) =
     (if is_lead c \<and> is_trail d then wf_utf16 cs
      else \<not> is_lead c \<and> \<not> is_trail c \<and> wf_utf16 (d # cs))"

text \<open>
  A query value as a client writes it into a URL: every byte of its UTF-8
  encoding as \<open>%XX\<close> with upper-case hexadecimal digits, a form that
  \<open>encodeURIComponent\<close> and \<open>URLSearchParams\<close> agree to decode.
\<close>

definition hex_digit :: "nat \<Rightarrow> byte" where
  "hex_digit n = (if n < 10 then word_of_nat (0x30 + n) else word_of_nat (0x37 + n))"

definition pct_encode :: "byte list \<Rightarrow> byte list" where
  "pct_encode bs = concat (map (\<lambda>b. [0x25, hex_digit (unat b div 16), hex_digit (unat b mod 16)]) bs)"

subsection \<open>Bytes\<close>

lemma unat_byte: "k < 256 \<Longrightarrow> unat (of_nat k :: byte) = k"
  by (simp add: unat_of_nat)

lemma and_low_bits: "(w :: byte) AND (2 ^ m - 1) = take_bit m w"
  by (simp add: take_bit_eq_mask mask_eq_exp_minus_1)

lemma unat_and_low: "unat ((w :: byte) AND (2 ^ m - 1)) = unat w mod 2 ^ m"
  by (simp only: and_low_bits unsigned_take_bit_eq take_bit_eq_mod [where 'a = nat])

lemma add_mod_small: "(m :: nat) dvd a \<Longrightarrow> x < m \<Longrightarrow> (a + x) mod m = x"
  by (elim dvdE) simp

text \<open>The base-64 digits of a code point, and the boundaries of the second byte.\<close>

lemma div64_0: "(a::nat) div 64 = 0 \<Longrightarrow> a mod 64 = a"
  by (simp add: div_eq_0_iff)
lemma div64_k: "(a::nat) div 64 = k \<Longrightarrow> a = k * 64 + a mod 64"
  using div_mult_mod_eq [of a 64] by simp
lemma div_4096: "(n::nat) div 4096 = n div 64 div 64"
  using div_mult2_eq [of n 64 64] by simp
lemma div_262144: "(n::nat) div 262144 = n div 4096 div 64"
  using div_mult2_eq [of n 4096 64] by simp
lemma lead3_low: "0x800 \<le> (n::nat) \<Longrightarrow> n div 4096 = 0 \<Longrightarrow> 32 \<le> n div 64 mod 64"
proof -
  assume a: "0x800 \<le> n" "n div 4096 = 0"
  then have "n div 64 mod 64 = n div 64" using div64_0 div_4096 by simp
  moreover have "32 \<le> n div 64" using div_le_mono [OF a(1), of 64] by simp
  ultimately show ?thesis by simp
qed
lemma lead3_high: "(n::nat) div 4096 = 13 \<Longrightarrow> n < 0xD800 \<Longrightarrow> n div 64 mod 64 < 32"
proof -
  assume a: "n div 4096 = 13" "n < 0xD800"
  then have "n div 64 div 64 = 13" by (simp only: div_4096)
  then have "n div 64 = 13 * 64 + n div 64 mod 64" by (rule div64_k)
  moreover have "n div 64 < 864" using a(2) by (simp add: div_less_iff_less_mult)
  ultimately show ?thesis by linarith
qed
lemma digits3: "((n::nat) div 4096 * 64 + n div 64 mod 64) * 64 + n mod 64 = n"
  by (simp only: div_4096 div_mult_mod_eq)
lemma lead4_low: "0x10000 \<le> (n::nat) \<Longrightarrow> n div 262144 = 0 \<Longrightarrow> 16 \<le> n div 4096 mod 64"
proof -
  assume a: "0x10000 \<le> n" "n div 262144 = 0"
  then have "n div 4096 mod 64 = n div 4096" using div64_0 div_262144 by simp
  moreover have "16 \<le> n div 4096" using div_le_mono [OF a(1), of 4096] by simp
  ultimately show ?thesis by simp
qed
lemma lead4_high: "(n::nat) div 262144 = 4 \<Longrightarrow> n < 0x110000 \<Longrightarrow> n div 4096 mod 64 < 16"
proof -
  assume a: "n div 262144 = 4" "n < 0x110000"
  then have "n div 4096 div 64 = 4" by (simp only: div_262144)
  then have "n div 4096 = 4 * 64 + n div 4096 mod 64" by (rule div64_k)
  moreover have "n div 4096 < 272" using a(2) by (simp add: div_less_iff_less_mult)
  ultimately show ?thesis by linarith
qed
lemma digits4: "(((n::nat) div 262144 * 64 + n div 4096 mod 64) * 64 + n div 64 mod 64) * 64 + n mod 64 = n"
  by (simp only: div_262144 div_4096 div_mult_mod_eq)
text \<open>A continuation byte \<open>10xxxxxx\<close> carrying the six bits \<open>x\<close>.\<close>

lemma cont_byte:
  assumes "x < 64"
  shows "unat (of_nat (0x80 + x) :: byte) = 0x80 + x"
    and "unat ((of_nat (0x80 + x) :: byte) AND 0x3F) = x"
proof -
  show u: "unat (of_nat (0x80 + x) :: byte) = 0x80 + x"
    using assms by (intro unat_byte) linarith
  show "unat ((of_nat (0x80 + x) :: byte) AND 0x3F) = x"
    using unat_and_low [of "of_nat (0x80 + x)" 6] u add_mod_small [of 64 128 x] assms by simp
qed

lemma step_cont:
  assumes "bytes_needed st \<noteq> 0" "x < 64"
    "unat (lower_boundary st) \<le> 0x80 + x" "0x80 + x \<le> unat (upper_boundary st)"
  shows "utf8_handler st (of_nat (0x80 + x)) =
     (let st1 = st\<lparr>lower_boundary := 0x80, upper_boundary := 0xBF,
                   code_point := code_point st * 64 + x, bytes_seen := Suc (bytes_seen st)\<rparr>
      in if bytes_seen st1 \<noteq> bytes_needed st1 then (st1, [])
         else (st1\<lparr>code_point := 0, bytes_needed := 0, bytes_seen := 0\<rparr>, [code_point st1]))"
proof -
  have "\<not> (of_nat (0x80 + x) :: byte) < lower_boundary st"
    "\<not> upper_boundary st < (of_nat (0x80 + x) :: byte)"
    using assms cont_byte(1) [OF assms(2)] by (simp_all add: word_less_nat_alt)
  then show ?thesis
    using assms(1) cont_byte(2) [OF assms(2)] by (simp add: utf8_handler_def)
qed

subsection \<open>Decoding the bytes of one code point\<close>

lemma decode_1: "n < 0x80 \<Longrightarrow> utf8_run utf8_fresh (utf8_bytes n) = (utf8_fresh, [n])"
proof -
  assume n: "n < 0x80"
  then have "(of_nat n :: byte) \<le> 0x7F" "unat (of_nat n :: byte) = n"
    by (simp_all add: word_le_nat_alt unat_byte)
  with n show ?thesis
    by (simp add: utf8_bytes_def utf8_handler_def utf8_lead_def utf8_fresh_def)
qed

lemma decode_2:
  assumes "0x80 \<le> n" "n < 0x800"
  shows "utf8_run utf8_fresh (utf8_bytes n) = (utf8_fresh, [n])"
proof -
  have d1: "n div 64 < 32" using assms by (simp add: div_less_iff_less_mult)
  have d2: "2 \<le> n div 64" using div_le_mono [OF assms(1), of 64] by simp
  define b1 :: byte where "b1 = of_nat (0xC0 + n div 64)"
  have u1: "unat b1 = 0xC0 + n div 64"
    unfolding b1_def using d1 by (intro unat_byte) linarith
  have c1: "\<not> b1 \<le> 0x7F" "0xC2 \<le> b1" "b1 \<le> 0xDF"
    using d1 d2 by (simp_all add: word_le_nat_alt u1)
  have a1: "unat (b1 AND 0x1F) = n div 64"
    using unat_and_low [of b1 5] u1 d1 add_mod_small [of 32 192 "n div 64"] by simp
  have h1: "utf8_handler utf8_fresh b1 =
      (utf8_fresh\<lparr>bytes_needed := Suc 0, code_point := n div 64\<rparr>, [])"
    unfolding utf8_handler_def utf8_lead_def using c1 a1 by (simp add: utf8_fresh_def)
  have h2: "utf8_handler (utf8_fresh\<lparr>bytes_needed := Suc 0, code_point := n div 64\<rparr>)
      (of_nat (0x80 + n mod 64)) = (utf8_fresh, [n])"
    by (subst step_cont) (simp_all add: utf8_fresh_def)
  have "utf8_bytes n = [b1, of_nat (0x80 + n mod 64)]"
    using assms by (simp add: utf8_bytes_def b1_def del: of_nat_add)
  then show ?thesis by (simp add: h1 h2 del: of_nat_add)
qed

lemma decode_3:
  assumes "0x800 \<le> n" "n < 0x10000" "n < 0xD800 \<or> 0xE000 \<le> n"
  shows "utf8_run utf8_fresh (utf8_bytes n) = (utf8_fresh, [n])"
proof -
  define k where "k = n div 4096"
  define m where "m = n div 64 mod 64"
  have k: "k < 16" using assms(2) by (simp add: k_def div_less_iff_less_mult)
  have m: "m < 64" by (simp add: m_def)
  define b1 :: byte where "b1 = of_nat (0xE0 + k)"
  have u1: "unat b1 = 0xE0 + k"
    unfolding b1_def using k by (intro unat_byte) linarith
  have c1: "\<not> b1 \<le> 0x7F" "\<not> b1 \<le> 0xDF" "0xE0 \<le> b1" "b1 \<le> 0xEF"
    "(b1 = 0xE0) = (k = 0)" "(b1 = 0xED) = (k = 13)"
    using k by (simp_all add: word_le_nat_alt word_unat_eq_iff u1)
  have a1: "unat (b1 AND 0xF) = k"
    using unat_and_low [of b1 4] u1 k add_mod_small [of 16 224 k] by simp
  have h1: "utf8_handler utf8_fresh b1 =
      (utf8_fresh\<lparr>lower_boundary := (if k = 0 then 0xA0 else 0x80),
                  upper_boundary := (if k = 13 then 0x9F else 0xBF),
                  bytes_needed := 2, code_point := k\<rparr>, [])"
    unfolding utf8_handler_def utf8_lead_def using c1 a1 by (simp add: utf8_fresh_def)
  have lo: "unat (if k = 0 then 0xA0 else 0x80 :: byte) \<le> 0x80 + m"
    using lead3_low [OF assms(1)] by (simp add: k_def m_def)
  have "k = 13 \<Longrightarrow> n < 0xD800"
    using assms(3) div_less_iff_less_mult [of 4096 n 14] by (simp add: k_def)
  then have "k = 13 \<Longrightarrow> m < 32"
    using lead3_high [of n] by (simp add: k_def m_def)
  then have hi: "0x80 + m \<le> unat (if k = 13 then 0x9F else 0xBF :: byte)"
    using m by (cases "k = 13") simp_all
  have h2: "utf8_handler
      (utf8_fresh\<lparr>lower_boundary := (if k = 0 then 0xA0 else 0x80),
                  upper_boundary := (if k = 13 then 0x9F else 0xBF),
                  bytes_needed := 2, code_point := k\<rparr>) (of_nat (0x80 + m)) =
      (utf8_fresh\<lparr>bytes_needed := 2, code_point := k * 64 + m, bytes_seen := Suc 0\<rparr>, [])"
    using m lo hi by (subst step_cont) (simp_all add: utf8_fresh_def)
  have h3: "utf8_handler (utf8_fresh\<lparr>bytes_needed := 2, code_point := k * 64 + m, bytes_seen := Suc 0\<rparr>)
      (of_nat (0x80 + n mod 64)) = (utf8_fresh, [n])"
    using digits3 [of n] by (subst step_cont) (simp_all add: utf8_fresh_def k_def m_def)
  have "utf8_bytes n = [b1, of_nat (0x80 + m), of_nat (0x80 + n mod 64)]"
    using assms by (simp add: utf8_bytes_def b1_def k_def m_def del: of_nat_add)
  then show ?thesis by (simp add: h1 h2 h3 del: of_nat_add)
qed

lemma decode_4:
  assumes "0x10000 \<le> n" "n < 0x110000"
  shows "utf8_run utf8_fresh (utf8_bytes n) = (utf8_fresh, [n])"
proof -
  define k where "k = n div 262144"
  define p where "p = n div 4096 mod 64"
  define m where "m = n div 64 mod 64"
  have k: "k \<le> 4" using assms(2) div_less_iff_less_mult [of 262144 n 5] by (simp add: k_def)
  have p: "p < 64" and m: "m < 64" by (simp_all add: p_def m_def)
  define b1 :: byte where "b1 = of_nat (0xF0 + k)"
  have u1: "unat b1 = 0xF0 + k"
    unfolding b1_def using k by (intro unat_byte) linarith
  have c1: "\<not> b1 \<le> 0x7F" "\<not> b1 \<le> 0xDF" "\<not> b1 \<le> 0xEF" "0xF0 \<le> b1" "b1 \<le> 0xF4"
    "(b1 = 0xF0) = (k = 0)" "(b1 = 0xF4) = (k = 4)"
    using k by (simp_all add: word_le_nat_alt word_unat_eq_iff u1)
  have a1: "unat (b1 AND 0x7) = k"
    using unat_and_low [of b1 3] u1 k add_mod_small [of 8 240 k] by simp
  have h1: "utf8_handler utf8_fresh b1 =
      (utf8_fresh\<lparr>lower_boundary := (if k = 0 then 0x90 else 0x80),
                  upper_boundary := (if k = 4 then 0x8F else 0xBF),
                  bytes_needed := 3, code_point := k\<rparr>, [])"
    unfolding utf8_handler_def utf8_lead_def using c1 a1 by (simp add: utf8_fresh_def)
  have lo: "unat (if k = 0 then 0x90 else 0x80 :: byte) \<le> 0x80 + p"
    using lead4_low [OF assms(1)] by (simp add: k_def p_def)
  have "k = 4 \<Longrightarrow> p < 16"
    using lead4_high [of n] assms(2) by (simp add: k_def p_def)
  then have hi: "0x80 + p \<le> unat (if k = 4 then 0x8F else 0xBF :: byte)"
    using p by (cases "k = 4") simp_all
  have h2: "utf8_handler
      (utf8_fresh\<lparr>lower_boundary := (if k = 0 then 0x90 else 0x80),
                  upper_boundary := (if k = 4 then 0x8F else 0xBF),
                  bytes_needed := 3, code_point := k\<rparr>) (of_nat (0x80 + p)) =
      (utf8_fresh\<lparr>bytes_needed := 3, code_point := k * 64 + p, bytes_seen := Suc 0\<rparr>, [])"
    using p lo hi by (subst step_cont) (simp_all add: utf8_fresh_def)
  have h3: "utf8_handler (utf8_fresh\<lparr>bytes_needed := 3, code_point := k * 64 + p, bytes_seen := Suc 0\<rparr>)
      (of_nat (0x80 + m)) =
      (utf8_fresh\<lparr>bytes_needed := 3, code_point := (k * 64 + p) * 64 + m, bytes_seen := Suc (Suc 0)\<rparr>, [])"
    using m by (subst step_cont) (simp_all add: utf8_fresh_def)
  have h4: "utf8_handler
      (utf8_fresh\<lparr>bytes_needed := 3, code_point := (k * 64 + p) * 64 + m, bytes_seen := Suc (Suc 0)\<rparr>)
      (of_nat (0x80 + n mod 64)) = (utf8_fresh, [n])"
    using digits4 [of n] by (subst step_cont) (simp_all add: utf8_fresh_def k_def p_def m_def)
  have "utf8_bytes n = [b1, of_nat (0x80 + p), of_nat (0x80 + m), of_nat (0x80 + n mod 64)]"
    using assms by (simp add: utf8_bytes_def b1_def k_def p_def m_def del: of_nat_add)
  then show ?thesis by (simp only: utf8_run.simps h1 h2 h3 h4 Let_def prod.case append.simps)
qed

lemma decode_scalar:
  "scalar_value n \<Longrightarrow> utf8_run utf8_fresh (utf8_bytes n) = (utf8_fresh, [n])"
  unfolding scalar_value_def
  using decode_1 [of n] decode_2 [of n] decode_3 [of n] decode_4 [of n] by linarith

lemma utf8_run_encode:
  "\<forall>n \<in> set cps. scalar_value n \<Longrightarrow>
     utf8_run utf8_fresh (concat (map utf8_bytes cps)) = (utf8_fresh, cps)"
  by (induction cps) (simp_all add: utf8_run_append decode_scalar)

subsection \<open>Code points of a string\<close>

lemma is_lead_unat: "is_lead c \<longleftrightarrow> 0xD800 \<le> unat c \<and> unat c \<le> 0xDBFF"
  by (simp add: is_lead_def word_le_nat_alt)

lemma is_trail_unat: "is_trail c \<longleftrightarrow> 0xDC00 \<le> unat c \<and> unat c \<le> 0xDFFF"
  by (simp add: is_trail_def word_le_nat_alt)

lemma unat_cu: "unat (c :: cu) < 0x10000"
  using unsigned_less [of c] by simp

lemma scalar_unit: "\<not> is_lead c \<Longrightarrow> \<not> is_trail c \<Longrightarrow> scalar_value (unat c)"
  using unat_cu [of c] by (auto simp: scalar_value_def is_lead_unat is_trail_unat)

lemma pair_offsets:
  "is_lead c \<Longrightarrow> is_trail d \<Longrightarrow> unat c - 0xD800 < 0x400 \<and> unat d - 0xDC00 < 0x400"
  unfolding is_lead_unat is_trail_unat by linarith

lemma scalar_pair:
  assumes "is_lead c" "is_trail d"
  shows "scalar_value (0x10000 + (unat c - 0xD800) * 0x400 + (unat d - 0xDC00))"
proof -
  have "(unat c - 0xD800) * 0x400 \<le> 1023 * 0x400"
    using pair_offsets [OF assms] by (intro mult_le_mono1) linarith
  then show ?thesis
    using pair_offsets [OF assms] by (simp add: scalar_value_def)
qed

lemma scalar_fffd: "scalar_value 0xFFFD"
  by (simp add: scalar_value_def)

lemma code_points_scalar: "\<forall>n \<in> set (code_points s). scalar_value n"
  by (induction s rule: code_points.induct) (auto simp: scalar_unit scalar_pair scalar_fffd)

lemma utf16_unit: "\<not> is_lead c \<Longrightarrow> \<not> is_trail c \<Longrightarrow> utf16_encode (unat c) = [c]"
  using unat_cu [of c] by (simp add: utf16_encode_def)

lemma div_mod_1024: "(b :: nat) < 1024 \<Longrightarrow> (a * 1024 + b) div 1024 = a \<and> (a * 1024 + b) mod 1024 = b"
  by simp

lemma utf16_pair:
  assumes "is_lead c" "is_trail d"
  shows "utf16_encode (0x10000 + (unat c - 0xD800) * 0x400 + (unat d - 0xDC00)) = [c, d]"
proof -
  have c: "0xD800 \<le> unat c" and d: "0xDC00 \<le> unat d"
    using assms by (simp_all add: is_lead_unat is_trail_unat)
  have dm: "((unat c - 0xD800) * 1024 + (unat d - 0xDC00)) div 1024 = unat c - 0xD800"
    "((unat c - 0xD800) * 1024 + (unat d - 0xDC00)) mod 1024 = unat d - 0xDC00"
    using div_mod_1024 [of "unat d - 0xDC00" "unat c - 0xD800"] pair_offsets [OF assms] by simp_all
  have "0xD800 + (unat c - 0xD800) = unat c" "0xDC00 + (unat d - 0xDC00) = unat d"
    using c d by simp_all
  then show ?thesis
    using dm by (simp add: utf16_encode_def del: of_nat_add)
qed

lemma utf16_code_points: "wf_utf16 s \<Longrightarrow> concat (map utf16_encode (code_points s)) = s"
  by (induction s rule: code_points.induct) (auto simp: utf16_unit utf16_pair)

subsection \<open>Decoding inverts encoding\<close>

lemma decode_encode:
  "utf8_decode_no_bom (utf8_encode s) = concat (map utf16_encode (code_points s))"
  using utf8_run_encode [OF code_points_scalar [of s]]
  by (simp add: utf8_decode_no_bom_def utf8_encode_def utf8_fresh_def)

lemma percent_decode_id: "0x25 \<notin> set bs \<Longrightarrow> percent_decode bs = bs"
  by (induction bs rule: percent_decode.induct) auto

lemma upper_byte_not_percent: "0x80 \<le> c \<Longrightarrow> c + k < 256 \<Longrightarrow> (of_nat (c + k) :: byte) \<noteq> 0x25"
  using unat_byte [of "c + k"] by (auto simp: word_unat_eq_iff)

lemma utf8_bytes_no_percent:
  assumes "scalar_value n" "n \<noteq> 0x25"
  shows "0x25 \<notin> set (utf8_bytes n)"
proof -
  have cont: "(of_nat (0x80 + x mod 64) :: byte) \<noteq> 0x25" for x
  proof -
    have "0x80 + x mod 64 < (256 :: nat)" by simp
    moreover have "(0x80 :: nat) \<le> 0x80" by simp
    ultimately show ?thesis using upper_byte_not_percent [of "0x80" "x mod 64"] by blast
  qed
  have n: "n < 0x110000" using assms(1) by (simp add: scalar_value_def)
  consider (a) "n < 0x80" | (b) "0x80 \<le> n" "n < 0x800" | (c) "0x800 \<le> n" "n < 0x10000"
    | (d) "0x10000 \<le> n" by linarith
  then show ?thesis
  proof cases
    case a
    then show ?thesis using assms(2) unat_byte [of n] by (auto simp: utf8_bytes_def word_unat_eq_iff)
  next
    case b
    then have "n div 64 < 32" by (simp add: div_less_iff_less_mult)
    then show ?thesis
      using b cont upper_byte_not_percent [of "0xC0" "n div 64"] by (simp add: utf8_bytes_def del: of_nat_add)
  next
    case c
    then have "n div 4096 < 16" by (simp add: div_less_iff_less_mult)
    then show ?thesis
      using c cont upper_byte_not_percent [of "0xE0" "n div 4096"] by (simp add: utf8_bytes_def del: of_nat_add)
  next
    case d
    then have "n div 262144 < 5" using n by (simp add: div_less_iff_less_mult)
    then show ?thesis
      using d cont upper_byte_not_percent [of "0xF0" "n div 262144"] by (simp add: utf8_bytes_def del: of_nat_add)
  qed
qed

lemma code_points_percent: "0x25 \<in> set (code_points s) \<Longrightarrow> 0x25 \<in> set s"
proof (induction s rule: code_points.induct)
  case (2 c)
  then show ?case by (auto simp: word_unat_eq_iff split: if_splits)
next
  case (3 c d cs)
  then show ?case by (auto simp: word_unat_eq_iff split: if_splits)
qed simp

lemma utf8_encode_no_percent: "0x25 \<notin> set s \<Longrightarrow> 0x25 \<notin> set (utf8_encode s)"
  using code_points_percent [of s] code_points_scalar [of s] utf8_bytes_no_percent
  by (fastforce simp: utf8_encode_def)


subsection \<open>A segment reaches its handler unchanged\<close>

lemma percent_utf8_roundtrip:
  "wf_utf16 s \<Longrightarrow> 0x25 \<notin> set s \<Longrightarrow> utf8_decode_no_bom (percent_decode (utf8_encode s)) = s"
  by (simp add: percent_decode_id utf8_encode_no_percent decode_encode utf16_code_points)

lemma ascii_wf_utf16: "\<forall>c \<in> set s. c < 0x80 \<Longrightarrow> wf_utf16 s"
  by (induction s rule: wf_utf16.induct) (auto simp: is_lead_def is_trail_def word_le_nat_alt word_less_nat_alt)

subsection \<open>Percent-encoded query values\<close>

lemma hex_digit_props:
  assumes "n < 16"
  shows "hex_byte (hex_digit n) = Some n \<and> hex_digit n \<notin> {0x25, 0x26, 0x2B, 0x3D}"
proof -
  have "n \<in> set [0..<16]" using assms by simp
  then show ?thesis by (simp add: upt_rec hex_digit_def hex_byte_def) (elim disjE; simp)
qed

lemma percent_decode_pct_encode [simp]: "percent_decode (pct_encode bs) = bs"
proof (induction bs)
  case (Cons b bs)
  have u: "unat b < 2 ^ LENGTH(8)" by (rule unsigned_less)
  have "unat b div 16 < 16" "unat b mod 16 < 16"
    using u by simp_all
  then have "hex_byte (hex_digit (unat b div 16)) = Some (unat b div 16)"
    "hex_byte (hex_digit (unat b mod 16)) = Some (unat b mod 16)"
    using hex_digit_props by blast+
  moreover have "(word_of_nat (unat b div 16 * 16 + unat b mod 16) :: byte) = b"
    by simp
  ultimately show ?case using Cons by (simp add: pct_encode_def)
qed (simp add: pct_encode_def)

lemma unat_byte_div16: "unat (b :: byte) div 16 < 16 \<and> unat b mod 16 < 16"
proof -
  have u: "unat b < 2 ^ LENGTH(8)" by (rule unsigned_less)
  then show ?thesis by simp
qed

lemma pct_encode_Cons [simp]:
  "pct_encode (b # bs) = [0x25, hex_digit (unat b div 16), hex_digit (unat b mod 16)] @ pct_encode bs"
  by (simp add: pct_encode_def)

lemma pct_encode_chars: "\<forall>c \<in> set (pct_encode bs). c \<notin> {0x26, 0x2B, 0x3D}"
proof (induction bs)
  case (Cons b bs)
  then show ?case
    using hex_digit_props [of "unat b div 16"] hex_digit_props [of "unat b mod 16"] unat_byte_div16 [of b]
    by simp
qed (simp add: pct_encode_def)

lemma plus_to_space_pct_encode [simp]: "plus_to_space (pct_encode bs) = pct_encode bs"
  using pct_encode_chars [of bs] by (auto simp: plus_to_space_def intro: map_idI)

lemma search_get_pct_encode:
  assumes "wf_utf16 l"
  shows "search_get (bytes ''limit='' @ pct_encode (utf8_encode l)) (js ''limit'') = Some l"
proof -
  define q where "q = bytes ''limit='' @ pct_encode (utf8_encode l)"
  have "0x26 \<notin> set q"
    using pct_encode_chars [of "utf8_encode l"] by (auto simp: q_def)
  then have "\<not> sublist [0x26] q"
    by (auto simp: sublist_def)
  then have "js_split q [0x26] = [q]"
    by (simp add: js_split_def split_from_None index_of_None_iff)
  moreover have "index_of [0x3D] q = Some 5"
    by (simp add: q_def)
  moreover have "utf8_decode_no_bom (utf8_encode l) = l"
    by (simp add: decode_encode utf16_code_points assms)
  moreover have "utf8_decode_no_bom (percent_decode (plus_to_space (bytes ''limit''))) = js ''limit''"
    by (simp add: model_defs)
  ultimately show ?thesis
    by (simp add: search_get_def urlencoded_parse_def parse_pair_def q_def)
qed

end
