(* ===== verification/AdminApi.thy ===== *)
theory AdminApi
  imports Json UrlEncoding
begin

text \<open>
  \<open>lib/admin-api.ts\<close> and the admin API routes under \<open>app/api/admin\<close>.
  \<open>admin_fetch\<close> is \<open>adminFetch\<close>: the base URL and the key come from the
  environment (\<open>env\<close>), the key is checked before anything is sent, the
  headers get \<open>X-Admin-Key\<close> and, for a request with a body and no content type,
  \<open>Content-Type: application/json\<close>; an unsuccessful status throws. The network
  is a function \<open>send\<close> from the request to a response or a failure. Each route
  handler builds a backend path from its URL parameters and query, calls
  \<open>adminFetch\<close>, and answers with \<open>Response.json(await res.json())\<close>: the
  backend's JSON parsed and printed again.
\<close>

record env =
  api_base_url :: "jstr option"
  admin_api_key :: "jstr option"

text \<open>Header lists keep lower-cased names (names compare case-insensitively).\<close>

type_synonym headers = "(jstr \<times> jstr) list"

record request_init =
  init_method :: "jstr option"
  init_body :: "jstr option"
  init_headers :: headers

record http_request =
  req_url :: jstr
  req_method :: "jstr option"
  req_headers :: headers
  req_body :: "jstr option"
  req_no_store :: bool

record response =
  status :: nat
  resp_text :: jstr

datatype net = Answer response | Unreachable

definition no_init :: request_init where
  "no_init = \<lparr>init_method = None, init_body = None, init_headers = []\<rparr>"

subsection \<open>Headers\<close>

definition lower_cu :: "cu \<Rightarrow> cu" where
  "lower_cu c = (if 0x41 \<le> c \<and> c \<le> 0x5A then c + 0x20 else c)"

text \<open>\<open>headers.get(name)\<close>: the values of all headers with that name joined by \<open>, \<close>.\<close>

definition header_get :: "headers \<Rightarrow> jstr \<Rightarrow> jstr option" where
  "header_get h name =
     (let vs = map snd (filter (\<lambda>(n, v). n = map lower_cu name) h)
      in if vs = [] then None else Some (js_join vs (js '', '')))"

definition http_ws :: "cu \<Rightarrow> bool" where
  "http_ws c \<longleftrightarrow> c = 0x09 \<or> c = 0x0A \<or> c = 0x0D \<or> c = 0x20"

text \<open>
  \<open>headers.set(name, value)\<close>: the value is converted to a byte string (a code
  unit above 0xFF throws a \<open>TypeError\<close>), stripped of leading and trailing HTTP
  whitespace, and must then hold no NUL, CR or LF (else \<open>TypeError\<close>); the first
  header of that name takes the value and the others are removed, or the header
  is appended.
\<close>

definition header_set :: "headers \<Rightarrow> jstr \<Rightarrow> jstr \<Rightarrow> js_error + headers" where
  "header_set h name value =
     (let n = map lower_cu name;
          v = rev (dropWhile http_ws (rev (dropWhile http_ws value)))
      in if (\<exists>c \<in> set value. 0xFF < c) \<or> (\<exists>c \<in> set v. c = 0 \<or> c = 0x0A \<or> c = 0x0D)
         then Inl TypeError
         else if n \<in> set (map fst h)
         then Inr (let i = length (takeWhile (\<lambda>(n', _). n' \<noteq> n) h)
                   in take i h @ (n, v) # filter (\<lambda>(n', _). n' \<noteq> n) (drop (Suc i) h))
         else Inr (h @ [(n, v)]))"

subsection \<open>\<open>adminFetch\<close>\<close>

definition default_base :: jstr where
  "default_base = js ''http://localhost:8000''"

text \<open>\<open>x || d\<close> for a string or \<open>undefined\<close>/\<open>null\<close>.\<close>

definition js_or :: "jstr option \<Rightarrow> jstr \<Rightarrow> jstr" where
  "js_or x d = (case x of None \<Rightarrow> d | Some s \<Rightarrow> if s = [] then d else s)"

definition status_str :: "nat \<Rightarrow> jstr" where
  "status_str n = map dec_char (dec_digits n)"

definition admin_fetch ::
  "env \<Rightarrow> jstr \<Rightarrow> request_init \<Rightarrow> (http_request \<Rightarrow> net) \<Rightarrow> js_error + http_request \<times> response" where
  "admin_fetch e path init send =
     (let base = js_or (api_base_url e) default_base
      in case admin_api_key e of
           None \<Rightarrow> Inl (Error (js ''Missing ADMIN_API_KEY''))
         | Some key \<Rightarrow>
             if key = [] then Inl (Error (js ''Missing ADMIN_API_KEY''))
             else case header_set (init_headers init) (js ''X-Admin-Key'') key of
               Inl err \<Rightarrow> Inl err
             | Inr h1 \<Rightarrow>
                 (case (if js_or (header_get h1 (js ''Content-Type'')) [] = [] \<and>
                           js_or (init_body init) [] \<noteq> []
                        then header_set h1 (js ''Content-Type'') (js ''application/json'')
                        else Inr h1) of
                    Inl err \<Rightarrow> Inl err
                  | Inr h2 \<Rightarrow>
                      let rq = \<lparr>req_url = base @ path, req_method = init_method init,
                                req_headers = h2, req_body = init_body init, req_no_store = True\<rparr>
                      in case send rq of
                           Unreachable \<Rightarrow> Inl NetworkError
                         | Answer r \<Rightarrow>
                             if 200 \<le> status r \<and> status r \<le> 299 then Inr (rq, r)
                             else Inl (Error (js_or (Some (resp_text r))
                                               (js ''Admin API failed: '' @ status_str (status r))))))"

subsection \<open>The route handlers\<close>

text \<open>\<open>Response.json(await res.json())\<close> after \<open>adminFetch\<close>: the body, parsed and printed.\<close>

definition forward ::
  "env \<Rightarrow> jstr \<Rightarrow> request_init \<Rightarrow> (http_request \<Rightarrow> net) \<Rightarrow> js_error + jstr" where
  "forward e path init send =
     (case admin_fetch e path init send of
        Inl err \<Rightarrow> Inl err
      | Inr (_, r) \<Rightarrow> (case json_parse (resp_text r) of Inl err \<Rightarrow> Inl err | Inr v \<Rightarrow> Inr (stringify v)))"

text \<open>\<open>`${x}`\<close> for a string or \<open>null\<close>.\<close>

definition template :: "jstr option \<Rightarrow> jstr" where
  "template x = (case x of None \<Rightarrow> js ''null'' | Some s \<Rightarrow> s)"

definition post_init :: "jstr \<Rightarrow> jstr \<Rightarrow> request_init" where
  "post_init m body = \<lparr>init_method = Some m, init_body = Some body, init_headers = []\<rparr>"

text \<open>\<open>app/api/admin/labels/route.ts\<close>\<close>

definition labels_GET :: "env \<Rightarrow> byte list \<Rightarrow> (http_request \<Rightarrow> net) \<Rightarrow> js_error + jstr" where
  "labels_GET e q send =
     (let assessment_id = search_get q (js ''assessment_id'')
      in forward e (js ''/admin/labels?assessment_id='' @ template assessment_id) no_init send)"

definition labels_POST :: "env \<Rightarrow> jstr \<Rightarrow> (http_request \<Rightarrow> net) \<Rightarrow> js_error + jstr" where
  "labels_POST e body send = forward e (js ''/admin/labels'') (post_init (js ''POST'') body) send"

text \<open>\<open>app/api/admin/labels/recent/route.ts\<close>\<close>

definition labels_recent_GET :: "env \<Rightarrow> byte list \<Rightarrow> (http_request \<Rightarrow> net) \<Rightarrow> js_error + jstr" where
  "labels_recent_GET e q send =
     (let limit = js_or (search_get q (js ''limit'')) (js ''20'')
      in forward e (js ''/admin/labels/recent?limit='' @ limit) no_init send)"

text \<open>\<open>app/api/admin/assessments/[id]/compare/route.ts\<close>\<close>

definition compare_GET :: "env \<Rightarrow> jstr \<Rightarrow> byte list \<Rightarrow> (http_request \<Rightarrow> net) \<Rightarrow> js_error + jstr" where
  "compare_GET e params_id q send =
     (let models = js_or (search_get q (js ''models'')) (js ''v0,v1'');
          experimentId = search_get q (js ''experiment_id'');
          suffix = (if js_or experimentId [] \<noteq> [] then js ''&experiment_id='' @ template experimentId
                    else [])
      in forward e (js ''/admin/assessments/'' @ params_id @ js ''/compare?models='' @ models @ suffix)
           no_init send)"

text \<open>\<open>app/api/admin/experiments/route.ts\<close>\<close>

definition experiments_GET :: "env \<Rightarrow> (http_request \<Rightarrow> net) \<Rightarrow> js_error + jstr" where
  "experiments_GET e send = forward e (js ''/admin/experiments'') no_init send"

definition experiments_POST :: "env \<Rightarrow> jstr \<Rightarrow> (http_request \<Rightarrow> net) \<Rightarrow> js_error + jstr" where
  "experiments_POST e body send = forward e (js ''/admin/experiments'') (post_init (js ''POST'') body) send"

text \<open>\<open>app/api/admin/experiments/[id]/route.ts\<close>\<close>

definition experiment_PATCH :: "env \<Rightarrow> jstr \<Rightarrow> jstr \<Rightarrow> (http_request \<Rightarrow> net) \<Rightarrow> js_error + jstr" where
  "experiment_PATCH e params_id body send =
     forward e (js ''/admin/experiments/'' @ params_id) (post_init (js ''PATCH'') body) send"

text \<open>\<open>app/api/admin/experiments/[id]/metrics/route.ts\<close>\<close>

definition metrics_GET :: "env \<Rightarrow> jstr \<Rightarrow> (http_request \<Rightarrow> net) \<Rightarrow> js_error + jstr" where
  "metrics_GET e params_id send = forward e (js ''/admin/experiments/'' @ params_id @ js ''/metrics'') no_init send"

text \<open>\<open>app/api/admin/experiments/[id]/runs/route.ts\<close>\<close>

definition runs_GET :: "env \<Rightarrow> jstr \<Rightarrow> byte list \<Rightarrow> (http_request \<Rightarrow> net) \<Rightarrow> js_error + jstr" where
  "runs_GET e params_id q send =
     (let limit = js_or (search_get q (js ''limit'')) (js ''20'')
      in forward e (js ''/admin/experiments/'' @ params_id @ js ''/runs?limit='' @ limit) no_init send)"

declare no_init_def [model_defs] lower_cu_def [model_defs] header_get_def [model_defs]
  http_ws_def [model_defs] header_set_def [model_defs] default_base_def [model_defs]
  js_or_def [model_defs] status_str_def [model_defs] admin_fetch_def [model_defs]
  forward_def [model_defs] template_def [model_defs] post_init_def [model_defs]
  labels_GET_def [model_defs] labels_POST_def [model_defs] labels_recent_GET_def [model_defs]
  compare_GET_def [model_defs] experiments_GET_def [model_defs]
  experiments_POST_def [model_defs] experiment_PATCH_def [model_defs]
  metrics_GET_def [model_defs] runs_GET_def [model_defs]

subsection \<open>Properties of \<open>adminFetch\<close>\<close>

lemma dropWhile_http_ws_id:
  "\<forall>c \<in> set v. 0x21 \<le> c \<and> c \<le> 0x7E \<Longrightarrow> dropWhile http_ws v = v"
  by (cases v) (auto simp: http_ws_def)

lemma header_set_visible:
  assumes "\<forall>c \<in> set v. 0x21 \<le> c \<and> c \<le> 0x7E" "map lower_cu name \<notin> set (map fst h)"
  shows "header_set h name v = Inr (h @ [(map lower_cu name, v)])"
proof -
  have "dropWhile http_ws (rev v) = rev v"
    using assms(1) by (intro dropWhile_http_ws_id) simp
  moreover have "\<not> (\<exists>c \<in> set v. 0xFF < c)"
    using assms(1) by (force simp: word_le_nat_alt word_less_nat_alt)
  moreover have "\<not> (\<exists>c \<in> set v. c = 0 \<or> c = 0x0A \<or> c = 0x0D)"
    using assms(1) by (force simp: word_le_nat_alt word_less_nat_alt)
  ultimately show ?thesis
    using assms by (simp add: header_set_def dropWhile_http_ws_id Let_def)
qed

text \<open>
  C12. Without an admin key (unset or empty), \<open>adminFetch\<close> throws
  \<open>Missing ADMIN_API_KEY\<close> before it sends anything: the result does not depend
  on the network.
\<close>

theorem admin_fetch_requires_key:
  "js_or (admin_api_key e) [] = [] \<Longrightarrow>
   admin_fetch e path init send = Inl (Error (js ''Missing ADMIN_API_KEY''))"
  by (auto simp: admin_fetch_def js_or_def split: option.split if_splits)

theorem admin_fetch_requires_key_witness:
  "admin_fetch \<lparr>api_base_url = None, admin_api_key = Some []\<rparr> (js ''/admin/experiments'') no_init
     (\<lambda>_. Unreachable) = Inl (Error (js ''Missing ADMIN_API_KEY''))"
proof -
  have h: "js_or (admin_api_key \<lparr>api_base_url = None, admin_api_key = Some []\<rparr>) [] = []"
    by (simp add: js_or_def)
  show ?thesis by (rule admin_fetch_requires_key [OF h])
qed

lemma admin_fetch_valid_key:
  assumes "admin_api_key e = Some key" "key \<noteq> []" "\<forall>c \<in> set key. 0x21 \<le> c \<and> c \<le> 0x7E"
    "init_headers init = []"
  shows "admin_fetch e path init send =
     (let rq = \<lparr>req_url = js_or (api_base_url e) (js ''http://localhost:8000'') @ path,
                req_method = init_method init,
                req_headers = [(js ''x-admin-key'', key)] @
                  (if js_or (init_body init) [] \<noteq> [] then [(js ''content-type'', js ''application/json'')]
                   else []),
                req_body = init_body init, req_no_store = True\<rparr>
      in case send rq of
           Unreachable \<Rightarrow> Inl NetworkError
         | Answer r \<Rightarrow>
             if 200 \<le> status r \<and> status r \<le> 299 then Inr (rq, r)
             else Inl (Error (js_or (Some (resp_text r)) (js ''Admin API failed: '' @ status_str (status r)))))"
proof -
  have k: "header_set [] (js ''X-Admin-Key'') key = Inr [(js ''x-admin-key'', key)]"
    using header_set_visible [OF assms(3), of "js ''X-Admin-Key''" "[]"] by (simp add: lower_cu_def)
  have ct: "header_set [(js ''x-admin-key'', key)] (js ''Content-Type'') (js ''application/json'') =
      Inr [(js ''x-admin-key'', key), (js ''content-type'', js ''application/json'')]"
    by (simp add: header_set_def lower_cu_def http_ws_def)
  have g: "header_get [(js ''x-admin-key'', key)] (js ''Content-Type'') = None"
    by (simp add: header_get_def lower_cu_def)
  show ?thesis
    using assms
    by (simp add: admin_fetch_def k [simplified] ct [simplified] g [simplified] default_base_def
        js_or_def Let_def split: net.split)
qed

text \<open>
  C13. With a key of visible ASCII characters and no headers of its own,
  \<open>adminFetch\<close> sends exactly one request: to the base URL (or
  \<open>http://localhost:8000\<close> when unset or empty) followed by the path, with the
  method and body of \<open>init\<close>, the header \<open>x-admin-key\<close>, the header
  \<open>content-type: application/json\<close> exactly when the body is a non-empty string,
  and \<open>cache: 'no-store'\<close>; a 2xx answer is returned, a network failure throws.
\<close>

theorem admin_fetch_request:
  assumes "admin_api_key e = Some key" "key \<noteq> []" "\<forall>c \<in> set key. 0x21 \<le> c \<and> c \<le> 0x7E"
    "init_headers init = []"
  shows "admin_fetch e path init send =
     (let rq = \<lparr>req_url = js_or (api_base_url e) (js ''http://localhost:8000'') @ path,
                req_method = init_method init,
                req_headers = [(js ''x-admin-key'', key)] @
                  (if js_or (init_body init) [] \<noteq> [] then [(js ''content-type'', js ''application/json'')]
                   else []),
                req_body = init_body init, req_no_store = True\<rparr>
      in case send rq of
           Unreachable \<Rightarrow> Inl NetworkError
         | Answer r \<Rightarrow>
             if 200 \<le> status r \<and> status r \<le> 299 then Inr (rq, r)
             else Inl (Error (js_or (Some (resp_text r)) (js ''Admin API failed: '' @ status_str (status r)))))"
  using assms by (rule admin_fetch_valid_key)

theorem admin_fetch_request_witness:
  "admin_fetch \<lparr>api_base_url = None, admin_api_key = Some (js ''k'')\<rparr> (js ''/admin/labels'') (post_init (js ''POST'') (js ''{}''))
     (\<lambda>_. Answer \<lparr>status = 200, resp_text = js ''[]''\<rparr>) =
   Inr (\<lparr>req_url = js ''http://localhost:8000/admin/labels'', req_method = Some (js ''POST''),
         req_headers = [(js ''x-admin-key'', js ''k''), (js ''content-type'', js ''application/json'')],
         req_body = Some (js ''{}''), req_no_store = True\<rparr>,
        \<lparr>status = 200, resp_text = js ''[]''\<rparr>)"
proof -
  have a: "admin_api_key \<lparr>api_base_url = None, admin_api_key = Some (js ''k'')\<rparr> = Some (js ''k'')"
    and b: "js ''k'' \<noteq> []" and c: "\<forall>c \<in> set (js ''k''). 0x21 \<le> c \<and> c \<le> 0x7E"
    and d: "init_headers (post_init (js ''POST'') (js ''{}'')) = []"
    by (simp_all add: post_init_def)
  show ?thesis
    using admin_fetch_request [OF a b c d, of "js ''/admin/labels''"
        "\<lambda>_. Answer \<lparr>status = 200, resp_text = js ''[]''\<rparr>"]
    by (simp add: post_init_def js_or_def)
qed

text \<open>
  C14. A response outside 2xx makes \<open>adminFetch\<close> throw an \<open>Error\<close> whose
  message is the response text, or \<open>Admin API failed: <status>\<close> when the text
  is empty.
\<close>

theorem admin_fetch_error_status:
  assumes "admin_api_key e = Some key" "key \<noteq> []" "\<forall>c \<in> set key. 0x21 \<le> c \<and> c \<le> 0x7E"
    "init_headers init = []" "\<not> (200 \<le> status r \<and> status r \<le> 299)"
  shows "admin_fetch e path init (\<lambda>_. Answer r) =
     Inl (Error (if resp_text r = [] then js ''Admin API failed: '' @ status_str (status r)
                 else resp_text r))"
  using admin_fetch_valid_key [OF assms(1-4), of path "\<lambda>_. Answer r"] assms(5)
  by (simp add: js_or_def Let_def)

theorem admin_fetch_error_status_witness:
  "admin_fetch \<lparr>api_base_url = None, admin_api_key = Some (js ''k'')\<rparr> (js ''/admin/experiments'')
     no_init (\<lambda>_. Answer \<lparr>status = 503, resp_text = []\<rparr>) =
   Inl (Error (js ''Admin API failed: 503''))"
proof -
  have a: "admin_api_key \<lparr>api_base_url = None, admin_api_key = Some (js ''k'')\<rparr> = Some (js ''k'')"
    and b: "js ''k'' \<noteq> []" and c: "\<forall>c \<in> set (js ''k''). 0x21 \<le> c \<and> c \<le> 0x7E"
    and d: "init_headers no_init = []"
    and f: "\<not> (200 \<le> status \<lparr>status = 503, resp_text = []\<rparr> \<and>
              status \<lparr>status = 503, resp_text = []\<rparr> \<le> 299)"
    by (simp_all add: no_init_def)
  show ?thesis
    using admin_fetch_error_status [OF a b c d f, of "js ''/admin/experiments''"]
    by (simp add: status_str_def dec_digits.simps dec_char_def)
qed

subsection \<open>Properties of the routes\<close>

text \<open>
  C15. \<open>GET /api/admin/labels\<close> without an \<open>assessment_id\<close> parameter asks the
  backend for \<open>/admin/labels?assessment_id=null\<close>: \<open>searchParams.get\<close> returns
  \<open>null\<close> and the template literal prints it.
\<close>

theorem labels_GET_missing_id:
  "search_get q (js ''assessment_id'') = None \<Longrightarrow>
   labels_GET e q send = forward e (js ''/admin/labels?assessment_id=null'') no_init send"
  by (simp add: labels_GET_def template_def)

theorem labels_GET_missing_id_witness:
  "labels_GET \<lparr>api_base_url = None, admin_api_key = Some (js ''k'')\<rparr> (bytes ''rater=admin'') (\<lambda>_. Unreachable) =
   forward \<lparr>api_base_url = None, admin_api_key = Some (js ''k'')\<rparr> (js ''/admin/labels?assessment_id=null'') no_init (\<lambda>_. Unreachable)"
proof -
  have h: "search_get (bytes ''rater=admin'') (js ''assessment_id'') = None"
    by (simp add: model_defs split_from.simps)
  show ?thesis by (rule labels_GET_missing_id [OF h])
qed

text \<open>
  C16. \<open>GET /api/admin/experiments/[id]/runs\<close> forwards the decoded \<open>limit\<close>
  value verbatim into the backend query, without encoding it again: for every
  non-empty value \<open>l\<close> the client sends percent-encoded, the backend path ends
  in \<open>?limit=\<close> followed by \<open>l\<close> itself, so an \<open>&\<close>, \<open>=\<close> or \<open>#\<close> in
  \<open>l\<close> changes the backend's query (\<open>5&admin=1\<close> adds a parameter \<open>admin\<close>).
\<close>

theorem runs_GET_forwards_limit:
  "wf_utf16 l \<Longrightarrow> l \<noteq> [] \<Longrightarrow>
   runs_GET e pid (bytes ''limit='' @ pct_encode (utf8_encode l)) send =
     forward e (js ''/admin/experiments/'' @ pid @ js ''/runs?limit='' @ l) no_init send"
  using search_get_pct_encode [of l] by (simp add: runs_GET_def js_or_def)

theorem runs_GET_forwards_limit_witness:
  "runs_GET \<lparr>api_base_url = None, admin_api_key = Some (js ''k'')\<rparr> (js ''3'')
     (bytes ''limit='' @ pct_encode (utf8_encode (js ''5&admin=1''))) (\<lambda>_. Unreachable) =
   forward \<lparr>api_base_url = None, admin_api_key = Some (js ''k'')\<rparr>
     (js ''/admin/experiments/3/runs?limit=5&admin=1'') no_init (\<lambda>_. Unreachable)"
proof -
  have "wf_utf16 (js ''5&admin=1'')" by (rule ascii_wf_utf16) simp
  then show ?thesis
    using runs_GET_forwards_limit [of "js ''5&admin=1''" "\<lparr>api_base_url = None, admin_api_key = Some (js ''k'')\<rparr>"
        "js ''3''" "\<lambda>_. Unreachable"]
    by simp
qed

end
