(* ===== verification/NextConfig.thy ===== *)
theory NextConfig
  imports AdminApi
begin

text \<open>
  \<open>next.config.js\<close>: the rewrite of \<open>/api/py/:path*\<close> to the backend. The
  destination is computed from the same variable \<open>adminFetch\<close> reads,
  \<open>NEXT_PUBLIC_API_BASE_URL\<close> with the same default, so the pages that call
  \<open>/api/py/...\<close> (the agent console, the evaluation form, the dashboard) and the
  admin routes reach one backend. \<open>:path*\<close> matches zero or more segments; the
  matched rest of the path is appended after a slash.
\<close>

definition py_rewrite :: "env \<Rightarrow> jstr \<Rightarrow> jstr option" where
  "py_rewrite e p =
     (let base = js_or (api_base_url e) default_base
      in if prefix (js ''/api/py/'') p then Some (base @ [0x2F] @ drop 8 p)
         else if p = js ''/api/py'' then Some (base @ [0x2F])
         else None)"

declare py_rewrite_def [model_defs]

end
