(* ===== verification/EvaluatePages.thy ===== *)
theory EvaluatePages
  imports AgentConsole NextConfig JsValues
begin

text \<open>
  The evaluation form (\<open>app/evaluate/page.tsx\<close>) and the dashboard
  (\<open>app/dashboard/page.tsx\<close>). They share the browser's \<open>localStorage\<close> with the
  agent console: the form stores the assessment the backend returns under the
  key \<open>assessment\<close>, the dashboard and the agent console read it back. A page
  handler is a function of the page state, the storage and the network
  (\<open>send\<close>, from the request to an answer or a failure), returning the new state
  and how the handler's promise settled, as \<open>generate\<close> does.
\<close>

type_synonym storage = "jstr \<Rightarrow> jstr option"

definition assessment_key :: jstr where
  "assessment_key = js ''assessment''"

text \<open>A \<open>fetch\<close> from a page with a JSON body: \<open>{method, headers: {'Content-Type': 'application/json'}, body}\<close>.\<close>

definition json_request :: "jstr \<Rightarrow> jstr \<Rightarrow> jstr \<Rightarrow> http_request" where
  "json_request m url body =
     \<lparr>req_url = url, req_method = Some m,
      req_headers = [(js ''content-type'', js ''application/json'')],
      req_body = Some body, req_no_store = False\<rparr>"

definition get_request :: "jstr \<Rightarrow> http_request" where
  "get_request url =
     \<lparr>req_url = url, req_method = None, req_headers = [], req_body = None, req_no_store = False\<rparr>"

text \<open>\<open>await (await fetch(rq)).json()\<close>: the body parsed whatever the status.\<close>

definition fetch_json :: "(http_request \<Rightarrow> net) \<Rightarrow> http_request \<Rightarrow> js_error + json" where
  "fetch_json send rq =
     (case send rq of Unreachable \<Rightarrow> Inl NetworkError | Answer r \<Rightarrow> json_parse (resp_text r))"

subsection \<open>The evaluation form\<close>

record eval_page =
  occupation_code :: jstr
  occupation_title :: jstr
  skills :: jstr
  prefs :: jstr
  loading :: bool

definition eval_init :: eval_page where
  "eval_init =
     \<lparr>occupation_code = js ''15-1252.00'', occupation_title = js ''Software Developer'',
      skills = js ''python,sql,communication'', prefs = js ''creative,client communication'',
      loading = False\<rparr>"

text \<open>\<open>s.split(',').map((s) => s.trim())\<close>\<close>

definition split_trim :: "jstr \<Rightarrow> jstr list" where
  "split_trim s = map js_trim (js_split s [0x2C])"

definition eval_body :: "eval_page \<Rightarrow> jstr \<Rightarrow> jstr" where
  "eval_body p sid =
     stringify (JObj
       [(js ''occupation_code'', JStr (occupation_code p)),
        (js ''occupation_title'', JStr (occupation_title p)),
        (js ''session_id'', JStr sid),
        (js ''user_inputs'', JObj
           [(js ''skills'', JArr (map JStr (split_trim (skills p)))),
            (js ''tasks_preference'', JArr (map JStr (split_trim (prefs p))))])])"

text \<open>
  \<open>run\<close>: set \<open>loading\<close>, post the form with a fresh session id \<open>sid\<close>
  (\<open>crypto.randomUUID()\<close>), parse the answer whatever its status, store it
  and navigate to the dashboard. Nothing resets \<open>loading\<close>.
\<close>

definition eval_run ::
  "eval_page \<Rightarrow> storage \<Rightarrow> jstr \<Rightarrow> (http_request \<Rightarrow> net) \<Rightarrow>
   eval_page \<times> storage \<times> jstr option \<times> outcome" where
  "eval_run p st sid send =
     (let p1 = p\<lparr>loading := True\<rparr>
      in case fetch_json send (json_request (js ''POST'') (js ''/api/py/risk/evaluate'') (eval_body p sid)) of
           Inl e \<Rightarrow> (p1, st, None, Rejected e)
         | Inr v \<Rightarrow> (p1, st(assessment_key \<mapsto> stringify v), Some (js ''/dashboard''), Resolved))"

text \<open>
  The inputs' \<open>onChange\<close> handlers, \<open>setOccupationCode(e.target.value)\<close> and
  the three others, and the label of the submit button.
\<close>

datatype eval_field = Occupation_Code | Occupation_Title | Skills_Field | Prefs_Field

definition eval_edit :: "eval_page \<Rightarrow> eval_field \<Rightarrow> jstr \<Rightarrow> eval_page" where
  "eval_edit p f v =
     (case f of
        Occupation_Code \<Rightarrow> p\<lparr>occupation_code := v\<rparr>
      | Occupation_Title \<Rightarrow> p\<lparr>occupation_title := v\<rparr>
      | Skills_Field \<Rightarrow> p\<lparr>skills := v\<rparr>
      | Prefs_Field \<Rightarrow> p\<lparr>prefs := v\<rparr>)"

text \<open>\<open>{loading ? '...' : '...'}\<close>: U+8BC4 U+4F30 U+4E2D and three dots, or U+751F U+6210 U+98CE U+9669 U+8BC4 U+4F30.\<close>

definition eval_button :: "eval_page \<Rightarrow> jstr" where
  "eval_button p =
     (if loading p then [0x8BC4, 0x4F30, 0x4E2D, 0x2E, 0x2E, 0x2E]
      else [0x751F, 0x6210, 0x98CE, 0x9669, 0x8BC4, 0x4F30])"

text \<open>
  The form as a state machine: a configuration is the page state, the storage and
  the number of evaluation requests sent. An input may be edited at any time; the
  button, \<open>disabled={loading}\<close>, runs \<open>run\<close> only while \<open>loading\<close> is false,
  with any network and session id.
\<close>

type_synonym eval_conf = "eval_page \<times> storage \<times> nat"

inductive eval_step :: "eval_conf \<Rightarrow> eval_conf \<Rightarrow> bool" where
  edit: "eval_step (p, st, n) (eval_edit p f v, st, n)"
| submit: "\<not> loading p \<Longrightarrow> eval_run p st sid send = (p', st', nav, out) \<Longrightarrow>
    eval_step (p, st, n) (p', st', Suc n)"

subsection \<open>The dashboard\<close>

text \<open>
  \<open>type Assessment = { score:number; summary:string; breakdown:{factor:string;
  weight:number;value:number;explanation:string}[]; suggested_focus:string[];
  assessment_id?:number }\<close>
\<close>

definition assessment_type :: ts_type where
  "assessment_type =
     TObject [(js ''score'', False, TNumber), (js ''summary'', False, TString),
              (js ''breakdown'', False,
                 TArray (TObject [(js ''factor'', False, TString), (js ''weight'', False, TNumber),
                                  (js ''value'', False, TNumber), (js ''explanation'', False, TString)])),
              (js ''suggested_focus'', False, TArray TString),
              (js ''assessment_id'', True, TNumber)]"

record dash =
  assessment :: jsval
  tools :: jsval

definition dash_init :: dash where
  "dash_init = \<lparr>assessment = Val JNull, tools = Val (JArr [])\<rparr>"

definition tools_body :: jstr where
  "tools_body = stringify (JObj [(js ''query'', JStr (js ''ai productivity for software developer'')),
                                 (js ''top_k'', JNum 6 0)])"

text \<open>
  \<open>fetch(...).then(r=>r.json()).then(d=>setTools(d.results||[])).catch(()=>setTools([]))\<close>:
  every failure of the chain, also \<open>d.results\<close> on \<open>null\<close>, ends in \<open>[]\<close>.
\<close>

definition tools_of :: "js_error + json \<Rightarrow> jsval" where
  "tools_of a =
     (case a of
        Inl _ \<Rightarrow> Val (JArr [])
      | Inr d \<Rightarrow> (case get_prop d (js ''results'') of
                   Inl _ \<Rightarrow> Val (JArr [])
                 | Inr x \<Rightarrow> val_or x (Val (JArr []))))"

text \<open>
  The effect: read the stored assessment; when present, \<open>JSON.parse\<close> it (an
  exception escapes the effect), show it, and fetch the tools.
\<close>

definition dash_effect :: "dash \<Rightarrow> storage \<Rightarrow> (http_request \<Rightarrow> net) \<Rightarrow> dash \<times> outcome" where
  "dash_effect d st send =
     (case st assessment_key of
        None \<Rightarrow> (d, Resolved)
      | Some raw \<Rightarrow>
          if raw = [] then (d, Resolved)
          else case json_parse raw of
                 Inl e \<Rightarrow> (d, Rejected e)
               | Inr v \<Rightarrow>
                   (d\<lparr>assessment := Val v,
                      tools := tools_of (fetch_json send (json_request (js ''POST'') (js ''/api/py/rag/tools/search'') tools_body))\<rparr>,
                    Resolved))"

datatype dash_view = Placeholder | Board json "json list" "json list"

text \<open>
  Rendering: the placeholder while \<open>assessment\<close> is falsy; otherwise
  \<open>assessment.breakdown.map\<close> and \<open>tools.map\<close> need arrays (else a
  \<open>TypeError\<close>), except that tools with \<open>length\<close> 0 are not mapped.
\<close>

definition dash_render :: "dash \<Rightarrow> js_error + dash_view" where
  "dash_render d =
     (if \<not> truthy (assessment d) then Inr Placeholder
      else case assessment d of
        Undefined \<Rightarrow> Inr Placeholder
      | Val a \<Rightarrow>
          (case get_prop a (js ''breakdown'') of
             Inr (Val (JArr bs)) \<Rightarrow>
               (case tools d of
                  Val (JArr ts) \<Rightarrow> Inr (Board a bs ts)
                | Val (JObj ps) \<Rightarrow> if map_of ps (js ''length'') = Some (JNum 0 0)
                                  then Inr (Board a bs []) else Inl TypeError
                | _ \<Rightarrow> Inl TypeError)
           | _ \<Rightarrow> Inl TypeError))"

declare eval_edit_def [model_defs] eval_button_def [model_defs] assessment_type_def [model_defs]

declare fetch_json_def [model_defs] assessment_key_def [model_defs] json_request_def [model_defs] get_request_def [model_defs]
  eval_init_def [model_defs] split_trim_def [model_defs] eval_body_def [model_defs]
  eval_run_def [model_defs] dash_init_def [model_defs] tools_body_def [model_defs]
  tools_of_def [model_defs] dash_effect_def [model_defs] dash_render_def [model_defs]


subsection \<open>Properties of the evaluation form\<close>

text \<open>
  C19. \<open>run\<close> sets \<open>loading\<close> and never clears it: on every path, also when the
  network fails or the answer is not JSON, the page ends with \<open>loading\<close> set, so
  the button stays disabled after a failed evaluation.
\<close>

theorem eval_run_keeps_loading:
  "fst (eval_run p st sid send) = p\<lparr>loading := True\<rparr>"
  by (simp add: eval_run_def Let_def split: sum.split)

text \<open>
  C20. The skills and preferences fields are sent as one entry per comma-separated
  piece, each trimmed: a field with \<open>n\<close> commas gives exactly \<open>n + 1\<close> entries
  (so an empty field gives one empty entry), none with surrounding white space.
\<close>

theorem split_trim_entries:
  "length (split_trim s) = length (filter (\<lambda>c. c = 0x2C) s) + 1 \<and>
   (\<forall>x \<in> set (split_trim s). js_trim x = x)"
  by (simp add: split_trim_def js_split_def length_split_single js_trim_idem)

theorem split_trim_entries_witness:
  "split_trim (js '' python , sql,'') = [js ''python'', js ''sql'', []] \<and>
   length (split_trim (js '' python , sql,'')) = 3"
proof -
  have "length (split_trim (js '' python , sql,'')) = 2 + 1 \<and>
     (\<forall>x \<in> set (split_trim (js '' python , sql,'')). js_trim x = x)"
    using split_trim_entries [of "js '' python , sql,''"] by simp
  moreover have "split_trim (js '' python , sql,'') = [js ''python'', js ''sql'', []]"
    by (simp add: split_trim_def js_split_def js_trim_def js_space_def split_from.simps)
  ultimately show ?thesis by simp
qed

subsection \<open>The form submits once\<close>

lemma loading_eval_edit [simp]: "loading (eval_edit p f v) = loading p"
  by (simp add: eval_edit_def split: eval_field.split)

lemma eval_step_invariant:
  assumes "eval_step c c'" "snd (snd c) \<le> 1 \<and> loading (fst c) = (snd (snd c) = 1)"
  shows "snd (snd c') \<le> 1 \<and> loading (fst c') = (snd (snd c') = 1)"
  using assms(1)
proof (cases rule: eval_step.cases)
  case (submit p st sid send p' st' nav out n)
  then show ?thesis
    using assms(2) by (auto simp: eval_run_def Let_def split: sum.splits)
qed (use assms(2) in auto)

text \<open>
  C38. The evaluation form sends at most one evaluation request per page load:
  in every state reachable from the initial one by edits and clicks, the number
  of requests sent is at most one, and \<open>loading\<close> is set exactly when one has
  been sent. The disabled button guards \<open>run\<close>, and nothing clears
  \<open>loading\<close>, so after a failed request the form cannot be submitted again.
\<close>

theorem eval_form_single_submit:
  "eval_step\<^sup>*\<^sup>* (eval_init, st0, 0) (p, st, n) \<Longrightarrow> n \<le> 1 \<and> loading p = (n = 1)"
proof -
  assume r: "eval_step\<^sup>*\<^sup>* (eval_init, st0, 0) (p, st, n)"
  have "snd (snd c) \<le> 1 \<and> loading (fst c) = (snd (snd c) = 1)"
    if "eval_step\<^sup>*\<^sup>* (eval_init, st0, 0) c" for c
    using that
  proof (induction rule: rtranclp_induct)
    case base
    then show ?case by (simp add: eval_init_def)
  next
    case (step b c)
    then show ?case using eval_step_invariant by blast
  qed
  from this [OF r] show ?thesis by simp
qed

theorem eval_form_single_submit_witness:
  "(1 :: nat) \<le> 1 \<and> loading (eval_init\<lparr>loading := True\<rparr>) = ((1 :: nat) = 1)"
proof -
  have "eval_run eval_init (\<lambda>_. None) (js ''s1'') (\<lambda>_. Unreachable) =
      (eval_init\<lparr>loading := True\<rparr>, \<lambda>_. None, None, Rejected NetworkError)"
    by (simp add: eval_run_def fetch_json_def)
  then have "eval_step (eval_init, \<lambda>_. None, 0) (eval_init\<lparr>loading := True\<rparr>, \<lambda>_. None, Suc 0)"
    by (intro eval_step.submit) (simp_all add: eval_init_def)
  then have "eval_step\<^sup>*\<^sup>* (eval_init, \<lambda>_. None, 0) (eval_init\<lparr>loading := True\<rparr>, \<lambda>_. None, 1)"
    by simp
  then show ?thesis by (rule eval_form_single_submit)
qed

subsection \<open>Properties of the dashboard\<close>

text \<open>
  C22. The tools list falls back to \<open>[]\<close> on every failure of the fetch chain
  (network, malformed JSON, \<open>d.results\<close> on \<open>null\<close>): it differs from \<open>[]\<close>
  only when the backend answered JSON whose \<open>results\<close> is truthy, and then
  it is that value.
\<close>

theorem tools_fallback:
  "tools_of a \<noteq> Val (JArr []) \<Longrightarrow>
   \<exists>d. a = Inr d \<and> get_prop d (js ''results'') = Inr (tools_of a) \<and> truthy (tools_of a)"
  by (auto simp: tools_of_def val_or_def split: sum.splits if_splits)

theorem tools_fallback_witness:
  \<open>tools_of (json_parse (js ''{"results":[1]}'')) = Val (JArr [JNum 1 0]) \<and>
   truthy (tools_of (json_parse (js ''{"results":[1]}'')))\<close>
proof -
  have t: \<open>tools_of (json_parse (js ''{"results":[1]}'')) = Val (JArr [JNum 1 0])\<close>
    by (simp add: model_defs dec_digits.simps)
  then have \<open>tools_of (json_parse (js ''{"results":[1]}'')) \<noteq> Val (JArr [])\<close>
    by simp
  from tools_fallback [OF this] t show ?thesis
    by blast
qed

lemma json_parse_nonempty: "json_parse raw = Inr v \<Longrightarrow> raw \<noteq> []"
  by (auto simp: model_defs)

end
