(* ===== verification/AdminPages.thy ===== *)
theory AdminPages
  imports EvaluatePages JsonPretty
begin

text \<open>
  The admin pages: the label form (\<open>app/admin/labels/[assessment_id]/page.tsx\<close>),
  the experiments list with its create form and toggle
  (\<open>app/admin/experiments/page.tsx\<close>), and the experiment detail with its
  replay (\<open>app/admin/experiments/[id]/page.tsx\<close>). Each handler is a function
  of the page state, the route parameter and the network \<open>send\<close>; the requests
  they build go to the admin API routes of \<open>AdminApi\<close>. The network answers
  each request on its own: the model does not track what the backend stores
  between two requests.
\<close>

text \<open>\<open>process.env.NEXT_PUBLIC_DISABLE_ADMIN === 'true'\<close>: the page renders only \<open>Admin disabled.\<close>\<close>

definition admin_disabled :: "jstr option \<Rightarrow> bool" where
  "admin_disabled flag \<longleftrightarrow> flag = Some (js ''true'')"

subsection \<open>The label form\<close>

record label_page =
  risk :: jstr
  confidence :: jstr
  rater :: jstr
  label_notes :: jstr
  saved :: bool

definition label_init :: label_page where
  "label_init = \<lparr>risk = [], confidence = js ''0.8'', rater = js ''admin'', label_notes = [], saved = False\<rparr>"

definition label_body :: "jstr \<Rightarrow> label_page \<Rightarrow> jstr" where
  "label_body aid p =
     stringify (JObj
       [(js ''assessment_id'', num_json (js_number aid)),
        (js ''rater'', JStr (rater p)),
        (js ''risk_score_label'', num_json (js_number (risk p))),
        (js ''confidence_label'', num_json (js_number (confidence p))),
        (js ''notes'', JStr (label_notes p))])"

text \<open>\<open>save\<close>: post the label, then \<open>setSaved(true)\<close> whatever the answer's status.\<close>

definition label_save ::
  "jstr \<Rightarrow> label_page \<Rightarrow> (http_request \<Rightarrow> net) \<Rightarrow> label_page \<times> outcome" where
  "label_save aid p send =
     (case send (json_request (js ''POST'') (js ''/api/admin/labels'') (label_body aid p)) of
        Unreachable \<Rightarrow> (p, Rejected NetworkError)
      | Answer _ \<Rightarrow> (p\<lparr>saved := True\<rparr>, Resolved))"

text \<open>The inputs' \<open>onChange\<close> handlers: \<open>setRater\<close>, \<open>setRisk\<close>, \<open>setConfidence\<close>, \<open>setNotes\<close>.\<close>

datatype label_field = Rater_Field | Risk_Field | Confidence_Field | Notes_Field

definition label_edit :: "label_page \<Rightarrow> label_field \<Rightarrow> jstr \<Rightarrow> label_page" where
  "label_edit p f v =
     (case f of
        Rater_Field \<Rightarrow> p\<lparr>rater := v\<rparr>
      | Risk_Field \<Rightarrow> p\<lparr>risk := v\<rparr>
      | Confidence_Field \<Rightarrow> p\<lparr>confidence := v\<rparr>
      | Notes_Field \<Rightarrow> p\<lparr>label_notes := v\<rparr>)"

subsection \<open>The experiments list\<close>

record exp_form =
  form_name :: jstr
  form_description :: jstr
  form_model_version :: jstr
  form_params :: jstr
  form_is_active :: bool

record exp_page =
  items :: jsval
  form :: exp_form

definition exp_init :: exp_page where
  \<open>exp_init =
     \<lparr>items = Val (JArr []),
      form = \<lparr>form_name = [], form_description = [], form_model_version = js ''v1'',
              form_params = js ''{"v1":{}}'', form_is_active = False\<rparr>\<rparr>\<close>

text \<open>\<open>load\<close>: \<open>setItems(await res.json())\<close>.\<close>

definition exp_load :: "exp_page \<Rightarrow> (http_request \<Rightarrow> net) \<Rightarrow> exp_page \<times> outcome" where
  "exp_load pg send =
     (case fetch_json send (get_request (js ''/api/admin/experiments'')) of
        Inl e \<Rightarrow> (pg, Rejected e)
      | Inr v \<Rightarrow> (pg\<lparr>items := Val v\<rparr>, Resolved))"

text \<open>\<open>{ ...form, params: JSON.parse(form.params) }\<close>: the spread keeps the form's key order.\<close>

definition create_body :: "exp_form \<Rightarrow> json \<Rightarrow> jstr" where
  "create_body f pv =
     stringify (JObj
       [(js ''name'', JStr (form_name f)), (js ''description'', JStr (form_description f)),
        (js ''model_version'', JStr (form_model_version f)), (js ''params'', pv),
        (js ''is_active'', JBool (form_is_active f))])"

text \<open>
  \<open>createExp\<close>: \<open>JSON.parse(form.params)\<close> runs before the request, so a
  malformed params text throws and nothing is sent; after the post, \<open>load\<close>.
\<close>

definition exp_create :: "exp_page \<Rightarrow> (http_request \<Rightarrow> net) \<Rightarrow> exp_page \<times> outcome" where
  "exp_create pg send =
     (case json_parse (form_params (form pg)) of
        Inl e \<Rightarrow> (pg, Rejected e)
      | Inr pv \<Rightarrow>
          (case send (json_request (js ''POST'') (js ''/api/admin/experiments'') (create_body (form pg) pv)) of
             Unreachable \<Rightarrow> (pg, Rejected NetworkError)
           | Answer _ \<Rightarrow> exp_load pg send))"

text \<open>\<open>item.x\<close> on an element of the list.\<close>

definition item_prop :: "json \<Rightarrow> jstr \<Rightarrow> js_error + jsval" where
  "item_prop item k = get_prop item k"

definition toggle_body :: "jsval \<Rightarrow> jstr" where
  "toggle_body active = stringify (JObj [(js ''is_active'', JBool (\<not> truthy active))])"

text \<open>\<open>toggle(item)\<close>: \<open>PATCH /api/admin/experiments/${item.id}\<close> with \<open>{is_active: !item.is_active}\<close>.\<close>

definition toggle_request :: "json \<Rightarrow> js_error + http_request" where
  "toggle_request item =
     (case item_prop item (js ''id'') of
        Inl e \<Rightarrow> Inl e
      | Inr i \<Rightarrow>
          (case item_prop item (js ''is_active'') of
             Inl e \<Rightarrow> Inl e
           | Inr a \<Rightarrow> Inr (json_request (js ''PATCH'') (js ''/api/admin/experiments/'' @ template_val i)
                           (toggle_body a))))"

definition exp_toggle :: "exp_page \<Rightarrow> json \<Rightarrow> (http_request \<Rightarrow> net) \<Rightarrow> exp_page \<times> outcome" where
  "exp_toggle pg item send =
     (case toggle_request item of
        Inl e \<Rightarrow> (pg, Rejected e)
      | Inr rq \<Rightarrow> (case send rq of
                    Unreachable \<Rightarrow> (pg, Rejected NetworkError)
                  | Answer _ \<Rightarrow> exp_load pg send))"

text \<open>
  The form's \<open>onChange\<close> handlers, \<open>setForm({ ...form, name: e.target.value })\<close>
  and the same for \<open>description\<close> and \<open>params\<close>. The form has no input for
  \<open>model_version\<close> or \<open>is_active\<close>.
\<close>

datatype exp_field = Name_Field | Description_Field | Params_Field

definition exp_edit :: "exp_page \<Rightarrow> exp_field \<Rightarrow> jstr \<Rightarrow> exp_page" where
  "exp_edit pg f v =
     pg\<lparr>form := (case f of
                  Name_Field \<Rightarrow> (form pg)\<lparr>form_name := v\<rparr>
                | Description_Field \<Rightarrow> (form pg)\<lparr>form_description := v\<rparr>
                | Params_Field \<Rightarrow> (form pg)\<lparr>form_params := v\<rparr>)\<rparr>"

text \<open>
  What the page does, as events in the order they happen: an edit, the mount
  effect's \<open>load()\<close>, a click on Create, a click on an item's toggle. A handler
  that throws leaves the state it reached.
\<close>

datatype exp_event = Edit exp_field jstr | Load | Create | Toggle json

definition exp_handle :: "exp_page \<Rightarrow> exp_event \<Rightarrow> (http_request \<Rightarrow> net) \<Rightarrow> exp_page" where
  "exp_handle pg ev send =
     (case ev of
        Edit f v \<Rightarrow> exp_edit pg f v
      | Load \<Rightarrow> fst (exp_load pg send)
      | Create \<Rightarrow> fst (exp_create pg send)
      | Toggle x \<Rightarrow> fst (exp_toggle pg x send))"

fun exp_run :: "exp_page \<Rightarrow> exp_event list \<Rightarrow> (http_request \<Rightarrow> net) \<Rightarrow> exp_page" where
  "exp_run pg [] send = pg"
| "exp_run pg (ev # evs) send = exp_run (exp_handle pg ev send) evs send"

text \<open>
  Rendering a value as a React child: strings as they are, numbers as
  \<open>String(n)\<close>, \<open>null\<close>, \<open>undefined\<close> and booleans as nothing, arrays element
  by element; an object throws.
\<close>

fun react_text :: "json \<Rightarrow> js_error + jstr"
and react_texts :: "json list \<Rightarrow> js_error + jstr" where
  "react_text JNull = Inr []"
| "react_text (JBool b) = Inr []"
| "react_text (JNum m e) = Inr (num_str m e)"
| "react_text (JStr s) = Inr s"
| "react_text (JArr xs) = react_texts xs"
| "react_text (JObj ps) = Inl (Error (js ''Objects are not valid as a React child''))"
| "react_texts [] = Inr []"
| "react_texts (x # xs) =
     (case react_text x of
        Inl e \<Rightarrow> Inl e
      | Inr t \<Rightarrow> (case react_texts xs of Inl e \<Rightarrow> Inl e | Inr u \<Rightarrow> Inr (t @ u)))"

definition react_child :: "jsval \<Rightarrow> js_error + jstr" where
  "react_child v = (case v of Undefined \<Rightarrow> Inr [] | Val x \<Rightarrow> react_text x)"

text \<open>
  One row of the list, as text: \<open>{x.name} [{x.model_version}]
  active={String(x.is_active)} samples={x.sample_count}\<close> and the button.
\<close>

definition exp_row :: "json \<Rightarrow> js_error + jstr" where
  "exp_row x =
     (case (item_prop x (js ''name''), item_prop x (js ''model_version''),
            item_prop x (js ''is_active''), item_prop x (js ''sample_count'')) of
        (Inr n, Inr mv, Inr a, Inr sc) \<Rightarrow>
          (case (react_child n, react_child mv, react_child sc) of
             (Inr n', Inr mv', Inr sc') \<Rightarrow>
               Inr (n' @ js '' ['' @ mv' @ js ''] active='' @ template_val a @ js '' samples='' @ sc' @
                    js '' toggle'')
           | (Inl e, _, _) \<Rightarrow> Inl e
           | (_, Inl e, _) \<Rightarrow> Inl e
           | (_, _, Inl e) \<Rightarrow> Inl e)
      | (Inl e, _, _, _) \<Rightarrow> Inl e
      | (_, Inl e, _, _) \<Rightarrow> Inl e
      | (_, _, Inl e, _) \<Rightarrow> Inl e
      | (_, _, _, Inl e) \<Rightarrow> Inl e)"

text \<open>The row's \<open><Link href={`/admin/experiments/${x.id}`}>\<close>.\<close>

definition exp_link :: "json \<Rightarrow> js_error + jstr" where
  "exp_link x =
     (case item_prop x (js ''id'') of
        Inl e \<Rightarrow> Inl e
      | Inr i \<Rightarrow> Inr (js ''/admin/experiments/'' @ template_val i))"

text \<open>\<open>xs.map(f)\<close> on a state value: a \<open>TypeError\<close> unless it is an array; the first row that throws ends the rendering.\<close>

definition map_rows :: "(json \<Rightarrow> js_error + jstr) \<Rightarrow> jsval \<Rightarrow> js_error + jstr list" where
  "map_rows f v =
     (case v of
        Val (JArr xs) \<Rightarrow>
          foldr (\<lambda>x acc. case (f x, acc) of
                           (Inr r, Inr rs) \<Rightarrow> Inr (r # rs)
                         | (Inl e, _) \<Rightarrow> Inl e
                         | (_, Inl e) \<Rightarrow> Inl e) xs (Inr [])
      | _ \<Rightarrow> Inl TypeError)"

definition exp_rows :: "exp_page \<Rightarrow> js_error + jstr list" where
  "exp_rows pg = map_rows exp_row (items pg)"

subsection \<open>The experiment detail\<close>

record detail =
  metrics :: jsval
  runs :: jsval
  selected :: jsval
  compare :: jsval

definition detail_init :: detail where
  "detail_init = \<lparr>metrics = Val JNull, runs = Val (JArr []), selected = Val JNull, compare = Val JNull\<rparr>"

text \<open>
  The effect starts two independent chains \<open>fetch(url).then(r => r.json()).then(set)\<close>;
  a chain that fails leaves its slot unchanged and its rejection unhandled.
\<close>

definition detail_effect :: "detail \<Rightarrow> jstr \<Rightarrow> (http_request \<Rightarrow> net) \<Rightarrow> detail" where
  "detail_effect d pid send =
     (let m = fetch_json send (get_request (js ''/api/admin/experiments/'' @ pid @ js ''/metrics''));
          r = fetch_json send (get_request (js ''/api/admin/experiments/'' @ pid @ js ''/runs?limit=20''));
          d1 = (case m of Inr v \<Rightarrow> d\<lparr>metrics := Val v\<rparr> | Inl _ \<Rightarrow> d)
      in case r of Inr v \<Rightarrow> d1\<lparr>runs := Val v\<rparr> | Inl _ \<Rightarrow> d1)"

definition replay_url :: "jsval \<Rightarrow> jstr \<Rightarrow> jstr" where
  "replay_url aid pid =
     js ''/api/admin/assessments/'' @ template_val aid @ js ''/compare?models=v0,v1&experiment_id='' @ pid"

text \<open>\<open>replay\<close>: \<open>setSelected(run)\<close> first, then \<open>run.assessment_id\<close>, the fetch and \<open>setCompare\<close>.\<close>

definition replay :: "detail \<Rightarrow> jstr \<Rightarrow> json \<Rightarrow> (http_request \<Rightarrow> net) \<Rightarrow> detail \<times> outcome" where
  "replay d pid run send =
     (let d1 = d\<lparr>selected := Val run\<rparr>
      in case item_prop run (js ''assessment_id'') of
           Inl e \<Rightarrow> (d1, Rejected e)
         | Inr aid \<Rightarrow>
             (case fetch_json send (get_request (replay_url aid pid)) of
                Inl e \<Rightarrow> (d1, Rejected e)
              | Inr v \<Rightarrow> (d1\<lparr>compare := Val v\<rparr>, Resolved)))"

text \<open>\<open>v.k\<close> on a state value that may be \<open>undefined\<close>.\<close>

definition prop_of :: "jsval \<Rightarrow> jstr \<Rightarrow> js_error + jsval" where
  "prop_of v k = (case v of Undefined \<Rightarrow> Inl TypeError | Val x \<Rightarrow> get_prop x k)"

text \<open>
  \<open>CompareView\<close>: \<open>left = outputs.v0 || {}\<close>, \<open>right = outputs.v1 || {}\<close>, and
  \<open>JSON.stringify(left.breakdown, null, 2)\<close> and the same for \<open>right\<close>
  (\<open>None\<close> for \<open>undefined\<close>, which renders nothing).
\<close>

definition compare_view :: "jsval \<Rightarrow> js_error + jstr option \<times> jstr option" where
  "compare_view outputs =
     (case (prop_of outputs (js ''v0''), prop_of outputs (js ''v1'')) of
        (Inr l, Inr r) \<Rightarrow>
          (case (prop_of (val_or l (Val (JObj []))) (js ''breakdown''),
                 prop_of (val_or r (Val (JObj []))) (js ''breakdown'')) of
             (Inr lb, Inr rb) \<Rightarrow> Inr (pretty_val lb, pretty_val rb)
           | (Inl e, _) \<Rightarrow> Inl e
           | (_, Inl e) \<Rightarrow> Inl e)
      | (Inl e, _) \<Rightarrow> Inl e
      | (_, Inl e) \<Rightarrow> Inl e)"

text \<open>A row's children in order; the first one that throws ends the row.\<close>

fun seq_texts :: "(js_error + jstr) list \<Rightarrow> js_error + jstr list" where
  "seq_texts [] = Inr []"
| "seq_texts (t # ts) =
     (case t of
        Inl e \<Rightarrow> Inl e
      | Inr x \<Rightarrow> (case seq_texts ts of Inl e \<Rightarrow> Inl e | Inr xs \<Rightarrow> Inr (x # xs)))"

definition child_prop :: "json \<Rightarrow> jstr \<Rightarrow> js_error + jstr" where
  "child_prop x k = (case item_prop x k of Inl e \<Rightarrow> Inl e | Inr v \<Rightarrow> react_child v)"

text \<open>
  A run of the list: \<open>assessment={r.assessment_id} variant={r.variant}
  score={r.score} confidence={r.confidence}\<close> and the replay button.
\<close>

definition run_row :: "json \<Rightarrow> js_error + jstr" where
  "run_row r =
     (case seq_texts [child_prop r (js ''assessment_id''), child_prop r (js ''variant''),
                      child_prop r (js ''score''), child_prop r (js ''confidence'')] of
        Inl e \<Rightarrow> Inl e
      | Inr ts \<Rightarrow>
          Inr (concat (map (\<lambda>(l, t). l @ t)
                 (zip [js ''assessment='', js '' variant='', js '' score='', js '' confidence=''] ts)) @
               js '' replay''))"

text \<open>
  The page: the admin switch, then the metrics printed, the runs, and, once a run
  is selected, its \<open>output\<close> printed and \<open>CompareView\<close> when
  \<open>compare?.outputs\<close> is truthy.
\<close>

datatype detail_view =
    Detail_Disabled
  | Detail_Page "jstr option" "jstr list" "(jstr option \<times> (jstr option \<times> jstr option) option) option"

definition detail_render :: "jstr option \<Rightarrow> detail \<Rightarrow> js_error + detail_view" where
  "detail_render flag d =
     (if admin_disabled flag then Inr Detail_Disabled
      else case map_rows run_row (runs d) of
        Inl e \<Rightarrow> Inl e
      | Inr rows \<Rightarrow>
          if \<not> truthy (selected d) then Inr (Detail_Page (pretty_val (metrics d)) rows None)
          else case prop_of (selected d) (js ''output'') of
            Inl e \<Rightarrow> Inl e
          | Inr out \<Rightarrow>
              (let outputs = (case compare d of
                                Undefined \<Rightarrow> Undefined
                              | Val JNull \<Rightarrow> Undefined
                              | Val c \<Rightarrow> (case get_prop c (js ''outputs'') of Inl _ \<Rightarrow> Undefined | Inr ov \<Rightarrow> ov))
               in if \<not> truthy outputs
                  then Inr (Detail_Page (pretty_val (metrics d)) rows (Some (pretty_val out, None)))
                  else case compare_view outputs of
                    Inl e \<Rightarrow> Inl e
                  | Inr cv \<Rightarrow> Inr (Detail_Page (pretty_val (metrics d)) rows (Some (pretty_val out, Some cv)))))"


text \<open>
  The label page: the admin switch, then the heading with the id, the four inputs
  showing the state, and \<open>Saved.\<close> once \<open>saved\<close> is set.
\<close>

datatype label_view = Label_Disabled | Label_Form jstr "jstr list" bool

definition label_render :: "jstr option \<Rightarrow> jstr \<Rightarrow> label_page \<Rightarrow> label_view" where
  "label_render flag aid p =
     (if admin_disabled flag then Label_Disabled
      else Label_Form (js ''Label assessment #'' @ aid)
             [rater p, risk p, confidence p, label_notes p] (saved p))"

text \<open>The experiments page: the admin switch, the rows, and the three inputs of the form.\<close>

datatype exp_view = Exp_Disabled | Exp_List "jstr list" "jstr list"

definition exp_render :: "jstr option \<Rightarrow> exp_page \<Rightarrow> js_error + exp_view" where
  "exp_render flag pg =
     (if admin_disabled flag then Inr Exp_Disabled
      else case exp_rows pg of
        Inl e \<Rightarrow> Inl e
      | Inr rows \<Rightarrow>
          Inr (Exp_List rows [form_name (form pg), form_description (form pg), form_params (form pg)]))"

declare label_edit_def [model_defs] exp_edit_def [model_defs] exp_handle_def [model_defs]
  react_child_def [model_defs] exp_row_def [model_defs] exp_rows_def [model_defs]
  map_rows_def [model_defs] prop_of_def [model_defs] compare_view_def [model_defs]
  child_prop_def [model_defs] run_row_def [model_defs] detail_render_def [model_defs]
  label_render_def [model_defs] exp_render_def [model_defs]
declare admin_disabled_def [model_defs] label_init_def [model_defs] label_body_def [model_defs]
  label_save_def [model_defs] exp_init_def [model_defs] exp_load_def [model_defs]
  create_body_def [model_defs] exp_create_def [model_defs] item_prop_def [model_defs]
  toggle_body_def [model_defs] toggle_request_def [model_defs] exp_toggle_def [model_defs] detail_init_def [model_defs]
  detail_effect_def [model_defs] replay_url_def [model_defs] replay_def [model_defs]


subsection \<open>Properties of the label form\<close>

text \<open>
  C23. Saving a label shows \<open>Saved.\<close> whenever the request gets an answer, whatever
  its status: a label the route or the backend rejected (an error status) is
  reported as saved just like one that was stored.
\<close>

theorem label_saved_any_status:
  "label_save aid p (\<lambda>_. Answer r) = (p\<lparr>saved := True\<rparr>, Resolved)"
  by (simp add: label_save_def)

lemma dropWhile_all: "\<forall>c \<in> set s. P c \<Longrightarrow> dropWhile P s = []"
  by (induction s) auto

lemma js_number_blank: "\<forall>c \<in> set s. js_space c \<Longrightarrow> js_number s = Fin 0 0"
  by (simp add: js_number_def js_trim_def dropWhile_all)

text \<open>
  C24. \<open>Number('')\<close> is 0: a label saved with the risk field left blank (or only
  white space) sends \<open>risk_score_label: 0\<close>, the very request an explicit 0
  sends, so an unscored label cannot be told from a score of 0.
\<close>

theorem blank_risk_sends_zero:
  "\<forall>c \<in> set s. js_space c \<Longrightarrow>
   label_body aid (p\<lparr>risk := s\<rparr>) = label_body aid (p\<lparr>risk := js ''0''\<rparr>)"
  using js_number_blank [of s] by (simp add: label_body_def model_defs)

theorem blank_risk_sends_zero_witness:
  "label_body (js ''7'') (label_init\<lparr>risk := js ''  ''\<rparr>) = label_body (js ''7'') (label_init\<lparr>risk := js ''0''\<rparr>)"
proof -
  have "\<forall>c \<in> set (js ''  ''). js_space c"
    by (simp add: js_space_def)
  then show ?thesis
    by (rule blank_risk_sends_zero)
qed

subsection \<open>What the create form can send\<close>

lemma form_exp_load: "form (fst (exp_load pg send)) = form pg"
  by (simp add: exp_load_def split: sum.split)

lemma form_exp_create: "form (fst (exp_create pg send)) = form pg"
  by (simp add: exp_create_def form_exp_load split: sum.split net.split)

lemma form_exp_toggle: "form (fst (exp_toggle pg x send)) = form pg"
  by (simp add: exp_toggle_def form_exp_load split: sum.split net.split)

lemma exp_handle_fixed_fields:
  "form_model_version (form (exp_handle pg ev send)) = form_model_version (form pg) \<and>
   form_is_active (form (exp_handle pg ev send)) = form_is_active (form pg)"
  by (cases ev) (simp_all add: exp_handle_def exp_edit_def form_exp_load form_exp_create
      form_exp_toggle split: exp_field.split)

lemma exp_run_fixed_fields:
  "form_model_version (form (exp_run pg evs send)) = form_model_version (form pg) \<and>
   form_is_active (form (exp_run pg evs send)) = form_is_active (form pg)"
  by (induction evs arbitrary: pg) (simp_all add: exp_handle_fixed_fields)

text \<open>
  C39. Whatever the user types and clicks, in any order, the experiments page
  creates every experiment with \<open>model_version\<close> \<open>v1\<close> and \<open>is_active\<close>
  false: the form has inputs for the name, the description and the parameters
  only, and no handler touches the other two fields.
\<close>

theorem created_experiments_v1_inactive:
  "form_model_version (form (exp_run exp_init evs send)) = js ''v1'' \<and>
   \<not> form_is_active (form (exp_run exp_init evs send))"
  using exp_run_fixed_fields [of exp_init evs send] by (simp add: exp_init_def)

subsection \<open>Properties of the experiments list and the detail page\<close>

text \<open>
  C25. Creating an experiment whose params text is not valid JSON throws
  \<open>SyntaxError\<close> before any request: the result does not depend on the network,
  and the list is not reloaded.
\<close>

theorem create_malformed_params:
  "json_parse (form_params (form pg)) = Inl e \<Longrightarrow> exp_create pg send = (pg, Rejected e)"
  by (simp add: exp_create_def)

theorem create_malformed_params_witness:
  "exp_create (exp_init\<lparr>form := (form exp_init)\<lparr>form_params := js ''{''\<rparr>\<rparr>) (\<lambda>_. Unreachable) =
     (exp_init\<lparr>form := (form exp_init)\<lparr>form_params := js ''{''\<rparr>\<rparr>, Rejected SyntaxError)"
proof -
  have "json_parse (form_params (form (exp_init\<lparr>form := (form exp_init)\<lparr>form_params := js ''{''\<rparr>\<rparr>))) =
      Inl SyntaxError"
    by (simp add: model_defs)
  then show ?thesis
    by (rule create_malformed_params)
qed

text \<open>
  C26. The toggle button of a listed experiment \<open>{..}\<close> sends \<open>PATCH\<close> to
  \<open>/api/admin/experiments/\<close> followed by the item's \<open>id\<close> as a template literal
  prints it (\<open>undefined\<close> when the item has none) with the body
  \<open>{"is_active":b}\<close>, \<open>b\<close> the negated truthiness of the item's \<open>is_active\<close> (so
  \<open>true\<close> when it is missing or \<open>null\<close>); on a \<open>null\<close> item it throws \<open>TypeError\<close>.
\<close>

theorem toggle_request_shape:
  \<open>toggle_request (JObj ps) =
     Inr (json_request (js ''PATCH'')
       (js ''/api/admin/experiments/'' @
          template_val (case map_of ps (js ''id'') of None \<Rightarrow> Undefined | Some i \<Rightarrow> Val i))
       (if truthy (case map_of ps (js ''is_active'') of None \<Rightarrow> Undefined | Some a \<Rightarrow> Val a)
        then js ''{"is_active":false}'' else js ''{"is_active":true}'')) \<and>
   toggle_request JNull = Inl TypeError\<close>
  by (simp add: toggle_request_def item_prop_def get_prop_def toggle_body_def model_defs
      split: option.split)

text \<open>
  C27. A replay whose comparison request fails (network, or an answer that is
  not JSON) leaves the page with the new run selected and the previous run's
  comparison still shown: \<open>compare\<close> is not reset.
\<close>

theorem replay_failure_keeps_stale_compare:
  "item_prop run (js ''assessment_id'') = Inr aid \<Longrightarrow>
   fetch_json send (get_request (replay_url aid pid)) = Inl e \<Longrightarrow>
   replay d pid run send = (d\<lparr>selected := Val run\<rparr>, Rejected e)"
  by (simp add: replay_def)

theorem replay_failure_keeps_stale_compare_witness:
  "replay (detail_init\<lparr>compare := Val (JNum 1 0)\<rparr>) (js ''7'') (JObj [(js ''assessment_id'', JNum 2 0)])
      (\<lambda>_. Unreachable) =
   (\<lparr>metrics = Val JNull, runs = Val (JArr []), selected = Val (JObj [(js ''assessment_id'', JNum 2 0)]),
     compare = Val (JNum 1 0)\<rparr>, Rejected NetworkError)"
proof -
  have a: "item_prop (JObj [(js ''assessment_id'', JNum 2 0)]) (js ''assessment_id'') = Inr (Val (JNum 2 0))"
    by (simp add: item_prop_def get_prop_def)
  have f: "fetch_json (\<lambda>_. Unreachable) (get_request (replay_url (Val (JNum 2 0)) (js ''7''))) = Inl NetworkError"
    by (simp add: fetch_json_def)
  show ?thesis
    using replay_failure_keeps_stale_compare [OF a f] by (simp add: detail_init_def)
qed

end
