(* ===== verification/Server.thy ===== *)
theory Server
  imports AdminPages UrlEncoding
begin

text \<open>
  The Next.js server between the pages and the backend. A request of a page goes
  to a relative URL; the server matches its path against the route handlers of
  \<open>app/api\<close> (the file layout is the route table: a folder \<open>[id]\<close> is a
  dynamic segment, whose value the handler receives percent-decoded), then against
  the rewrite of \<open>next.config.js\<close>, and otherwise serves a page document or the
  not-found page (\<open>pages\<close>, not modelled: no handler of the program fetches
  one). A route handler's \<open>Response.json\<close> is a 200 answer; an exception it
  throws, and a rewrite whose destination cannot be reached, give a 500 answer. A
  method the route file does not export gives 405; \<open>HEAD\<close> runs the \<open>GET\<close>
  handler without the body and \<open>OPTIONS\<close> answers 204, as Next.js does.
\<close>

subsection \<open>URLs\<close>

text \<open>The path of a relative URL, up to \<open>?\<close>, and its search part from \<open>?\<close> on.\<close>

definition url_path :: "jstr \<Rightarrow> jstr" where
  "url_path u = takeWhile (\<lambda>c. c \<noteq> 0x3F) u"

definition url_search :: "jstr \<Rightarrow> jstr" where
  "url_search u = dropWhile (\<lambda>c. c \<noteq> 0x3F) u"

text \<open>
  \<open>URLSearchParams\<close> reads the UTF-8 encoding of the query (\<open>utf8_encode\<close>
  of \<open>UrlEncoding\<close>): the percent-encoding the URL parser adds, it removes again.
\<close>

definition url_query :: "jstr \<Rightarrow> byte list" where
  "url_query u = utf8_encode (drop 1 (url_search u))"

text \<open>\<open>params.id\<close>: the segment of the path, percent-decoded.\<close>

definition seg_param :: "jstr \<Rightarrow> jstr" where
  "seg_param s = utf8_decode_no_bom (percent_decode (utf8_encode s))"

subsection \<open>The route table\<close>

datatype api_route =
    Labels | LabelsRecent | Compare jstr | Experiments | Experiment jstr
  | ExperimentMetrics jstr | ExperimentRuns jstr

definition route_of :: "jstr \<Rightarrow> api_route option" where
  "route_of p =
     (case js_split p [0x2F] of
        [e, a, b, c] \<Rightarrow>
          if e = [] \<and> a = js ''api'' \<and> b = js ''admin'' then
            (if c = js ''labels'' then Some Labels
             else if c = js ''experiments'' then Some Experiments else None)
          else None
      | [e, a, b, c, i] \<Rightarrow>
          if e = [] \<and> a = js ''api'' \<and> b = js ''admin'' then
            (if c = js ''labels'' \<and> i = js ''recent'' then Some LabelsRecent
             else if c = js ''experiments'' \<and> i \<noteq> [] then Some (Experiment (seg_param i))
             else None)
          else None
      | [e, a, b, c, i, d] \<Rightarrow>
          if e = [] \<and> a = js ''api'' \<and> b = js ''admin'' \<and> i \<noteq> [] then
            (if c = js ''assessments'' \<and> d = js ''compare'' then Some (Compare (seg_param i))
             else if c = js ''experiments'' \<and> d = js ''metrics'' then Some (ExperimentMetrics (seg_param i))
             else if c = js ''experiments'' \<and> d = js ''runs'' then Some (ExperimentRuns (seg_param i))
             else None)
          else None
      | _ \<Rightarrow> None)"

subsection \<open>Answers\<close>

definition server_error :: net where
  "server_error = Answer \<lparr>status = 500, resp_text = js ''Internal Server Error''\<rparr>"

definition method_not_allowed :: net where
  "method_not_allowed = Answer \<lparr>status = 405, resp_text = []\<rparr>"

definition no_content :: net where
  "no_content = Answer \<lparr>status = 204, resp_text = []\<rparr>"

text \<open>\<open>Response.json(x)\<close> returned by the handler, or the exception it threw.\<close>

definition route_answer :: "js_error + jstr \<Rightarrow> net" where
  "route_answer r = (case r of Inl _ \<Rightarrow> server_error | Inr t \<Rightarrow> Answer \<lparr>status = 200, resp_text = t\<rparr>)"

definition head_of :: "net \<Rightarrow> net" where
  "head_of a = (case a of Answer r \<Rightarrow> Answer (r\<lparr>resp_text := []\<rparr>) | Unreachable \<Rightarrow> Unreachable)"

definition req_method_name :: "http_request \<Rightarrow> jstr" where
  "req_method_name rq = (case req_method rq of None \<Rightarrow> js ''GET'' | Some m \<Rightarrow> m)"

text \<open>\<open>await req.text()\<close>\<close>

definition req_text :: "http_request \<Rightarrow> jstr" where
  "req_text rq = (case req_body rq of None \<Rightarrow> [] | Some b \<Rightarrow> b)"

subsection \<open>Dispatch\<close>

text \<open>The handlers a route file exports, by method: \<open>GET\<close>, then \<open>POST\<close> or \<open>PATCH\<close>.\<close>

definition route_get :: "env \<Rightarrow> (http_request \<Rightarrow> net) \<Rightarrow> api_route \<Rightarrow> byte list \<Rightarrow> net option" where
  "route_get e send r q =
     (case r of
        Labels \<Rightarrow> Some (route_answer (labels_GET e q send))
      | LabelsRecent \<Rightarrow> Some (route_answer (labels_recent_GET e q send))
      | Compare i \<Rightarrow> Some (route_answer (compare_GET e i q send))
      | Experiments \<Rightarrow> Some (route_answer (experiments_GET e send))
      | Experiment i \<Rightarrow> None
      | ExperimentMetrics i \<Rightarrow> Some (route_answer (metrics_GET e i send))
      | ExperimentRuns i \<Rightarrow> Some (route_answer (runs_GET e i q send)))"

definition route_write ::
  "env \<Rightarrow> (http_request \<Rightarrow> net) \<Rightarrow> api_route \<Rightarrow> jstr \<Rightarrow> jstr \<Rightarrow> net option" where
  "route_write e send r m body =
     (case r of
        Labels \<Rightarrow> if m = js ''POST'' then Some (route_answer (labels_POST e body send)) else None
      | Experiments \<Rightarrow> if m = js ''POST'' then Some (route_answer (experiments_POST e body send)) else None
      | Experiment i \<Rightarrow> if m = js ''PATCH'' then Some (route_answer (experiment_PATCH e i body send)) else None
      | _ \<Rightarrow> None)"

definition call_route ::
  "env \<Rightarrow> (http_request \<Rightarrow> net) \<Rightarrow> api_route \<Rightarrow> http_request \<Rightarrow> net" where
  "call_route e send r rq =
     (let m = req_method_name rq; q = url_query (req_url rq)
      in if m = js ''GET'' then (case route_get e send r q of Some a \<Rightarrow> a | None \<Rightarrow> method_not_allowed)
         else if m = js ''HEAD'' then
           (case route_get e send r q of Some a \<Rightarrow> head_of a | None \<Rightarrow> method_not_allowed)
         else if m = js ''OPTIONS'' then no_content
         else (case route_write e send r m (req_text rq) of Some a \<Rightarrow> a | None \<Rightarrow> method_not_allowed))"

text \<open>The rewrite proxies the request to its destination, with the query kept.\<close>

definition py_proxy :: "(http_request \<Rightarrow> net) \<Rightarrow> jstr \<Rightarrow> http_request \<Rightarrow> net" where
  "py_proxy send dest rq =
     (case send (rq\<lparr>req_url := dest @ url_search (req_url rq)\<rparr>) of
        Unreachable \<Rightarrow> server_error
      | Answer r \<Rightarrow> Answer r)"

definition next_server ::
  "env \<Rightarrow> (http_request \<Rightarrow> net) \<Rightarrow> (http_request \<Rightarrow> net) \<Rightarrow> http_request \<Rightarrow> net" where
  "next_server e pages send rq =
     (let p = url_path (req_url rq)
      in case route_of p of
           Some r \<Rightarrow> call_route e send r rq
         | None \<Rightarrow> (case py_rewrite e p of
                      Some dest \<Rightarrow> py_proxy send dest rq
                    | None \<Rightarrow> pages rq))"

declare url_path_def [model_defs] url_search_def [model_defs] url_query_def [model_defs] seg_param_def [model_defs]
  route_of_def [model_defs] server_error_def [model_defs] method_not_allowed_def [model_defs]
  no_content_def [model_defs] route_answer_def [model_defs] head_of_def [model_defs]
  req_method_name_def [model_defs] req_text_def [model_defs] route_get_def [model_defs]
  route_write_def [model_defs] call_route_def [model_defs] py_proxy_def [model_defs]
  next_server_def [model_defs]

subsection \<open>What the properties observe\<close>

text \<open>
  The \<open>X-Admin-Key\<close> header of a request; the origin of a URL as the WHATWG
  URL parser reads it for \<open>http\<close> and \<open>https\<close> (the scheme with \<open>://\<close>
  and the authority, which ends at the first \<open>/\<close>, \<open>\\\<close>, \<open>?\<close> or \<open>#\<close>;
  dot segments and decoded slashes after it only change the path); the
  backend's base URL (\<open>NEXT_PUBLIC_API_BASE_URL\<close> or its default) and its admin
  API; and a network that refuses every request to which the server has added
  or changed that header while sending it to another origin than the backend's.
\<close>

definition url_origin :: "jstr \<Rightarrow> jstr option" where
  "url_origin u =
     map_option (\<lambda>i. take (i + 3) u @ takeWhile (\<lambda>c. c \<notin> {0x2F, 0x5C, 0x3F, 0x23}) (drop (i + 3) u))
       (index_of (js ''://'') u)"

definition backend_base :: "env \<Rightarrow> jstr" where
  "backend_base e = js_or (api_base_url e) default_base"

definition admin_header :: "http_request \<Rightarrow> jstr option" where
  "admin_header rq = header_get (req_headers rq) (js ''X-Admin-Key'')"

definition admin_base :: "env \<Rightarrow> jstr" where
  "admin_base e = backend_base e @ js ''/admin/''"

definition adds_key :: "env \<Rightarrow> http_request \<Rightarrow> http_request \<Rightarrow> bool" where
  "adds_key e rq brq \<longleftrightarrow>
     admin_header brq \<noteq> admin_header rq \<and> url_origin (req_url brq) \<noteq> url_origin (backend_base e)"

definition block_leaks :: "env \<Rightarrow> http_request \<Rightarrow> (http_request \<Rightarrow> net) \<Rightarrow> http_request \<Rightarrow> net" where
  "block_leaks e rq send brq = (if adds_key e rq brq then Unreachable else send brq)"

subsection \<open>Every API request is answered\<close>

lemma route_answer_Answer: "\<exists>r. route_answer x = Answer r"
  by (simp add: route_answer_def server_error_def split: sum.split)

lemma route_get_Answer: "route_get e send r q = Some a \<Longrightarrow> \<exists>x. a = Answer x"
  using route_answer_Answer by (auto simp: route_get_def split: api_route.splits)

lemma route_write_Answer: "route_write e send r m b = Some a \<Longrightarrow> \<exists>x. a = Answer x"
  using route_answer_Answer by (auto simp: route_write_def split: api_route.splits if_splits)

lemma call_route_reachable: "call_route e send r rq \<noteq> Unreachable"
proof -
  have g: "(case route_get e send r q of Some a \<Rightarrow> f a | None \<Rightarrow> method_not_allowed) \<noteq> Unreachable"
    if "\<And>x. f (Answer x) \<noteq> Unreachable" for q f
    using route_get_Answer [of e send r q] that
    by (cases "route_get e send r q") (auto simp: method_not_allowed_def)
  have w: "(case route_write e send r m b of Some a \<Rightarrow> a | None \<Rightarrow> method_not_allowed) \<noteq> Unreachable"
    for m b
    using route_write_Answer [of e send r m b]
    by (cases "route_write e send r m b") (auto simp: method_not_allowed_def)
  show ?thesis
    using g [of "\<lambda>a. a"] g [of head_of] w
    by (simp add: call_route_def Let_def head_of_def no_content_def)
qed

lemma py_proxy_reachable: "py_proxy send dest rq \<noteq> Unreachable"
  by (simp add: py_proxy_def server_error_def split: net.split)

subsection \<open>The routes talk to the admin API only\<close>

lemma admin_fetch_cong:
  assumes "\<And>brq. req_url brq = js_or (api_base_url e) default_base @ path \<Longrightarrow> f brq = g brq"
  shows "admin_fetch e path init f = admin_fetch e path init g"
  using assms by (simp add: admin_fetch_def Let_def split: option.split sum.split)

lemma forward_admin_cong:
  assumes "\<And>brq. prefix (admin_base e) (req_url brq) \<Longrightarrow> f brq = g brq"
  shows "forward e (js ''/admin/'' @ p) init f = forward e (js ''/admin/'' @ p) init g"
proof -
  have "admin_fetch e (js ''/admin/'' @ p) init f = admin_fetch e (js ''/admin/'' @ p) init g"
    by (rule admin_fetch_cong) (simp add: assms admin_base_def backend_base_def)
  then show ?thesis by (simp add: forward_def)
qed

lemma js_admin_path: "js (''/admin/'' @ s) = js ''/admin/'' @ js s"
  by (simp add: js_def)

lemmas admin_paths = js_admin_path [of "''labels''"] js_admin_path [of "''labels?assessment_id=''"]
  js_admin_path [of "''labels/recent?limit=''"] js_admin_path [of "''assessments/''"]
  js_admin_path [of "''experiments''"] js_admin_path [of "''experiments/''"]

lemma route_get_cong:
  assumes "\<And>brq. prefix (admin_base e) (req_url brq) \<Longrightarrow> f brq = g brq"
  shows "route_get e f r q = route_get e g r q"
  using forward_admin_cong [OF assms]
  by (simp add: route_get_def labels_GET_def labels_recent_GET_def compare_GET_def
      experiments_GET_def metrics_GET_def runs_GET_def Let_def admin_paths
      split: api_route.split)

lemma route_write_cong:
  assumes "\<And>brq. prefix (admin_base e) (req_url brq) \<Longrightarrow> f brq = g brq"
  shows "route_write e f r m b = route_write e g r m b"
  using forward_admin_cong [OF assms]
  by (simp add: route_write_def labels_POST_def experiments_POST_def experiment_PATCH_def
      admin_paths split: api_route.split)

subsection \<open>The paths the pages call\<close>

lemma labels_path:
  "url_path (js ''/api/admin/labels'') = js ''/api/admin/labels''"
  "url_search (js ''/api/admin/labels'') = []"
  "route_of (js ''/api/admin/labels'') = Some Labels"
  by (simp_all add: url_path_def url_search_def route_of_def js_split_def split_from.simps js_def)

lemma evaluate_path:
  "url_path (js ''/api/py/risk/evaluate'') = js ''/api/py/risk/evaluate''"
  "url_search (js ''/api/py/risk/evaluate'') = []"
  "route_of (js ''/api/py/risk/evaluate'') = None"
  "py_rewrite e (js ''/api/py/risk/evaluate'') = Some (js_or (api_base_url e) default_base @ js ''/risk/evaluate'')"
  by (simp_all add: url_path_def url_search_def route_of_def js_split_def split_from.simps py_rewrite_def js_def)

lemma next_server_labels_post:
  "next_server e pages send (json_request (js ''POST'') (js ''/api/admin/labels'') b) =
     route_answer (labels_POST e b send)"
proof -
  have "js ''POST'' \<noteq> js ''GET''" "js ''POST'' \<noteq> js ''HEAD''" "js ''POST'' \<noteq> js ''OPTIONS''"
    by (simp_all add: js_def)
  moreover have "next_server e pages send (json_request (js ''POST'') (js ''/api/admin/labels'') b) =
      call_route e send Labels (json_request (js ''POST'') (js ''/api/admin/labels'') b)"
    unfolding next_server_def Let_def json_request_def
    by (simp only: http_request.select_convs labels_path option.case)
  ultimately show ?thesis
    by (simp add: call_route_def json_request_def req_method_name_def route_write_def req_text_def)
qed

lemma next_server_evaluate:
  "next_server e pages send (json_request (js ''POST'') (js ''/api/py/risk/evaluate'') b) =
     py_proxy send (js_or (api_base_url e) default_base @ js ''/risk/evaluate'')
       (json_request (js ''POST'') (js ''/api/py/risk/evaluate'') b)"
  unfolding next_server_def Let_def json_request_def
  by (simp only: http_request.select_convs evaluate_path option.case)

lemma py_proxy_json_request:
  "py_proxy send dest (json_request m (js ''/api/py/risk/evaluate'') b) =
     (case send (json_request m dest b) of Unreachable \<Rightarrow> server_error | Answer r \<Rightarrow> Answer r)"
proof -
  have "url_search (req_url (json_request m (js ''/api/py/risk/evaluate'') b)) = []"
    using evaluate_path(2) by (simp only: json_request_def http_request.select_convs)
  then show ?thesis by (simp add: py_proxy_def json_request_def)
qed

subsection \<open>Origins\<close>

lemma takeWhile_stop: "\<not> P y \<Longrightarrow> takeWhile P (xs @ y # r) = takeWhile P xs"
  by (induction xs) auto

lemma url_origin_slash:
  assumes "url_origin b \<noteq> None"
  shows "url_origin (b @ 0x2F # r) = url_origin b"
proof -
  obtain i where i: "index_of (js ''://'') b = Some i" using assms by (auto simp: url_origin_def)
  then have l: "i + 3 \<le> length b" using index_of_Some by fastforce
  have "takeWhile (\<lambda>c. c \<notin> {0x2F, 0x5C, 0x3F, 0x23}) (drop (i + 3) b @ 0x2F # r) =
        takeWhile (\<lambda>c. c \<notin> {0x2F, 0x5C, 0x3F, 0x23}) (drop (i + 3) b)"
    by (rule takeWhile_stop) simp
  then show ?thesis
    using i l index_of_append [OF i, of "0x2F # r"] by (simp add: url_origin_def)
qed

lemma admin_base_origin:
  "url_origin (backend_base e) \<noteq> None \<Longrightarrow> prefix (admin_base e) u \<Longrightarrow> url_origin u = url_origin (backend_base e)"
  by (auto simp: admin_base_def prefix_def url_origin_slash)

section \<open>Properties of the server\<close>

text \<open>
  C31. The server sends the admin key to the backend's origin only: when the
  backend's base URL has an origin, a network that refused every request to
  which the server has added or changed an \<open>X-Admin-Key\<close> header for another
  origin would leave every answer of the server the same. Every such request
  is \<open>adminFetch\<close>'s, whose URL is the base followed by \<open>/admin/\<close>; the
  rewrite forwards the browser's own headers and adds none. The path after
  the origin is not confined (a decoded \<open>%2F\<close> in an \<open>[id]\<close> segment makes
  dot segments that leave \<open>/admin/\<close>).
\<close>

theorem admin_key_confined:
  "url_origin (backend_base e) \<noteq> None \<Longrightarrow>
   next_server e pages (block_leaks e rq send) rq = next_server e pages send rq"
proof -
  assume o: "url_origin (backend_base e) \<noteq> None"
  have adm: "block_leaks e rq send brq = send brq" if "prefix (admin_base e) (req_url brq)" for brq
    using that admin_base_origin [OF o] by (simp add: block_leaks_def adds_key_def)
  have py: "block_leaks e rq send (rq\<lparr>req_url := u\<rparr>) = send (rq\<lparr>req_url := u\<rparr>)" for u
    by (simp add: block_leaks_def adds_key_def admin_header_def)
  show ?thesis
    by (simp add: next_server_def Let_def call_route_def route_get_cong [OF adm]
        route_write_cong [OF adm] py_proxy_def py split: option.split)
qed

theorem admin_key_confined_witness:
  "next_server \<lparr>api_base_url = None, admin_api_key = Some (js ''k'')\<rparr> (\<lambda>_. Unreachable)
     (block_leaks \<lparr>api_base_url = None, admin_api_key = Some (js ''k'')\<rparr>
        (get_request (js ''/api/py/tools''))
        (\<lambda>_. Answer \<lparr>status = 200, resp_text = js ''[]''\<rparr>))
     (get_request (js ''/api/py/tools'')) =
   Answer \<lparr>status = 200, resp_text = js ''[]''\<rparr>"
proof -
  have "url_origin (backend_base \<lparr>api_base_url = None, admin_api_key = Some (js ''k'')\<rparr>) \<noteq> None"
    by (simp add: url_origin_def backend_base_def js_or_def default_base_def)
  then show ?thesis
    using admin_key_confined [of "\<lparr>api_base_url = None, admin_api_key = Some (js ''k'')\<rparr>"
        "\<lambda>_. Unreachable" "get_request (js ''/api/py/tools'')" "\<lambda>_. Answer \<lparr>status = 200, resp_text = js ''[]''\<rparr>"]
    by (simp add: model_defs split_from.simps)
qed

text \<open>
  The route parameter is percent-decoded: \<open>PATCH
  /api/admin/experiments/..%2F..%2Fsecret\<close> reaches \<open>experiment_PATCH\<close> with the
  id \<open>../../secret\<close>, which \<open>adminFetch\<close> sends with the key to
  \<open><base>/admin/experiments/../../secret\<close>, that is \<open><base>/secret\<close> once
  the URL parser has removed the dot segments.
\<close>

lemma admin_route_dot_segments:
  "route_of (js ''/api/admin/experiments/..%2F..%2Fsecret'') = Some (Experiment (js ''../../secret''))"
  by (simp add: route_of_def seg_param_def model_defs split_from.simps)

text \<open>
  C32. Through the server, saving a label always ends with \<open>Saved.\<close> shown
  and the handler resolved: whatever the backend answers, when it cannot be
  reached, and when \<open>ADMIN_API_KEY\<close> is missing, because the route answers
  every failure with a 500 the page does not look at.
\<close>

theorem label_save_always_saved:
  "label_save aid p (next_server e pages send) = (p\<lparr>saved := True\<rparr>, Resolved)"
  using route_answer_Answer [of "labels_POST e (label_body aid p) send"]
  unfolding label_save_def next_server_labels_post by auto

theorem label_save_always_saved_witness:
  "label_save (js ''7'') label_init
     (next_server \<lparr>api_base_url = None, admin_api_key = None\<rparr> (\<lambda>_. Unreachable) (\<lambda>_. Unreachable)) =
   (label_init\<lparr>saved := True\<rparr>, Resolved)"
  using label_save_always_saved [of "js ''7''" label_init "\<lparr>api_base_url = None, admin_api_key = None\<rparr>"
      "\<lambda>_. Unreachable" "\<lambda>_. Unreachable"]
  by simp

text \<open>
  C33. The evaluation form talking to the server behaves as if it talked to the
  backend at \<open><base>/risk/evaluate\<close> with the same method, headers and body,
  except that an unreachable backend reaches the page as a 500 answer (whose
  text then fails to parse) instead of a failed \<open>fetch\<close>.
\<close>

theorem evaluate_through_rewrite:
  "eval_run p st sid (next_server e pages send) =
     eval_run p st sid (\<lambda>_. case send (json_request (js ''POST'')
         (js_or (api_base_url e) default_base @ js ''/risk/evaluate'') (eval_body p sid)) of
        Unreachable \<Rightarrow> server_error | Answer r \<Rightarrow> Answer r)"
  unfolding eval_run_def fetch_json_def next_server_evaluate py_proxy_json_request ..

theorem evaluate_through_rewrite_witness:
  "eval_run eval_init (\<lambda>_. None) (js ''s1'')
     (next_server \<lparr>api_base_url = None, admin_api_key = None\<rparr> (\<lambda>_. Unreachable) (\<lambda>_. Unreachable)) =
   (eval_init\<lparr>loading := True\<rparr>, \<lambda>_. None, None, Rejected SyntaxError)"
proof -
  have "json_parse (js ''Internal Server Error'') = Inl SyntaxError"
    by (simp add: model_defs)
  then show ?thesis
    using evaluate_through_rewrite [of eval_init "\<lambda>_. None" "js ''s1''"
        "\<lparr>api_base_url = None, admin_api_key = None\<rparr>" "\<lambda>_. Unreachable" "\<lambda>_. Unreachable"]
    by (simp add: eval_run_def fetch_json_def server_error_def)
qed

text \<open>
  C34. A label posted by the page reaches the backend as exactly one request:
  \<open>POST <base>/admin/labels\<close> with the admin key, \<open>Content-Type:
  application/json\<close> and the page's body unchanged. The page gets the backend's
  JSON printed again with status 200 when the backend answers 2xx with JSON,
  and a 500 otherwise.
\<close>

theorem labels_post_backend:
  assumes "admin_api_key e = Some k" "k \<noteq> []" "\<forall>c \<in> set k. 0x21 \<le> c \<and> c \<le> 0x7E" "b \<noteq> []"
  shows "next_server e pages send (json_request (js ''POST'') (js ''/api/admin/labels'') b) =
     (case send \<lparr>req_url = js_or (api_base_url e) default_base @ js ''/admin/labels'',
                 req_method = Some (js ''POST''),
                 req_headers = [(js ''x-admin-key'', k), (js ''content-type'', js ''application/json'')],
                 req_body = Some b, req_no_store = True\<rparr> of
        Unreachable \<Rightarrow> server_error
      | Answer r \<Rightarrow>
          if 200 \<le> status r \<and> status r \<le> 299
          then (case json_parse (resp_text r) of
                  Inl _ \<Rightarrow> server_error
                | Inr v \<Rightarrow> Answer \<lparr>status = 200, resp_text = stringify v\<rparr>)
          else server_error)"
proof -
  have h: "init_headers (post_init (js ''POST'') b) = []"
    by (simp add: post_init_def)
  show ?thesis
    unfolding next_server_labels_post labels_POST_def forward_def
      admin_fetch_valid_key [OF assms(1-3) h]
    using assms(4)
    by (simp add: Let_def post_init_def js_or_def default_base_def route_answer_def
        split: net.split sum.split)
qed

theorem labels_post_backend_witness:
  "next_server \<lparr>api_base_url = None, admin_api_key = Some (js ''k'')\<rparr> (\<lambda>_. Unreachable)
     (\<lambda>rq. if req_headers rq = [(js ''x-admin-key'', js ''k''), (js ''content-type'', js ''application/json'')]
           then Answer \<lparr>status = 201, resp_text = js ''[]''\<rparr> else Unreachable)
     (json_request (js ''POST'') (js ''/api/admin/labels'') (js ''{}'')) =
   Answer \<lparr>status = 200, resp_text = js ''[]''\<rparr>"
proof -
  have a: "admin_api_key \<lparr>api_base_url = None, admin_api_key = Some (js ''k'')\<rparr> = Some (js ''k'')"
    and b: "js ''k'' \<noteq> []" and c: "\<forall>c \<in> set (js ''k''). 0x21 \<le> c \<and> c \<le> 0x7E"
    and d: "js ''{}'' \<noteq> []"
    by simp_all
  have p: "json_parse (js ''[]'') = Inr (JArr [])"
    by (simp add: model_defs)
  show ?thesis
    using labels_post_backend [OF a b c d, of "\<lambda>_. Unreachable"
        "\<lambda>rq. if req_headers rq = [(js ''x-admin-key'', js ''k''), (js ''content-type'', js ''application/json'')]
              then Answer \<lparr>status = 201, resp_text = js ''[]''\<rparr> else Unreachable"]
    by (simp add: p [simplified] model_defs)
qed

subsection \<open>Dynamic segments\<close>

lemma takeWhile_no_query: "0x3F \<notin> set u \<Longrightarrow> takeWhile (\<lambda>c. c \<noteq> 0x3F) u = u"
  by (induction u) auto

lemma experiment_path_split:
  assumes "0x2F \<notin> set pid" "pid \<noteq> []" "0x2F \<notin> set d"
  shows "js_split (js ''/api/admin/experiments/'' @ pid @ js ''/'' @ d) [0x2F] =
     [[], js ''api'', js ''admin'', js ''experiments'', pid, d]"
proof -
  have "js ''/api/admin/experiments/'' @ pid @ js ''/'' @ d =
      js_join [[], js ''api'', js ''admin'', js ''experiments'', pid, d] [0x2F]"
    by (simp add: js_def)
  then show ?thesis
    using split_from_join_single [of "[[], js ''api'', js ''admin'', js ''experiments'', pid, d]" "0x2F"]
      assms by (simp add: js_split_def js_def)
qed

text \<open>
  The experiment detail page's two requests reach their handlers with the
  page's id: the metrics URL is dispatched to \<open>metrics_GET\<close> and the runs URL
  to \<open>runs_GET\<close> with the query \<open>limit=20\<close>, for every id without \<open>/\<close>,
  \<open>?\<close>, \<open>%\<close> and lone surrogates.
\<close>

lemma detail_routes:
  assumes "pid \<noteq> []" "wf_utf16 pid" "0x2F \<notin> set pid" "0x3F \<notin> set pid" "0x25 \<notin> set pid"
  shows "next_server e pages send (get_request (js ''/api/admin/experiments/'' @ pid @ js ''/metrics'')) =
           route_answer (metrics_GET e pid send) \<and>
         next_server e pages send (get_request (js ''/api/admin/experiments/'' @ pid @ js ''/runs?limit=20'')) =
           route_answer (runs_GET e pid (bytes ''limit=20'') send)"
proof -
  have sp: "seg_param pid = pid"
    using assms(2,5) by (simp add: seg_param_def percent_utf8_roundtrip)
  have m: "js ''/metrics'' = js ''/'' @ js ''metrics''" and r: "js ''/runs'' = js ''/'' @ js ''runs''"
    by (simp_all add: js_def)
  have pm: "url_path (js ''/api/admin/experiments/'' @ pid @ js ''/metrics'') =
      js ''/api/admin/experiments/'' @ pid @ js ''/metrics''"
    "url_search (js ''/api/admin/experiments/'' @ pid @ js ''/metrics'') = []"
    using assms(4) by (auto simp: url_path_def url_search_def js_def)
  have pr: "url_path (js ''/api/admin/experiments/'' @ pid @ js ''/runs?limit=20'') =
      js ''/api/admin/experiments/'' @ pid @ js ''/runs''"
    "url_search (js ''/api/admin/experiments/'' @ pid @ js ''/runs?limit=20'') = js ''?limit=20''"
  proof -
    have "\<forall>x \<in> set pid. x \<noteq> 0x3F" using assms(4) by auto
    then show "url_path (js ''/api/admin/experiments/'' @ pid @ js ''/runs?limit=20'') =
        js ''/api/admin/experiments/'' @ pid @ js ''/runs''"
      "url_search (js ''/api/admin/experiments/'' @ pid @ js ''/runs?limit=20'') = js ''?limit=20''"
      by (simp_all add: url_path_def url_search_def js_def takeWhile_append2 dropWhile_append2)
  qed
  have sm: "route_of (js ''/api/admin/experiments/'' @ pid @ js ''/metrics'') = Some (ExperimentMetrics pid)"
    using experiment_path_split [OF assms(3,1), of "js ''metrics''"] sp assms(1)
    by (simp add: route_of_def m js_def)
  have sr: "route_of (js ''/api/admin/experiments/'' @ pid @ js ''/runs'') = Some (ExperimentRuns pid)"
    using experiment_path_split [OF assms(3,1), of "js ''runs''"] sp assms(1)
    by (simp add: route_of_def r js_def)
  have q: "url_query (js ''/api/admin/experiments/'' @ pid @ js ''/runs?limit=20'') = bytes ''limit=20''"
    using pr(2) by (simp add: url_query_def utf8_encode_def bytes_def utf8_bytes_def is_lead_def
        is_trail_def js_def)
  show ?thesis
    unfolding next_server_def Let_def get_request_def
    by (simp only: http_request.select_convs pm pr sm sr option.case)
      (simp add: call_route_def req_method_name_def route_get_def q [simplified])
qed

end
