(* ===== verification/Markup.thy ===== *)
theory Markup
  imports Json
begin

text \<open>
  The markup of the components that have no state: the root layout of
  \<open>app/layout.tsx\<close>, which wraps every page, and the home page of
  \<open>app/page.tsx\<close>. A JSX element is a tag, its attributes (the values of the
  JSX expressions, JSON values here) and its children; \<open>Link\<close> of
  \<open>next/link\<close> is an element of its own, because a click on it is a client-side
  navigation to its \<open>href\<close>. \<open>links\<close> collects those targets in document order.
\<close>

datatype node = Element jstr "(jstr \<times> json) list" "node list" | Text jstr

definition link :: "jstr \<Rightarrow> node list \<Rightarrow> node" where
  "link href cs = Element (js ''Link'') [(js ''href'', JStr href)] cs"

text \<open>\<open>RootLayout({ children })\<close>; the style sheet \<open>globals.css\<close> is not modelled.\<close>

definition root_layout :: "node list \<Rightarrow> node" where
  "root_layout children =
     Element (js ''html'') [(js ''lang'', JStr (js ''zh-CN''))]
       [Element (js ''body'') []
          [Element (js ''main'') []
             (Element (js ''h1'') [] [Text (js ''JobShield AI'')] #
              Element (js ''nav'') [(js ''style'', JObj [(js ''display'', JStr (js ''flex'')), (js ''gap'', JNum 12 0)])]
                [link (js ''/'') [Text (js ''Home'')], link (js ''/evaluate'') [Text (js ''Evaluate'')],
                 link (js ''/dashboard'') [Text (js ''Dashboard'')], link (js ''/agent'') [Text (js ''Agent'')]] #
              children)]]"

text \<open>
  \<open>HomePage()\<close>: the heading, the introduction and the button that links to the
  evaluation form (the Chinese texts as UTF-16 code units).
\<close>

definition home_page :: node where
  "home_page =
     Element (js ''div'') [(js ''className'', JStr (js ''card''))]
       [Element (js ''h2'') []
          [Text [0x41, 0x49, 0x20, 0x804C, 0x4E1A, 0x66FF, 0x4EE3, 0x98CE, 0x9669, 0x8BC4, 0x4F30, 0x20, 0x2B,
                 0x20, 0x41, 0x67, 0x65, 0x6E, 0x74, 0x20, 0x5B9A, 0x5236]],
        Element (js ''p'') []
          [Text [0x901A, 0x8FC7, 0x5BF9, 0x8BDD, 0x5F0F, 0x6D41, 0x7A0B, 0x5B8C, 0x6210, 0x98CE, 0x9669, 0x8BC4,
                 0x4F30, 0x3001, 0x5DE5, 0x5177, 0x63A8, 0x8350, 0x4E0E, 0x41, 0x67, 0x65, 0x6E, 0x74, 0x914D,
                 0x7F6E, 0x3002]],
        link (js ''/evaluate'') [Element (js ''button'') [] [Text [0x5F00, 0x59CB, 0x8BC4, 0x4F30]]]]"

text \<open>The \<open>href\<close> of every \<open>Link\<close> of a tree, in document order.\<close>

primrec links :: "node \<Rightarrow> jstr list"
  and links_list :: "node list \<Rightarrow> jstr list" where
  "links (Element t as cs) =
     (if t = js ''Link'' then (case map_of as (js ''href'') of Some (JStr h) \<Rightarrow> [h] | _ \<Rightarrow> []) else []) @
     links_list cs"
| "links (Text s) = []"
| "links_list [] = []"
| "links_list (c # cs) = links c @ links_list cs"

text \<open>The text of a tree (\<open>textContent\<close>).\<close>

primrec text_of :: "node \<Rightarrow> jstr"
  and text_list :: "node list \<Rightarrow> jstr" where
  "text_of (Element t as cs) = text_list cs"
| "text_of (Text s) = s"
| "text_list [] = []"
| "text_list (c # cs) = text_of c @ text_list cs"

declare link_def [model_defs] root_layout_def [model_defs] home_page_def [model_defs]

subsection \<open>The layout\<close>

lemma links_list_append [simp]: "links_list (xs @ ys) = links_list xs @ links_list ys"
  by (induction xs) simp_all

lemma text_list_append [simp]: "text_list (xs @ ys) = text_list xs @ text_list ys"
  by (induction xs) simp_all

text \<open>
  The layout adds the four targets of its navigation bar in front of the page's
  own links, and its heading and link texts in front of the page's text: the
  page is kept whole inside \<open>main\<close>.
\<close>

lemma layout_links:
  "links (root_layout ch) = [js ''/'', js ''/evaluate'', js ''/dashboard'', js ''/agent''] @ links_list ch"
  by (simp add: root_layout_def link_def)

lemma layout_text:
  "text_of (root_layout ch) = js ''JobShield AIHomeEvaluateDashboardAgent'' @ text_list ch"
  by (simp add: root_layout_def link_def)

lemma home_links: "links home_page = [js ''/evaluate'']"
  by (simp add: home_page_def link_def)

end
