(* ===== verification/Navigation.thy ===== *)
theory Navigation
  imports Server Markup
begin

text \<open>
  The pages of the app and how the user moves between them. The folders of
  \<open>app/\<close> that hold a \<open>page.tsx\<close> are the page routes: the home page, the
  evaluation form, the dashboard, the agent console, the experiment list, and
  the two pages with a dynamic segment, \<open>admin/experiments/[id]\<close> and
  \<open>admin/labels/[assessment_id]\<close>, whose component receives the segment
  percent-decoded as \<open>params\<close> (\<open>seg_param\<close> of \<open>Server\<close>). A click on a
  \<open>Link\<close> navigates on the client to the page of its \<open>href\<close>; loading the same
  URL from the server serves the page document (\<open>pages\<close> of \<open>next_server\<close>).
\<close>

datatype page =
    Home_Page | Evaluate_Page | Dashboard_Page | Agent_Page | Experiments_Page
  | Experiment_Page jstr | Label_Page jstr

definition page_of :: "jstr \<Rightarrow> page option" where
  "page_of p =
     (case js_split p [0x2F] of
        [e, a] \<Rightarrow>
          if e \<noteq> [] then None
          else if a = [] then Some Home_Page
          else if a = js ''evaluate'' then Some Evaluate_Page
          else if a = js ''dashboard'' then Some Dashboard_Page
          else if a = js ''agent'' then Some Agent_Page
          else None
      | [e, a, b] \<Rightarrow>
          if e = [] \<and> a = js ''admin'' \<and> b = js ''experiments'' then Some Experiments_Page else None
      | [e, a, b, i] \<Rightarrow>
          if e = [] \<and> a = js ''admin'' \<and> i \<noteq> [] then
            (if b = js ''experiments'' then Some (Experiment_Page (seg_param i))
             else if b = js ''labels'' then Some (Label_Page (seg_param i))
             else None)
          else None
      | _ \<Rightarrow> None)"

text \<open>The client-side navigation of a \<open>Link\<close>: the page of the path of its \<open>href\<close>.\<close>

definition navigate :: "jstr \<Rightarrow> page option" where
  "navigate href = page_of (url_path href)"

subsection \<open>The page the layout renders\<close>

text \<open>
  The state of each page component, and \<open>mount\<close>: the component the layout
  renders as its \<open>children\<close> for a page, with the state it holds once the
  effects of its first render have run (the dashboard's and the experiment
  list's loads, the detail page's two fetches). The pages without an effect
  start from their \<open>useState\<close> values.
\<close>

datatype page_state =
    Home_State | Evaluate_State eval_page | Dashboard_State dash | Agent_State ui
  | Experiments_State exp_page | Detail_State jstr detail | Label_State jstr label_page

definition mount :: "page \<Rightarrow> storage \<Rightarrow> (http_request \<Rightarrow> net) \<Rightarrow> page_state \<times> outcome" where
  "mount pg st send =
     (case pg of
        Home_Page \<Rightarrow> (Home_State, Resolved)
      | Evaluate_Page \<Rightarrow> (Evaluate_State eval_init, Resolved)
      | Dashboard_Page \<Rightarrow> (case dash_effect dash_init st send of (d, out) \<Rightarrow> (Dashboard_State d, out))
      | Agent_Page \<Rightarrow> (Agent_State \<lparr>events = [], agent = Val JNull\<rparr>, Resolved)
      | Experiments_Page \<Rightarrow> (case exp_load exp_init send of (p, out) \<Rightarrow> (Experiments_State p, out))
      | Experiment_Page i \<Rightarrow> (Detail_State i (detail_effect detail_init i send), Resolved)
      | Label_Page i \<Rightarrow> (Label_State i label_init, Resolved))"

declare page_of_def [model_defs] navigate_def [model_defs] mount_def [model_defs]

subsection \<open>Page routes and API routes are apart\<close>

lemma split_api: "js_split (js ''/api/'' @ r) [0x2F] = [] # js ''api'' # js_split r [0x2F]"
  using split_from_single_piece [of "0x2F" "[]" "js ''api/'' @ r"]
    split_from_single_piece [of "0x2F" "js ''api''" r]
  by (simp add: js_split_def)

text \<open>A page path does not start with the segment \<open>api\<close>; every API route path does.\<close>

lemma page_of_segments:
  "page_of p \<noteq> None \<Longrightarrow> \<exists>a r. js_split p [0x2F] = [] # a # r \<and> a \<noteq> js ''api''"
  unfolding page_of_def by (auto split: list.splits if_splits)

lemma route_of_segments:
  "route_of p \<noteq> None \<Longrightarrow> \<exists>r. js_split p [0x2F] = [] # js ''api'' # r"
  unfolding route_of_def by (auto split: list.splits if_splits)

lemma page_of_api: "page_of (js ''/api/'' @ r) = None"
  using page_of_segments [of "js ''/api/'' @ r"] unfolding split_api by (cases "page_of (js ''/api/'' @ r)") auto

lemma route_of_page: "page_of p \<noteq> None \<Longrightarrow> route_of p = None"
  using page_of_segments route_of_segments by fastforce

lemma py_rewrite_page: "page_of p \<noteq> None \<Longrightarrow> py_rewrite e p = None"
proof (rule ccontr)
  assume pg: "page_of p \<noteq> None" and "py_rewrite e p \<noteq> None"
  then have "prefix (js ''/api/py/'') p \<or> p = js ''/api/py''"
    by (auto simp: py_rewrite_def Let_def split: if_splits)
  then obtain r where "p = js ''/api/'' @ r"
    by (auto elim!: prefixE)
  with pg page_of_api [of r] show False by simp
qed

lemma route_of_admin:
  "route_of p \<noteq> None \<Longrightarrow> \<exists>r. js_split p [0x2F] = [] # js ''api'' # js ''admin'' # r"
  unfolding route_of_def by (auto split: list.splits if_splits)

lemma py_rewrite_segments:
  assumes "py_rewrite e p \<noteq> None"
  shows "\<exists>r. js_split p [0x2F] = [] # js ''api'' # js ''py'' # r"
proof -
  have "prefix (js ''/api/py/'') p \<or> p = js ''/api/py''"
    using assms by (auto simp: py_rewrite_def Let_def split: if_splits)
  then show ?thesis
  proof
    assume "prefix (js ''/api/py/'') p"
    then obtain r where p: "p = js ''/api/'' @ (js ''py'' @ 0x2F # r)" by (auto elim!: prefixE simp: js_def)
    have "js_split (js ''py'' @ 0x2F # r) [0x2F] = js ''py'' # js_split r [0x2F]"
      using split_from_single_piece [of "0x2F" "js ''py''" r] by (simp add: js_split_def js_def)
    then show ?thesis
      unfolding p split_api by simp
  next
    assume "p = js ''/api/py''"
    then have p: "p = js ''/api/'' @ js ''py''" by (simp add: js_def)
    have "js_split (js ''py'') [0x2F] = [js ''py'']"
      by (simp add: js_split_def split_from.simps js_def)
    then show ?thesis
      unfolding p split_api by simp
  qed
qed

text \<open>
  C29. Pages, API routes and the \<open>/api/py\<close> rewrite are apart: a path that
  is a page of the app is neither a route handler nor rewritten to the backend,
  and a path of a route handler is not rewritten, so the order in which the
  server tries them never hides one behind another.
\<close>

theorem routing_disjoint:
  "(page_of p \<noteq> None \<longrightarrow> route_of p = None \<and> py_rewrite e p = None) \<and>
   (route_of p \<noteq> None \<longrightarrow> py_rewrite e p = None)"
  using route_of_page py_rewrite_page route_of_admin py_rewrite_segments by (fastforce simp: js_def)

theorem routing_disjoint_witness:
  "route_of (js ''/agent'') = None \<and> py_rewrite \<lparr>api_base_url = None, admin_api_key = None\<rparr> (js ''/agent'') = None \<and>
   py_rewrite \<lparr>api_base_url = None, admin_api_key = None\<rparr> (js ''/api/admin/labels'') = None"
proof -
  have "page_of (js ''/agent'') \<noteq> None" "route_of (js ''/api/admin/labels'') \<noteq> None"
    by (simp_all add: page_of_def route_of_def js_split_def split_from.simps)
  then show ?thesis
    using routing_disjoint [of "js ''/agent''" "\<lparr>api_base_url = None, admin_api_key = None\<rparr>"]
      routing_disjoint [of "js ''/api/admin/labels''" "\<lparr>api_base_url = None, admin_api_key = None\<rparr>"]
    by blast
qed

text \<open>A URL whose path is a page is served as a page document.\<close>

lemma page_served:
  "page_of (url_path (req_url rq)) \<noteq> None \<Longrightarrow> next_server e pages send rq = pages rq"
  by (simp add: next_server_def route_of_page py_rewrite_page)


subsection \<open>The links of the app\<close>

lemma no_query_path: "0x3F \<notin> set h \<Longrightarrow> url_path h = h"
  by (simp add: url_path_def takeWhile_no_query)

lemma num_str_segment:
  "num_str m k \<noteq> [] \<and> wf_utf16 (num_str m k) \<and> 0x2F \<notin> set (num_str m k) \<and>
   0x3F \<notin> set (num_str m k) \<and> 0x25 \<notin> set (num_str m k)"
  using num_str_not_Nil num_str_chars [of m k] num_chars_ascii ascii_wf_utf16 [of "num_str m k"]
  by blast

lemma experiment_page_of:
  assumes "pid \<noteq> []" "wf_utf16 pid" "0x2F \<notin> set pid" "0x25 \<notin> set pid"
  shows "page_of (js ''/admin/experiments/'' @ pid) = Some (Experiment_Page pid)"
proof -
  have "js ''/admin/experiments/'' @ pid = js_join [[], js ''admin'', js ''experiments'', pid] [0x2F]"
    by (simp add: js_def)
  then have "js_split (js ''/admin/experiments/'' @ pid) [0x2F] = [[], js ''admin'', js ''experiments'', pid]"
    using split_from_join_single [of "[[], js ''admin'', js ''experiments'', pid]" "0x2F"] assms(3)
    by (simp add: js_split_def js_def)
  moreover have "seg_param pid = pid"
    using assms(2,4) by (simp add: seg_param_def percent_utf8_roundtrip)
  ultimately show ?thesis
    using assms(1) by (simp add: page_of_def)
qed

text \<open>
  C4. Every link of the root layout's navigation bar and of the home page names a
  page of the app: a click navigates to that page, and loading its URL from the
  server serves the page document, never an API route or the backend proxy.
\<close>

theorem layout_links_are_pages:
  assumes "h \<in> set (links (root_layout [home_page]))"
  shows "navigate h \<noteq> None \<and> next_server e pages send (get_request h) = pages (get_request h)"
proof -
  have "h \<in> {js ''/'', js ''/evaluate'', js ''/dashboard'', js ''/agent''}"
    using assms by (auto simp: layout_links home_links)
  then have "page_of h \<noteq> None" and "url_path h = h"
    by (auto simp: page_of_def js_split_def split_from.simps url_path_def)
  then show ?thesis
    using page_served [of "get_request h"] by (simp add: navigate_def get_request_def)
qed

theorem layout_links_are_pages_witness:
  "navigate (js ''/agent'') \<noteq> None \<and>
   next_server \<lparr>api_base_url = None, admin_api_key = None\<rparr>
     (\<lambda>_. Answer \<lparr>status = 200, resp_text = js ''<html>''\<rparr>) (\<lambda>_. Unreachable) (get_request (js ''/agent'')) =
   Answer \<lparr>status = 200, resp_text = js ''<html>''\<rparr>"
proof -
  have "js ''/agent'' \<in> set (links (root_layout [home_page]))"
    by (simp add: layout_links home_links)
  from layout_links_are_pages [OF this, of "\<lparr>api_base_url = None, admin_api_key = None\<rparr>"
      "\<lambda>_. Answer \<lparr>status = 200, resp_text = js ''<html>''\<rparr>" "\<lambda>_. Unreachable"]
  show ?thesis by simp
qed

text \<open>
  C37. Opening an experiment from the list: the link of a row whose \<open>id\<close> is a
  number goes to the detail page with that number, as printed, as \<open>params.id\<close>,
  and the detail page's requests for metrics and runs reach \<open>metrics_GET\<close> and
  \<open>runs_GET\<close> (with \<open>limit=20\<close>) with the same id: the page's effect,
  talking to the server, ends in the state it would reach if it called the two
  handlers directly.
\<close>

theorem row_link_opens_detail:
  assumes "item_prop x (js ''id'') = Inr (Val (JNum m k))"
  shows "exp_link x = Inr (js ''/admin/experiments/'' @ num_str m k) \<and>
    navigate (js ''/admin/experiments/'' @ num_str m k) = Some (Experiment_Page (num_str m k)) \<and>
    next_server e pages send (get_request (js ''/api/admin/experiments/'' @ num_str m k @ js ''/metrics'')) =
      route_answer (metrics_GET e (num_str m k) send) \<and>
    next_server e pages send (get_request (js ''/api/admin/experiments/'' @ num_str m k @ js ''/runs?limit=20'')) =
      route_answer (runs_GET e (num_str m k) (bytes ''limit=20'') send) \<and>
    detail_effect dt (num_str m k) (next_server e pages send) =
      detail_effect dt (num_str m k)
        (\<lambda>rq. if req_url rq = js ''/api/admin/experiments/'' @ num_str m k @ js ''/metrics''
              then route_answer (metrics_GET e (num_str m k) send)
              else route_answer (runs_GET e (num_str m k) (bytes ''limit=20'') send))"
proof -
  note seg = num_str_segment [of m k]
  have "url_path (js ''/admin/experiments/'' @ num_str m k) = js ''/admin/experiments/'' @ num_str m k"
    using seg by (simp add: no_query_path)
  then have "navigate (js ''/admin/experiments/'' @ num_str m k) = Some (Experiment_Page (num_str m k))"
    using experiment_page_of seg by (simp add: navigate_def)
  moreover have "exp_link x = Inr (js ''/admin/experiments/'' @ num_str m k)"
    using assms by (simp add: exp_link_def template_val_def)
  moreover note dr = detail_routes [OF seg[THEN conjunct1] seg[THEN conjunct2, THEN conjunct1]
      seg[THEN conjunct2, THEN conjunct2, THEN conjunct1] seg[THEN conjunct2, THEN conjunct2, THEN conjunct2, THEN conjunct1]
      seg[THEN conjunct2, THEN conjunct2, THEN conjunct2, THEN conjunct2], of e pages send]
  moreover have "detail_effect dt (num_str m k) (next_server e pages send) =
      detail_effect dt (num_str m k)
        (\<lambda>rq. if req_url rq = js ''/api/admin/experiments/'' @ num_str m k @ js ''/metrics''
              then route_answer (metrics_GET e (num_str m k) send)
              else route_answer (runs_GET e (num_str m k) (bytes ''limit=20'') send))"
    using dr by (simp add: detail_effect_def fetch_json_def get_request_def)
  ultimately show ?thesis
    using dr by blast
qed

theorem row_link_opens_detail_witness:
  "exp_link (JObj [(js ''id'', JNum 7 0)]) = Inr (js ''/admin/experiments/7'') \<and>
   navigate (js ''/admin/experiments/7'') = Some (Experiment_Page (js ''7'')) \<and>
   next_server \<lparr>api_base_url = None, admin_api_key = None\<rparr> (\<lambda>_. Unreachable) (\<lambda>_. Unreachable)
     (get_request (js ''/api/admin/experiments/7/metrics'')) = server_error"
proof -
  have i: "item_prop (JObj [(js ''id'', JNum 7 0)]) (js ''id'') = Inr (Val (JNum 7 0))"
    by (simp add: item_prop_def get_prop_def)
  have n: "num_str 7 0 = js ''7''"
    by (simp add: num_str_def pos_num_str_def dec_digits.simps dec_char_def)
  show ?thesis
    using row_link_opens_detail [OF i, of "\<lparr>api_base_url = None, admin_api_key = None\<rparr>"
        "\<lambda>_. Unreachable" "\<lambda>_. Unreachable"]
    unfolding n
    by (simp add: route_answer_def metrics_GET_def forward_def admin_fetch_def)
qed


subsection \<open>Disabling the admin pages\<close>

text \<open>
  C28. \<open>NEXT_PUBLIC_DISABLE_ADMIN\<close> does not stop the admin traffic: it is
  read when the experiments page renders, after its hooks. When it is set and
  the list request succeeds, opening the page still sends
  \<open>GET /api/admin/experiments\<close>, which the server answers through
  \<open>adminFetch\<close> with the admin key, and the page holds the list while it
  shows only \<open>Admin disabled.\<close>
\<close>

theorem disabled_admin_page_still_fetches:
  assumes "admin_disabled flag"
    "fetch_json (next_server e pages send) (get_request (js ''/api/admin/experiments'')) = Inr v"
  shows "next_server e pages send (get_request (js ''/api/admin/experiments'')) = route_answer (experiments_GET e send) \<and>
    mount Experiments_Page st (next_server e pages send) = (Experiments_State (exp_init\<lparr>items := Val v\<rparr>), Resolved) \<and>
    exp_render flag (exp_init\<lparr>items := Val v\<rparr>) = Inr Exp_Disabled"
proof -
  have "next_server e pages send (get_request (js ''/api/admin/experiments'')) = route_answer (experiments_GET e send)"
    by (simp add: next_server_def get_request_def url_path_def route_of_def js_split_def split_from.simps
        call_route_def route_get_def req_method_name_def Let_def)
  then show ?thesis
    using assms by (simp add: mount_def exp_load_def exp_render_def)
qed

theorem disabled_admin_page_still_fetches_witness:
  "mount Experiments_Page (\<lambda>_. None)
     (next_server \<lparr>api_base_url = None, admin_api_key = Some (js ''k'')\<rparr> (\<lambda>_. Unreachable)
        (\<lambda>_. Answer \<lparr>status = 200, resp_text = js ''[]''\<rparr>)) =
     (Experiments_State (exp_init\<lparr>items := Val (JArr [])\<rparr>), Resolved) \<and>
   exp_render (Some (js ''true'')) (exp_init\<lparr>items := Val (JArr [])\<rparr>) = Inr Exp_Disabled"
proof -
  have d: "admin_disabled (Some (js ''true''))" by (simp add: admin_disabled_def)
  have f: "fetch_json (next_server \<lparr>api_base_url = None, admin_api_key = Some (js ''k'')\<rparr> (\<lambda>_. Unreachable)
        (\<lambda>_. Answer \<lparr>status = 200, resp_text = js ''[]''\<rparr>)) (get_request (js ''/api/admin/experiments'')) =
      Inr (JArr [])"
    by (simp add: model_defs split_from.simps)
  show ?thesis
    using disabled_admin_page_still_fetches [OF d f] by blast
qed

end
