(* ===== verification/Binary64.thy ===== *)
theory Binary64
  imports Complex_Main JsValues
begin

text \<open>
  IEEE 754 binary64 numbers, as far as the pages compute with them: a number
  read from JSON or from a string is the double nearest to its decimal value
  (ties to even), \<open>*\<close> rounds the exact product the same way, and
  \<open>Number.prototype.toFixed\<close> (ECMA-262, 21.1.3.3) prints a double with a
  fixed number of decimals. A finite double is kept as its exact rational value.
\<close>

datatype f64 = F64 rat | F64_Inf bool | F64_NaN

text \<open>\<open>2 ^ k\<close> for an integer \<open>k\<close>, and \<open>\<lfloor>log2 n\<rfloor>\<close> of a positive natural number.\<close>

definition pow2 :: "int \<Rightarrow> rat" where
  "pow2 k = (if 0 \<le> k then 2 ^ nat k else 1 / 2 ^ nat (- k))"

fun nat_log2 :: "nat \<Rightarrow> nat" where
  "nat_log2 n = (if n < 2 then 0 else Suc (nat_log2 (n div 2)))"

declare nat_log2.simps [simp del]

text \<open>\<open>\<lfloor>log2 q\<rfloor>\<close> of a positive rational, from the lengths of its numerator and denominator.\<close>

definition ilog2 :: "rat \<Rightarrow> int" where
  "ilog2 q =
     (case quotient_of q of
        (a, b) \<Rightarrow> let k = int (nat_log2 (nat a)) - int (nat_log2 (nat b))
                  in if q < pow2 k then k - 1 else k)"

text \<open>Rounding to an integer, ties to even.\<close>

definition round_even :: "rat \<Rightarrow> int" where
  "round_even q =
     (let f = \<lfloor>q\<rfloor>; d = q - of_int f
      in if d < 1 / 2 then f else if 1 / 2 < d then f + 1 else if even f then f else f + 1)"

text \<open>
  Rounding a non-negative rational to binary64: 53 significant bits, the
  exponent of the last bit at least \<open>-1074\<close> (subnormal numbers), and
  \<open>None\<close> (infinity) when the value rounded with an unbounded exponent
  reaches \<open>2 ^ 1024\<close>.
\<close>

definition rnd_val :: "rat \<Rightarrow> rat" where
  "rnd_val q =
     (if q = 0 then 0
      else let s = max (ilog2 q - 52) (-1074) in of_int (round_even (q / pow2 s)) * pow2 s)"

definition rnd_pos :: "rat \<Rightarrow> rat option" where
  "rnd_pos q = (let v = rnd_val q in if pow2 1024 \<le> v then None else Some v)"

definition rnd :: "rat \<Rightarrow> f64" where
  "rnd q =
     (if q < 0 then (case rnd_pos (- q) of None \<Rightarrow> F64_Inf False | Some v \<Rightarrow> F64 (- v))
      else (case rnd_pos q of None \<Rightarrow> F64_Inf True | Some v \<Rightarrow> F64 v))"

text \<open>The double of a decimal number (\<open>StringToNumber\<close>, \<open>JSON.parse\<close>).\<close>

definition dec_rat :: "int \<Rightarrow> int \<Rightarrow> rat" where
  "dec_rat m e = (if 0 \<le> e then of_int m * 10 ^ nat e else of_int m / 10 ^ nat (- e))"

definition f64_of :: "jsnum \<Rightarrow> f64" where
  "f64_of n = (case n of Fin m e \<Rightarrow> rnd (dec_rat m e) | NaN \<Rightarrow> F64_NaN | Inf b \<Rightarrow> F64_Inf b)"

text \<open>
  \<open>ToNumber\<close> of a value read from JSON: a number is itself, \<open>null\<close> and
  \<open>false\<close> are 0, \<open>true\<close> is 1, \<open>undefined\<close> is \<open>NaN\<close>, and strings, arrays
  and objects go through \<open>ToString\<close> and \<open>StringToNumber\<close>.
\<close>

definition to_number :: "jsval \<Rightarrow> f64" where
  "to_number v =
     (case v of
        Undefined \<Rightarrow> F64_NaN
      | Val JNull \<Rightarrow> F64 0
      | Val (JBool b) \<Rightarrow> F64 (if b then 1 else 0)
      | Val (JNum m e) \<Rightarrow> rnd (dec_rat m e)
      | Val x \<Rightarrow> f64_of (js_number (val_str x)))"

text \<open>\<open>x * y\<close> (ECMA-262, \<open>Number::multiply\<close>); a zero times an infinity is \<open>NaN\<close>.\<close>

definition f64_mul :: "f64 \<Rightarrow> f64 \<Rightarrow> f64" where
  "f64_mul x y =
     (case (x, y) of
        (F64 a, F64 b) \<Rightarrow> rnd (a * b)
      | (F64 a, F64_Inf s) \<Rightarrow> if a = 0 then F64_NaN else F64_Inf (s = (0 < a))
      | (F64_Inf s, F64 b) \<Rightarrow> if b = 0 then F64_NaN else F64_Inf (s = (0 < b))
      | (F64_Inf s, F64_Inf t) \<Rightarrow> F64_Inf (s = t)
      | _ \<Rightarrow> F64_NaN)"

text \<open>The decimal digits of a natural number.\<close>

definition nat_str :: "nat \<Rightarrow> jstr" where
  "nat_str n = map dec_char (dec_digits n)"

text \<open>\<open>\<lfloor>log10 q\<rfloor>\<close> of a positive rational, by search from the estimate of \<open>ilog2\<close>.\<close>

fun ilog10_from :: "nat \<Rightarrow> rat \<Rightarrow> int \<Rightarrow> int" where
  "ilog10_from 0 q k = k"
| "ilog10_from (Suc n) q k =
     (if q < dec_rat 1 k then ilog10_from n q (k - 1)
      else if dec_rat 1 (k + 1) \<le> q then ilog10_from n q (k + 1) else k)"

definition ilog10 :: "rat \<Rightarrow> int" where
  "ilog10 q = ilog10_from 4 q ((ilog2 q * 3) div 10)"

text \<open>
  \<open>Number::toString\<close> of a positive double \<open>x\<close>: the shortest \<open>s\<close> of
  \<open>k\<close> digits with \<open>s * 10 ^ (n - k)\<close> rounding to \<open>x\<close> (the closer
  candidate when two have \<open>k\<close> digits), printed as \<open>num_str\<close> prints.
\<close>

fun shortest_from :: "nat \<Rightarrow> nat \<Rightarrow> rat \<Rightarrow> int \<Rightarrow> (int \<times> int)" where
  "shortest_from 0 k x n = (round_even x, 0)"
| "shortest_from (Suc f) k x n =
     (let e = n - int k; s0 = \<lfloor>x / dec_rat 1 e\<rfloor>; s1 = s0 + 1;
          ok0 = (rnd (dec_rat s0 e) = F64 x); ok1 = (rnd (dec_rat s1 e) = F64 x);
          d0 = x - dec_rat s0 e; d1 = dec_rat s1 e - x
      in if ok0 \<and> ok1 then (if d0 < d1 \<or> (d0 = d1 \<and> even s0) then (s0, e) else (s1, e))
         else if ok0 then (s0, e) else if ok1 then (s1, e)
         else shortest_from f (Suc k) x n)"

text \<open>A carry can make the digits end in zeros; they move into the exponent.\<close>

function strip10 :: "int \<Rightarrow> int \<Rightarrow> int \<times> int" where
  "strip10 s e = (if 0 < s \<and> s mod 10 = 0 then strip10 (s div 10) (e + 1) else (s, e))"
  by pat_completeness auto
termination
  by (relation "measure (\<lambda>(s, e). nat s)") auto

declare strip10.simps [simp del]

definition pos_to_string :: "rat \<Rightarrow> jstr" where
  "pos_to_string x =
     (case shortest_from 17 1 x (ilog10 x + 1) of (s, e) \<Rightarrow> case strip10 s e of (s', e') \<Rightarrow> num_str s' e')"

definition f64_to_string :: "f64 \<Rightarrow> jstr" where
  "f64_to_string x =
     (case x of
        F64_NaN \<Rightarrow> js ''NaN''
      | F64_Inf b \<Rightarrow> (if b then js ''Infinity'' else js ''-Infinity'')
      | F64 v \<Rightarrow> (if v = 0 then js ''0'' else if v < 0 then 0x2D # pos_to_string (- v) else pos_to_string v))"

text \<open>
  \<open>x.toFixed(f)\<close>: the integer \<open>n\<close> with \<open>n / 10 ^ f - x\<close> closest to zero
  (the larger one on a tie), its digits with a point before the last \<open>f\<close>;
  \<open>ToString\<close> from \<open>10 ^ 21\<close> on and for \<open>NaN\<close> and the infinities.
\<close>

definition fixed_digits :: "nat \<Rightarrow> nat \<Rightarrow> jstr" where
  "fixed_digits f n =
     (let m = nat_str n;
          m' = (if f \<noteq> 0 \<and> length m \<le> f then replicate (f + 1 - length m) 0x30 @ m else m)
      in if f = 0 then m' else take (length m' - f) m' @ 0x2E # drop (length m' - f) m')"

definition to_fixed :: "nat \<Rightarrow> f64 \<Rightarrow> jstr" where
  "to_fixed f x =
     (case x of
        F64 v \<Rightarrow>
          (let sgn = (if v < 0 then [0x2D] else []); a = \<bar>v\<bar>
           in if dec_rat 1 21 \<le> a then sgn @ pos_to_string a
              else sgn @ fixed_digits f (nat \<lfloor>a * 10 ^ f + 1 / 2\<rfloor>))
      | _ \<Rightarrow> f64_to_string x)"


text \<open>
  A JSON value whose numbers are all finite doubles: \<open>JSON.parse\<close> reads a
  literal beyond the range of doubles as an infinity, which
  \<open>JSON.stringify\<close> writes as \<open>null\<close>.
\<close>

fun json_finite :: "json \<Rightarrow> bool" where
  "json_finite (JNum m e) = (case rnd (dec_rat m e) of F64 _ \<Rightarrow> True | _ \<Rightarrow> False)"
| "json_finite (JArr xs) = list_all json_finite xs"
| "json_finite (JObj ps) = list_all (\<lambda>(k, x). json_finite x) ps"
| "json_finite JNull = True"
| "json_finite (JBool b) = True"
| "json_finite (JStr s) = True"


declare pow2_def [model_defs] ilog2_def [model_defs] round_even_def [model_defs] rnd_val_def [model_defs]
  rnd_pos_def [model_defs] rnd_def [model_defs] dec_rat_def [model_defs] f64_of_def [model_defs]
  to_number_def [model_defs] f64_mul_def [model_defs] nat_str_def [model_defs] ilog10_def [model_defs]
  pos_to_string_def [model_defs] f64_to_string_def [model_defs] fixed_digits_def [model_defs]
  to_fixed_def [model_defs]

subsection \<open>Powers of two and the binary logarithm\<close>

lemma pow2_pos [simp]: "0 < pow2 k"
  by (simp add: pow2_def)

lemma pow2_nonneg [simp]: "0 \<le> pow2 k" and pow2_nonzero [simp]: "pow2 k \<noteq> 0"
  using pow2_pos [of k] by linarith+

lemma pow2_add: "pow2 (a + b) = pow2 a * pow2 b"
proof -
  have p: "pow2 k = 2 powi k" for k
    by (simp add: pow2_def power_int_def field_simps)
  show ?thesis unfolding p by (simp add: power_int_add)
qed

lemma pow2_of_nat [simp]: "pow2 (int n) = 2 ^ n"
  by (simp add: pow2_def)

lemma nat_log2_bounds: "0 < n \<Longrightarrow> 2 ^ nat_log2 n \<le> n \<and> n < 2 ^ Suc (nat_log2 n)"
proof (induction n rule: nat_log2.induct)
  case (1 n)
  show ?case
  proof (cases "n < 2")
    case True
    with 1 show ?thesis by (simp add: nat_log2.simps [of n])
  next
    case False
    then have "0 < n div 2" by simp
    with 1 False have "2 ^ nat_log2 (n div 2) \<le> n div 2 \<and> n div 2 < 2 ^ Suc (nat_log2 (n div 2))"
      by simp
    with False show ?thesis by (auto simp: nat_log2.simps [of n])
  qed
qed

lemma pow2_diff: "pow2 (int x - int y) = 2 ^ x / 2 ^ y"
  using pow2_add [of "int x" "- int y"] by (simp add: pow2_def)

lemma pow2_Suc: "pow2 (k + 1) = 2 * pow2 k" "pow2 (k - 1) = pow2 k / 2"
  using pow2_add [of k 1] pow2_add [of "k - 1" 1] by (simp_all add: pow2_def)

lemma ilog2_bounds:
  assumes "0 < q"
  shows "pow2 (ilog2 q) \<le> q \<and> q < pow2 (ilog2 q + 1)"
proof -
  obtain a b where qa: "quotient_of q = (a, b)" by (cases "quotient_of q") auto
  then have q: "q = of_int a / of_int b" and b: "0 < b"
    using quotient_of_div [OF qa] quotient_of_denom_pos [OF qa] by simp_all
  then have a: "0 < a" using assms by (simp add: zero_less_divide_iff)
  define la where "la = nat_log2 (nat a)"
  define lb where "lb = nat_log2 (nat b)"
  define k where "k = int la - int lb"
  have int_bounds: "2 ^ nat_log2 (nat c) \<le> c \<and> c < 2 * 2 ^ nat_log2 (nat c)" if "0 < c" for c :: int
  proof -
    have "2 ^ nat_log2 (nat c) \<le> nat c \<and> nat c < 2 * 2 ^ nat_log2 (nat c)"
      using nat_log2_bounds [of "nat c"] that by simp
    then have "int (2 ^ nat_log2 (nat c)) \<le> int (nat c) \<and> int (nat c) < int (2 * 2 ^ nat_log2 (nat c))"
      by (simp only: of_nat_le_iff of_nat_less_iff)
    then show ?thesis using that by simp
  qed
  have rat_bounds: "2 ^ nat_log2 (nat c) \<le> (of_int c :: rat) \<and> (of_int c :: rat) < 2 * 2 ^ nat_log2 (nat c)"
    if "0 < c" for c :: int
  proof -
    have "of_int (2 ^ nat_log2 (nat c)) \<le> (of_int c :: rat) \<and> (of_int c :: rat) < of_int (2 * 2 ^ nat_log2 (nat c))"
      using int_bounds [OF that] by (simp only: of_int_le_iff of_int_less_iff)
    then show ?thesis by simp
  qed
  have ba: "2 ^ la \<le> (of_int a :: rat)" "(of_int a :: rat) < 2 * 2 ^ la"
    using rat_bounds [OF a] unfolding la_def by simp_all
  have bb: "2 ^ lb \<le> (of_int b :: rat)" "(of_int b :: rat) < 2 * 2 ^ lb"
    using rat_bounds [OF b] unfolding lb_def by simp_all
  have pk: "pow2 k = 2 ^ la / 2 ^ lb" unfolding k_def by (rule pow2_diff)
  have hi: "q < 2 * pow2 k"
  proof -
    have "q < 2 * 2 ^ la / of_int b" using ba(2) b by (simp add: q divide_strict_right_mono)
    also have "\<dots> \<le> 2 * 2 ^ la / 2 ^ lb" using bb(1) by (simp add: frac_le)
    finally show ?thesis by (simp add: pk)
  qed
  have lo: "pow2 k / 2 < q"
  proof -
    have "pow2 k / 2 = 2 ^ la / (2 * 2 ^ lb)" by (simp add: pk)
    also have "\<dots> < 2 ^ la / of_int b" using bb(2) b by (simp add: divide_strict_left_mono)
    also have "\<dots> \<le> q" using ba(1) b by (simp add: q divide_right_mono)
    finally show ?thesis .
  qed
  have e: "ilog2 q = (if q < pow2 k then k - 1 else k)"
    by (simp add: ilog2_def qa la_def lb_def k_def Let_def)
  show ?thesis
    using hi lo by (simp add: e pow2_Suc)
qed

subsection \<open>Rounding\<close>

lemma round_even_err: "\<bar>of_int (round_even q) - q\<bar> \<le> 1 / 2"
proof -
  have "of_int \<lfloor>q\<rfloor> \<le> q" "q < of_int \<lfloor>q\<rfloor> + 1" by linarith+
  then show ?thesis by (auto simp: round_even_def Let_def)
qed

lemma round_even_nonneg: "0 \<le> q \<Longrightarrow> 0 \<le> round_even q"
  by (auto simp: round_even_def Let_def)

lemma rnd_val_nonneg: "0 \<le> q \<Longrightarrow> 0 \<le> rnd_val q"
proof -
  assume "0 \<le> q"
  then have "0 \<le> round_even (q / pow2 s)" for s
    by (intro round_even_nonneg) simp
  then have "0 \<le> (of_int (round_even (q / pow2 s)) :: rat) * pow2 s" for s
    by simp
  then show ?thesis by (simp add: rnd_val_def Let_def)
qed

lemma rnd_val_err: "0 \<le> q \<Longrightarrow> \<bar>rnd_val q - q\<bar> \<le> q / 2 ^ 53 + 1 / 2 ^ 1075"
proof (cases "q = 0")
  case False
  assume "0 \<le> q"
  with False have q: "0 < q" by simp
  define s where "s = max (ilog2 q - 52) (-1074)"
  define r where "r = round_even (q / pow2 s)"
  have v: "rnd_val q = of_int r * pow2 s"
    using False by (simp add: rnd_val_def r_def s_def Let_def)
  have "pow2 s \<noteq> 0" by simp
  then have "of_int r * pow2 s - q = (of_int r - q / pow2 s) * pow2 s"
    by (simp add: field_simps)
  then have "\<bar>of_int r * pow2 s - q\<bar> = \<bar>of_int r - q / pow2 s\<bar> * pow2 s"
    by (simp add: abs_mult)
  also have "\<dots> \<le> 1 / 2 * pow2 s"
    using round_even_err [of "q / pow2 s"] by (simp add: r_def mult_right_mono)
  also have "\<dots> \<le> q / 2 ^ 53 + 1 / 2 ^ 1075"
  proof (cases "ilog2 q - 52 \<le> -1074")
    case True
    then have "pow2 s = 1 / 2 ^ 1074" by (simp add: s_def pow2_def)
    then show ?thesis using q by simp
  next
    case False
    then have "pow2 s = pow2 (ilog2 q) / 2 ^ 52"
      using pow2_add [of "ilog2 q" "-52"] by (simp add: s_def pow2_def)
    then have "1 / 2 * pow2 s \<le> q / 2 ^ 53"
      using ilog2_bounds [OF q] by simp
    then show ?thesis by simp
  qed
  finally show ?thesis by (simp add: v)
qed (simp add: rnd_val_def)

lemma rnd_val_le: "0 \<le> q \<Longrightarrow> rnd_val q \<le> 2 * q + 1 / 2 ^ 1075"
  using rnd_val_err [of q] by (simp add: abs_le_iff)

lemma rnd_fin: "0 \<le> q \<Longrightarrow> q \<le> 2 ^ 1000 \<Longrightarrow> rnd q = F64 (rnd_val q)"
proof -
  assume q: "0 \<le> q" "q \<le> 2 ^ 1000"
  have "rnd_val q < 2 ^ 1024" using rnd_val_le [OF q(1)] q(2) by simp
  then show ?thesis using q(1) by (simp add: rnd_def rnd_pos_def pow2_def)
qed

lemma json_finite_num: "0 \<le> dec_rat m e \<Longrightarrow> dec_rat m e \<le> 2 ^ 1000 \<Longrightarrow> json_finite (JNum m e)"
  by (simp add: rnd_fin)

subsection \<open>\<open>toFixed\<close> of a percentage\<close>

lemma to_fixed_0:
  assumes "0 \<le> y" "y < 10 ^ 21"
  shows "to_fixed 0 (F64 y) = nat_str (nat \<lfloor>y + 1 / 2\<rfloor>) \<and> \<bar>of_nat (nat \<lfloor>y + 1 / 2\<rfloor>) - y\<bar> \<le> 1 / 2"
proof -
  have "0 \<le> \<lfloor>y + 1 / 2\<rfloor>" using assms(1) by simp
  moreover have "of_int \<lfloor>y + 1 / 2\<rfloor> \<le> y + 1 / 2" "y + 1 / 2 < of_int \<lfloor>y + 1 / 2\<rfloor> + 1"
    by linarith+
  ultimately have "\<bar>of_int \<lfloor>y + 1 / 2\<rfloor> - y\<bar> \<le> 1 / 2" "of_nat (nat \<lfloor>y + 1 / 2\<rfloor>) = (of_int \<lfloor>y + 1 / 2\<rfloor> :: rat)"
    unfolding abs_le_iff by linarith+
  then have "\<bar>of_nat (nat \<lfloor>y + 1 / 2\<rfloor>) - y\<bar> \<le> 1 / 2" by simp
  moreover have "\<not> dec_rat 1 21 \<le> y" using assms(2) by (simp add: dec_rat_def)
  ultimately show ?thesis
    using assms(1) by (simp add: to_fixed_def fixed_digits_def Let_def)
qed

lemma percent_bound:
  assumes "0 \<le> dec_rat m e" "dec_rat m e \<le> 10 ^ 18"
  shows "\<exists>n. to_fixed 0 (f64_mul (to_number (Val (JNum m e))) (F64 100)) = nat_str n \<and>
    \<bar>of_nat n - 100 * dec_rat m e\<bar> \<le> 1 / 2 + dec_rat m e / 2 ^ 44 + 1 / 2 ^ 1060"
proof -
  define v where "v = dec_rat m e"
  define x where "x = rnd_val v"
  define y where "y = rnd_val (x * 100)"
  have v: "0 \<le> v" "v \<le> 10 ^ 18" using assms by (simp_all add: v_def)
  have x: "0 \<le> x" "\<bar>x - v\<bar> \<le> v / 2 ^ 53 + 1 / 2 ^ 1075"
    using rnd_val_nonneg [OF v(1)] rnd_val_err [OF v(1)] by (simp_all add: x_def)
  have x2: "x \<le> 2 * 10 ^ 18" using x(2) v by (simp add: abs_le_iff)
  have tx: "to_number (Val (JNum m e)) = F64 x"
    using rnd_fin [OF v(1)] v(2) by (simp add: to_number_def x_def v_def)
  have x100: "0 \<le> x * 100" using x(1) by simp
  have y: "0 \<le> y" "\<bar>y - x * 100\<bar> \<le> x * 100 / 2 ^ 53 + 1 / 2 ^ 1075"
    using rnd_val_nonneg [OF x100] rnd_val_err [OF x100] by (simp_all add: y_def)
  have ty: "f64_mul (F64 x) (F64 100) = F64 y"
    using rnd_fin [OF x100] x2 by (simp add: f64_mul_def y_def)
  have y21: "y < 10 ^ 21" using y(2) x2 by (simp add: abs_le_iff)
  obtain n where n: "to_fixed 0 (F64 y) = nat_str n" "\<bar>of_nat n - y\<bar> \<le> 1 / 2"
    using to_fixed_0 [OF y(1) y21] by blast
  have "\<bar>of_nat n - 100 * v\<bar> \<le> 1 / 2 + v / 2 ^ 44 + 1 / 2 ^ 1060"
    using n(2) y(2) x(2) v(1) unfolding abs_le_iff by simp
  then show ?thesis using n(1) tx ty by (auto simp: v_def)
qed

end
