(* ===== verification/DashboardView.thy ===== *)
theory DashboardView
  imports AdminPages Markup Binary64
begin

text \<open>
  The markup of the dashboard (\<open>app/dashboard/page.tsx\<close>, lines 21 to 25): the
  placeholder, or the board with the score and summary, one paragraph per
  breakdown entry with its value as a percentage (\<open>(b.value*100).toFixed(0)\<close>,
  computed on doubles as \<open>Binary64\<close> models them), and the recommended tools
  with their scores (\<open>toFixed(1)\<close>) or the text that there are none. A
  property read on a non-object throws before the element is made; a child that
  is an object throws when React renders the returned tree (\<open>react_child\<close>),
  after every read of the component has run. The \<open>key\<close>
  props are read (a \<open>null\<close> entry throws there) but are not part of the DOM.
  \<open>dash_screen\<close> is what stays on the screen once the effect and the fetch
  have run, or the error page. The lemmas show when the page stays (a typed
  assessment with well-shaped tools), when it crashes (a corrupt stored
  assessment, a malformed tools answer), when it shows the placeholder, and what
  percentage a breakdown row prints.
\<close>

text \<open>
  A React element as the component returns it: its children may still be
  values (\<open>{x}\<close>), which React turns into text, or rejects, only when it
  renders the tree after the component has returned.
\<close>

datatype velem = VElement jstr "(jstr \<times> json) list" "velem list" | VText jstr | VValue jsval

primrec render_v :: "velem \<Rightarrow> js_error + node"
  and render_vs :: "velem list \<Rightarrow> js_error + node list" where
  "render_v (VElement t as cs) = (case render_vs cs of Inl e \<Rightarrow> Inl e | Inr ns \<Rightarrow> Inr (Element t as ns))"
| "render_v (VText s) = Inr (Text s)"
| "render_v (VValue v) = (case react_child v of Inl e \<Rightarrow> Inl e | Inr s \<Rightarrow> Inr (Text s))"
| "render_vs [] = Inr []"
| "render_vs (c # cs) =
     (case render_v c of
        Inl e \<Rightarrow> Inl e
      | Inr n \<Rightarrow> (case render_vs cs of Inl e \<Rightarrow> Inl e | Inr ns \<Rightarrow> Inr (n # ns)))"

text \<open>\<open>(x*100).toFixed(f)\<close> of a value read from JSON.\<close>

definition percent :: "nat \<Rightarrow> jsval \<Rightarrow> jstr" where
  "percent f v = to_fixed f (f64_mul (to_number v) (F64 100))"

text \<open>
  \<open><p key={b.factor}>{b.factor}: {(b.value*100).toFixed(0)}% - {b.explanation}</p>\<close>:
  the reads in order (the key first), each throwing on a \<open>null\<close> entry.
\<close>

definition factor_row :: "json \<Rightarrow> js_error + velem" where
  "factor_row b =
     (case item_prop b (js ''factor'') of
        Inl e \<Rightarrow> Inl e
      | Inr fa \<Rightarrow>
          (case item_prop b (js ''value'') of
             Inl e \<Rightarrow> Inl e
           | Inr va \<Rightarrow>
               (case item_prop b (js ''explanation'') of
                  Inl e \<Rightarrow> Inl e
                | Inr ex \<Rightarrow>
                    Inr (VElement (js ''p'') []
                           [VValue fa, VText (js '': ''), VText (percent 0 va), VText (js ''% - ''), VValue ex]))))"

text \<open>
  \<open><p key={t.tool_id}><a href={t.url} target='_blank'>{t.name}</a>
  ({(t.score*100).toFixed(1)})</p>\<close>; an \<open>href\<close> that is \<open>undefined\<close> is left out.
\<close>

definition tool_row :: "json \<Rightarrow> js_error + velem" where
  "tool_row t =
     (case item_prop t (js ''tool_id'') of
        Inl e \<Rightarrow> Inl e
      | Inr _ \<Rightarrow>
          (case (item_prop t (js ''url''), item_prop t (js ''name''), item_prop t (js ''score'')) of
             (Inr u, Inr n, Inr sc) \<Rightarrow>
               Inr (VElement (js ''p'') []
                      [VElement (js ''a'')
                         ((case u of Undefined \<Rightarrow> [] | Val x \<Rightarrow> [(js ''href'', x)]) @
                          [(js ''target'', JStr (js ''_blank''))])
                         [VValue n],
                       VText (js '' (''), VText (percent 1 sc), VText (js '')'')])
           | (Inl e, _, _) \<Rightarrow> Inl e
           | (_, Inl e, _) \<Rightarrow> Inl e
           | (_, _, Inl e) \<Rightarrow> Inl e))"

text \<open>\<open>xs.map(f)\<close> on an array: the elements in order; the first call that throws ends it.\<close>

fun map_elems :: "(json \<Rightarrow> js_error + velem) \<Rightarrow> json list \<Rightarrow> js_error + velem list" where
  "map_elems f [] = Inr []"
| "map_elems f (x # xs) =
     (case f x of
        Inl e \<Rightarrow> Inl e
      | Inr r \<Rightarrow> (case map_elems f xs of Inl e \<Rightarrow> Inl e | Inr rs \<Rightarrow> Inr (r # rs)))"

definition card :: "velem list \<Rightarrow> velem" where
  "card cs = VElement (js ''div'') [(js ''className'', JStr (js ''card''))] cs"

text \<open>
  The board the component returns for the assessment \<open>a\<close>, its breakdown
  \<open>bs\<close> and the tools \<open>ts\<close> (\<open>[]\<close> when \<open>tools.length===0\<close>).
\<close>

definition dash_board :: "json \<Rightarrow> json list \<Rightarrow> json list \<Rightarrow> js_error + velem" where
  "dash_board a bs ts =
     (case (item_prop a (js ''score''), item_prop a (js ''summary'')) of
        (Inr sc, Inr sm) \<Rightarrow>
          (case (map_elems factor_row bs, if ts = [] then Inr [] else map_elems tool_row ts) of
             (Inr rows, Inr trows) \<Rightarrow>
               Inr (VElement (js ''div'') []
                 [card [VElement (js ''h2'') [] [VText [0x98CE, 0x9669, 0x4EEA, 0x8868, 0x76D8]],
                        VElement (js ''p'') [] [VText [0x603B, 0x5206, 0xFF1A], VElement (js ''b'') [] [VValue sc],
                                                VText (js ''/100'')],
                        VElement (js ''p'') [] [VValue sm]],
                  card (VElement (js ''h3'') [] [VText (js ''Breakdown'')] # rows),
                  card (VElement (js ''h3'') [] [VText [0x63A8, 0x8350, 0x5DE5, 0x5177]] #
                        (if ts = [] then
                           [VElement (js ''p'') []
                              [VText ([0x6682, 0x65E0, 0xFF08, 0x8BF7, 0x5148, 0x5BFC, 0x5165] @ js ''Apify'' @
                                      [0x6570, 0x636E, 0x6216, 0x914D, 0x7F6E] @ js ''OPENAI_API_KEY'' @ [0xFF09])]]
                         else trows))])
           | (Inl e, _) \<Rightarrow> Inl e
           | (_, Inl e) \<Rightarrow> Inl e)
      | (Inl e, _) \<Rightarrow> Inl e
      | (_, Inl e) \<Rightarrow> Inl e)"

text \<open>
  The dashboard on the screen: the component's result (the placeholder, the
  board, or the exception of \<open>dash_render\<close> and of the reads), rendered by React.
\<close>

definition dash_placeholder :: node where
  "dash_placeholder =
     Element (js ''div'') [(js ''className'', JStr (js ''card''))]
       [Text ([0x6682, 0x65E0, 0x8BC4, 0x4F30, 0xFF0C, 0x8BF7, 0x5148, 0x53BB, 0x20] @
              js ''Evaluate'' @ [0x20, 0x9875, 0x9762, 0x3002])]"

definition dash_markup :: "dash \<Rightarrow> js_error + node" where
  "dash_markup d =
     (case dash_render d of
        Inl e \<Rightarrow> Inl e
      | Inr Placeholder \<Rightarrow> Inr dash_placeholder
      | Inr (Board a bs ts) \<Rightarrow> (case dash_board a bs ts of Inl e \<Rightarrow> Inl e | Inr v \<Rightarrow> render_v v))"

text \<open>
  What the user sees of the dashboard after it has loaded. React first commits
  the placeholder of the initial state, then runs the effect. An exception of
  the effect (\<open>JSON.parse\<close>) or of a render is not caught by an error
  boundary of the application (it has none): React unmounts the tree and the
  framework's error page replaces the dashboard (\<open>Crashed\<close>). Otherwise the
  effect's \<open>setAssessment\<close> renders the assessment with the initial empty
  tools, before the fetch has settled, and \<open>setTools\<close> renders the final state;
  either render may throw.
\<close>

datatype screen = Shown node | Crashed js_error

definition dash_screen :: "storage \<Rightarrow> (http_request \<Rightarrow> net) \<Rightarrow> screen" where
  "dash_screen st send =
     (case dash_effect dash_init st send of
        (_, Rejected e) \<Rightarrow> Crashed e
      | (d, _) \<Rightarrow>
          (case dash_markup (d\<lparr>tools := tools dash_init\<rparr>) of
             Inl e \<Rightarrow> Crashed e
           | Inr _ \<Rightarrow> (case dash_markup d of Inl e \<Rightarrow> Crashed e | Inr n \<Rightarrow> Shown n)))"

text \<open>
  The shape of a recommended tool that renders: an object whose \<open>name\<close>, when
  present, is a string.
\<close>

definition tool_type :: ts_type where
  "tool_type = TObject [(js ''name'', True, TString)]"

text \<open>The entries of \<open>breakdown\<close> in the page's \<open>Assessment\<close> type.\<close>

definition factor_type :: ts_type where
  "factor_type = TObject [(js ''factor'', False, TString), (js ''weight'', False, TNumber),
                                  (js ''value'', False, TNumber), (js ''explanation'', False, TString)]"

declare percent_def [model_defs] factor_row_def [model_defs] tool_row_def [model_defs]
  card_def [model_defs] dash_board_def [model_defs] dash_markup_def [model_defs]
  dash_placeholder_def [model_defs] dash_screen_def [model_defs]

subsection \<open>Rendering typed values\<close>

lemma has_type_field:
  "has_type (TObject fs) (JObj ps) \<Longrightarrow> (k, False, t) \<in> set fs \<Longrightarrow> \<exists>x. map_of ps k = Some x \<and> has_type t x"
  by (fastforce simp: list_all_iff split: option.splits)

lemma has_type_opt_field:
  "has_type (TObject fs) (JObj ps) \<Longrightarrow> (k, True, t) \<in> set fs \<Longrightarrow>
   map_of ps k = None \<or> (\<exists>x. map_of ps k = Some x \<and> has_type t x)"
  by (fastforce simp: list_all_iff split: option.splits)

lemma has_type_object: "has_type (TObject fs) v \<Longrightarrow> \<exists>ps. v = JObj ps"
  by (cases v) simp_all

lemma map_elems_renders:
  "\<forall>x \<in> set xs. \<exists>r n. f x = Inr r \<and> render_v r = Inr n \<Longrightarrow>
   \<exists>rs ns. map_elems f xs = Inr rs \<and> render_vs rs = Inr ns"
  by (induction xs) fastforce+


lemma has_type_scalar [simp]:
  "has_type TString x \<longleftrightarrow> (\<exists>s. x = JStr s)" "has_type TNumber x \<longleftrightarrow> (\<exists>m e. x = JNum m e)"
  by (cases x; simp)+

lemma factor_row_renders:
  assumes "has_type factor_type b"
  shows "\<exists>r n. factor_row b = Inr r \<and> render_v r = Inr n"
proof -
  obtain ps where b: "b = JObj ps" using has_type_object assms by (auto simp: factor_type_def)
  have "has_type (TObject [(js ''factor'', False, TString), (js ''weight'', False, TNumber),
                           (js ''value'', False, TNumber), (js ''explanation'', False, TString)]) (JObj ps)"
    using assms b by (simp only: factor_type_def)
  then obtain f m e x where "map_of ps (js ''factor'') = Some (JStr f)" "map_of ps (js ''value'') = Some (JNum m e)"
    "map_of ps (js ''explanation'') = Some (JStr x)"
    using has_type_field by (metis has_type_scalar list.set_intros)
  then show ?thesis
    by (simp add: b factor_row_def item_prop_def get_prop_def react_child_def)
qed

lemma tool_row_renders:
  assumes "has_type tool_type t"
  shows "\<exists>r n. tool_row t = Inr r \<and> render_v r = Inr n"
proof -
  obtain ps where t: "t = JObj ps" using has_type_object assms by (auto simp: tool_type_def)
  have "has_type (TObject [(js ''name'', True, TString)]) (JObj ps)"
    using assms t by (simp only: tool_type_def)
  then have "map_of ps (js ''name'') = None \<or> (\<exists>s. map_of ps (js ''name'') = Some (JStr s))"
    using has_type_opt_field by (metis has_type_scalar list.set_intros(1))
  then show ?thesis
    by (auto simp: t tool_row_def item_prop_def get_prop_def react_child_def)
qed

lemma has_type_assessment:
  assumes "has_type assessment_type v"
  shows "\<exists>ps m e sm bs. v = JObj ps \<and> map_of ps (js ''score'') = Some (JNum m e) \<and>
           map_of ps (js ''summary'') = Some (JStr sm) \<and> map_of ps (js ''breakdown'') = Some (JArr bs) \<and>
           list_all (has_type factor_type) bs"
proof -
  obtain ps where v: "v = JObj ps" using has_type_object assms by (auto simp: assessment_type_def)
  then show ?thesis
    using assms by (auto simp: assessment_type_def factor_type_def split: option.splits json.splits)
qed

lemma dash_board_renders:
  assumes "map_of ps (js ''score'') = Some (JNum m e)" "map_of ps (js ''summary'') = Some (JStr sm)"
    "list_all (has_type factor_type) bs" "list_all (has_type tool_type) ts"
  shows "\<exists>r n. dash_board (JObj ps) bs ts = Inr r \<and> render_v r = Inr n"
proof -
  obtain rows ns where r: "map_elems factor_row bs = Inr rows" "render_vs rows = Inr ns"
    using map_elems_renders [of bs factor_row] factor_row_renders assms(3) by (metis list_all_iff)
  obtain trows tns where t: "map_elems tool_row ts = Inr trows" "render_vs trows = Inr tns"
    using map_elems_renders [of ts tool_row] tool_row_renders assms(4) by (metis list_all_iff)
  show ?thesis
    using assms(1,2) r t by (simp add: dash_board_def card_def item_prop_def get_prop_def react_child_def)
qed

lemma dash_markup_renders:
  assumes "assessment d = Val v" "has_type assessment_type v" "tools d = Val (JArr ts)"
    "list_all (has_type tool_type) ts"
  shows "\<exists>n. dash_markup d = Inr n"
proof -
  obtain ps m e sm bs where v: "v = JObj ps" "map_of ps (js ''score'') = Some (JNum m e)"
    "map_of ps (js ''summary'') = Some (JStr sm)" "map_of ps (js ''breakdown'') = Some (JArr bs)"
    "list_all (has_type factor_type) bs"
    using has_type_assessment [OF assms(2)] by blast
  obtain r n where "dash_board (JObj ps) bs ts = Inr r" "render_v r = Inr n"
    using dash_board_renders [OF v(2,3,5) assms(4)] by blast
  then show ?thesis
    using assms(1,3) v(1,4) by (simp add: dash_markup_def dash_render_def truthy_def get_prop_def)
qed

text \<open>
  C17. A stored assessment that has the page's \<open>Assessment\<close> type is shown:
  when the tools that \<open>setTools\<close> receives are an array of objects whose
  \<open>name\<close> is a string or absent, neither the render after
  \<open>setAssessment\<close> nor the one after \<open>setTools\<close> throws, and the dashboard
  stays on the screen.
\<close>

theorem typed_assessment_shows_board:
  assumes "st assessment_key = Some raw" "json_parse raw = Inr v" "has_type assessment_type v"
    "tools_of (fetch_json send (json_request (js ''POST'') (js ''/api/py/rag/tools/search'') tools_body)) =
       Val (JArr ts)"
    "list_all (has_type tool_type) ts"
  shows "\<exists>n. dash_screen st send = Shown n"
proof -
  have e: "dash_effect dash_init st send = (dash_init\<lparr>assessment := Val v, tools := Val (JArr ts)\<rparr>, Resolved)"
    using assms(1,2,4) json_parse_nonempty [OF assms(2)] by (simp add: dash_effect_def)
  obtain n1 where "dash_markup (dash_init\<lparr>assessment := Val v, tools := Val (JArr [])\<rparr>) = Inr n1"
    using dash_markup_renders [OF _ assms(3), of _ "[]"] by fastforce
  moreover obtain n2 where "dash_markup (dash_init\<lparr>assessment := Val v, tools := Val (JArr ts)\<rparr>) = Inr n2"
    using dash_markup_renders [OF _ assms(3) _ assms(5)] by fastforce
  ultimately show ?thesis
    using e by (simp add: dash_screen_def dash_init_def)
qed

theorem typed_assessment_shows_board_witness:
  \<open>\<exists>n. dash_screen ((\<lambda>_. None)(assessment_key \<mapsto>
       js ''{"score":1,"summary":"s","breakdown":[{"factor":"f","weight":1,"value":0,"explanation":"x"}],"suggested_focus":[]}''))
     (\<lambda>_. Answer \<lparr>status = 200, resp_text = js ''{"results":[{"tool_id":3,"name":"t","score":1}]}''\<rparr>) = Shown n\<close>
proof -
  define raw where \<open>raw = js ''{"score":1,"summary":"s","breakdown":[{"factor":"f","weight":1,"value":0,"explanation":"x"}],"suggested_focus":[]}''\<close>
  define st :: storage where "st = (\<lambda>_. None)(assessment_key \<mapsto> raw)"
  define send where \<open>send = (\<lambda>_ :: http_request. Answer \<lparr>status = 200, resp_text = js ''{"results":[{"tool_id":3,"name":"t","score":1}]}''\<rparr>)\<close>
  define v where "v = JObj [(js ''score'', JNum 1 0), (js ''summary'', JStr (js ''s'')),
     (js ''breakdown'', JArr [JObj [(js ''factor'', JStr (js ''f'')), (js ''weight'', JNum 1 0), (js ''value'', JNum 0 0),
                                    (js ''explanation'', JStr (js ''x''))]]),
     (js ''suggested_focus'', JArr [])]"
  define ts where "ts = [JObj [(js ''tool_id'', JNum 3 0), (js ''name'', JStr (js ''t'')), (js ''score'', JNum 1 0)]]"
  have s: "st assessment_key = Some raw"
    by (simp add: st_def)
  have p: "json_parse raw = Inr v"
    by (simp add: raw_def v_def model_defs dec_digits.simps)
  have t: "has_type assessment_type v"
    by (simp add: v_def assessment_type_def)
  have f: "tools_of (fetch_json send (json_request (js ''POST'') (js ''/api/py/rag/tools/search'') tools_body)) =
      Val (JArr ts)"
    by (simp add: send_def ts_def fetch_json_def tools_of_def model_defs dec_digits.simps)
  have l: "list_all (has_type tool_type) ts"
    by (simp add: ts_def tool_type_def)
  show ?thesis
    using typed_assessment_shows_board [of st raw v send ts, OF s p t f l] by (simp only: st_def raw_def send_def)
qed

text \<open>
  C21. A stored assessment that is not valid JSON crashes the dashboard:
  \<open>JSON.parse\<close> throws in the effect, nothing catches it, and the page is
  replaced by the error page, whatever the network does.
\<close>

theorem dash_corrupt_storage:
  "st assessment_key = Some raw \<Longrightarrow> raw \<noteq> [] \<Longrightarrow> json_parse raw = Inl e \<Longrightarrow> dash_screen st send = Crashed e"
  by (simp add: dash_screen_def dash_effect_def)

theorem dash_corrupt_storage_witness:
  "dash_screen ((\<lambda>_. None)(assessment_key \<mapsto> js ''{'')) (\<lambda>_. Unreachable) = Crashed SyntaxError"
proof -
  have "json_parse (js ''{'') = Inl SyntaxError"
    by (simp add: model_defs)
  then show ?thesis
    using dash_corrupt_storage [of "(\<lambda>_. None)(assessment_key \<mapsto> js ''{'')" "js ''{''"] by simp
qed

text \<open>
  C36. Without a stored assessment (absent, empty, or JSON whose value is falsy
  such as \<open>null\<close>), the dashboard shows the placeholder that asks for an
  evaluation, whatever the tools request returns.
\<close>

theorem dash_placeholder_without_assessment:
  assumes "st assessment_key = None \<or> st assessment_key = Some [] \<or>
           (\<exists>raw v. st assessment_key = Some raw \<and> json_parse raw = Inr v \<and> \<not> truthy (Val v))"
  shows "dash_screen st send = Shown dash_placeholder"
  using assms json_parse_nonempty
  by (auto simp: dash_screen_def dash_effect_def dash_markup_def dash_render_def dash_init_def truthy_def)

theorem dash_placeholder_without_assessment_witness:
  "dash_screen ((\<lambda>_. None)(assessment_key \<mapsto> js ''null'')) (\<lambda>_. Unreachable) = Shown dash_placeholder"
proof -
  have "json_parse (js ''null'') = Inr JNull"
    by (simp add: model_defs)
  then show ?thesis
    using dash_placeholder_without_assessment [of "(\<lambda>_. None)(assessment_key \<mapsto> js ''null'')"]
    by (simp add: truthy_def)
qed

text \<open>
  C18. A breakdown entry is shown as \<open>factor: p% - explanation\<close>, where \<open>p\<close>
  is \<open>(value*100).toFixed(0)\<close> computed on doubles: an integer within
  \<open>1/2\<close> of \<open>100 * value\<close>, up to the two roundings to double (relative
  error below \<open>2^-44\<close>), for every value from 0 up to \<open>10^18\<close>. So
  \<open>0.25\<close> is shown as \<open>25%\<close>; a value such as \<open>0.145\<close>, whose
  product lies just below \<open>14.5\<close> as a double, may show \<open>14%\<close>.
\<close>

theorem breakdown_percent_shown:
  assumes "map_of ps (js ''factor'') = Some (JStr f)" "map_of ps (js ''value'') = Some (JNum m e)"
    "map_of ps (js ''explanation'') = Some (JStr x)" "0 \<le> dec_rat m e" "dec_rat m e \<le> 10 ^ 18"
  shows "\<exists>r n. factor_row (JObj ps) = Inr r \<and>
     render_v r = Inr (Element (js ''p'') [] [Text f, Text (js '': ''), Text (nat_str n), Text (js ''% - ''), Text x]) \<and>
     \<bar>of_nat n - 100 * dec_rat m e\<bar> \<le> 1 / 2 + dec_rat m e / 2 ^ 44 + 1 / 2 ^ 1060"
proof -
  obtain n where n: "percent 0 (Val (JNum m e)) = nat_str n"
    "\<bar>of_nat n - 100 * dec_rat m e\<bar> \<le> 1 / 2 + dec_rat m e / 2 ^ 44 + 1 / 2 ^ 1060"
    using percent_bound [OF assms(4,5)] by (auto simp: percent_def)
  then show ?thesis
    using assms(1-3) by (simp add: factor_row_def item_prop_def get_prop_def react_child_def) blast
qed

theorem breakdown_percent_shown_witness:
  "\<exists>r. factor_row (JObj [(js ''factor'', JStr (js ''f'')), (js ''value'', JNum 25 (-2)),
                          (js ''explanation'', JStr (js ''x''))]) = Inr r \<and>
     render_v r = Inr (Element (js ''p'') [] [Text (js ''f''), Text (js '': ''), Text (nat_str 25), Text (js ''% - ''),
                                            Text (js ''x'')])"
proof -
  have q: "dec_rat 25 (-2) = 1 / 4" by (simp add: dec_rat_def)
  obtain r n where r: "factor_row (JObj [(js ''factor'', JStr (js ''f'')), (js ''value'', JNum 25 (-2)),
                          (js ''explanation'', JStr (js ''x''))]) = Inr r"
    "render_v r = Inr (Element (js ''p'') [] [Text (js ''f''), Text (js '': ''), Text (nat_str n), Text (js ''% - ''),
                                            Text (js ''x'')])"
    and b: "\<bar>of_nat n - 100 * dec_rat 25 (-2)\<bar> \<le> 1 / 2 + dec_rat 25 (-2) / 2 ^ 44 + 1 / 2 ^ 1060"
    using breakdown_percent_shown [of "[(js ''factor'', JStr (js ''f'')), (js ''value'', JNum 25 (-2)),
                          (js ''explanation'', JStr (js ''x''))]" "js ''f''" 25 "-2" "js ''x''"]
    by (auto simp: q)
  have "of_nat n > (24 :: rat)" "of_nat n < (26 :: rat)"
    using b unfolding q abs_le_iff by simp_all
  then have "n = 25" by simp
  then show ?thesis using r by blast
qed

text \<open>
  The \<open>.catch\<close> of the tools chain covers the fetch and the parsing, not the
  render: a backend whose \<open>results\<close> is a non-empty string makes
  \<open>tools.map\<close> throw, also for a well-typed assessment, and the dashboard is
  replaced by the error page once the tools arrive.
\<close>

lemma string_results_crash_board:
  \<open>dash_screen ((\<lambda>_. None)(assessment_key \<mapsto>
       js ''{"score":1,"summary":"s","breakdown":[],"suggested_focus":[]}''))
       (\<lambda>_. Answer \<lparr>status = 200, resp_text = js ''{"results":"x"}''\<rparr>) = Crashed TypeError\<close>
  by (simp add: model_defs dec_digits.simps)

end
