(* ===== verification/JsonRoundtrip.thy ===== *)
theory JsonRoundtrip
  imports Json
begin

text \<open>
  \<open>JSON.parse\<close> inverts \<open>JSON.stringify\<close> on the values \<open>JSON.parse\<close> itself
  produces: numbers in normal form (\<open>wf_num\<close>), objects whose keys are in
  \<open>OrdinaryOwnPropertyKeys\<close> order (\<open>canon_props\<close>). The lemmas go through the
  printer piece by piece: string escapes (\<open>parse_chars_quote_units\<close>), the four
  formats of \<open>Number::toString\<close> (\<open>parse_pos_num_str\<close>), and arrays and objects
  (\<open>parse_roundtrip\<close>), with enough fuel taken from the fuel lemmas of \<open>Json\<close>.
\<close>

text \<open>What may follow a number literal without extending it.\<close>

definition num_stop :: "jstr \<Rightarrow> bool" where
  "num_stop r \<longleftrightarrow> (case r of [] \<Rightarrow> True | c # _ \<Rightarrow> \<not> is_digit c \<and> c \<noteq> 0x2E \<and> c \<noteq> 0x65 \<and> c \<noteq> 0x45)"

text \<open>The part of \<open>parse_number\<close> after the integer digits.\<close>

definition frac_exp :: "bool \<Rightarrow> jstr \<Rightarrow> jstr \<Rightarrow> (json \<times> jstr) option" where
  "frac_exp neg ip rest =
     (case rest of
        d # r2 \<Rightarrow>
          if d = 0x2E then
            (if takeWhile is_digit r2 = [] then None
             else case parse_exp (dropWhile is_digit r2) of
               None \<Rightarrow> None
             | Some (e, s4) \<Rightarrow> Some (mk_num neg (map digit_val (ip @ takeWhile is_digit r2))
                                      (e - int (length (takeWhile is_digit r2))), s4))
          else (case parse_exp rest of None \<Rightarrow> None | Some (e, s4) \<Rightarrow> Some (mk_num neg (map digit_val ip) e, s4))
      | [] \<Rightarrow> (case parse_exp rest of None \<Rightarrow> None | Some (e, s4) \<Rightarrow> Some (mk_num neg (map digit_val ip) e, s4)))"

abbreviation exp_chars :: "int \<Rightarrow> jstr" where
  "exp_chars x \<equiv> (if x < 0 then 0x2D else 0x2B) # map dec_char (dec_digits (nat \<bar>x\<bar>))"

text \<open>A number in the normal form \<open>mk_num\<close> produces.\<close>

definition wf_num :: "int \<Rightarrow> int \<Rightarrow> bool" where
  "wf_num m e \<longleftrightarrow> (if m = 0 then e = 0 else \<not> 10 dvd m)"

text \<open>Keys in the order \<open>OrdinaryOwnPropertyKeys\<close> lists them.\<close>

definition key_before :: "jstr \<Rightarrow> jstr \<Rightarrow> bool" where
  "key_before a b =
     (case (array_index a, array_index b) of
        (Some i, Some j) \<Rightarrow> i < j
      | (Some _, None) \<Rightarrow> True
      | (None, Some _) \<Rightarrow> False
      | (None, None) \<Rightarrow> a \<noteq> b)"

definition canon_props :: "props \<Rightarrow> bool" where
  "canon_props ps \<longleftrightarrow> sorted_wrt key_before (map fst ps)"

fun wf_json :: "json \<Rightarrow> bool"
and wf_list :: "json list \<Rightarrow> bool"
and wf_props :: "props \<Rightarrow> bool" where
  "wf_json (JNum m e) = wf_num m e"
| "wf_json (JArr xs) = wf_list xs"
| "wf_json (JObj ps) = (canon_props ps \<and> wf_props ps)"
| "wf_json _ = True"
| "wf_list [] = True"
| "wf_list (x # xs) = (wf_json x \<and> wf_list xs)"
| "wf_props [] = True"
| "wf_props ((k, v) # ps) = (wf_json v \<and> wf_props ps)"

lemma unat_hex_digit: "d < 16 \<Longrightarrow> unat (hex_digit d) = (if d < 10 then 48 + d else 87 + d)"
  unfolding hex_digit_def by (simp add: unat_of_nat del: of_nat_add)

lemma hex_val_hex_digit: "d < 16 \<Longrightarrow> hex_val (hex_digit d) = Some d"
  by (simp add: hex_val_def word_le_nat_alt unat_hex_digit)

lemma nat_hex4: "((n div 4096 * 16 + n div 256 mod 16) * 16 + n div 16 mod 16) * 16 + n mod 16 = (n::nat)"
proof -
  have a: "n div 4096 * 16 + n div 256 mod 16 = n div 256"
    using div_mult_mod_eq [of "n div 256" 16] by (simp add: div_mult2_eq [symmetric])
  have b: "n div 256 * 16 + n div 16 mod 16 = n div 16"
    using div_mult_mod_eq [of "n div 16" 16] by (simp add: div_mult2_eq [symmetric])
  have c: "n div 16 * 16 + n mod 16 = n"
    by (rule div_mult_mod_eq)
  show ?thesis
    by (simp only: a b c)
qed

lemma hex4_unicode_escape:
  "hex4 (hex_digit (unat c div 4096)) (hex_digit (unat c div 256 mod 16))
        (hex_digit (unat c div 16 mod 16)) (hex_digit (unat (c :: cu) mod 16)) = Some c"
proof -
  have "unat c < 65536"
    using unsigned_less [of c] by simp
  then have "unat c div 4096 < 16" by simp
  then have "hex4 (hex_digit (unat c div 4096)) (hex_digit (unat c div 256 mod 16))
        (hex_digit (unat c div 16 mod 16)) (hex_digit (unat c mod 16)) =
      Some (word_of_nat (((unat c div 4096 * 16 + unat c div 256 mod 16) * 16
        + unat c div 16 mod 16) * 16 + unat c mod 16))"
    by (simp only: hex4_def hex_val_hex_digit mod_less_divisor zero_less_numeral prod.case
        option.case)
  also have "\<dots> = Some c"
    by (simp only: nat_hex4) simp
  finally show ?thesis .
qed

lemma parse_chars_quote_unit:
  "parse_chars acc (quote_unit c @ rest) = parse_chars (acc @ [c]) rest"
proof -
  have esc: "parse_chars acc (unicode_escape c @ rest) = parse_chars (acc @ [c]) rest"
    by (simp add: unicode_escape_def hex4_unicode_escape)
  show ?thesis
    unfolding quote_unit_def
    by (simp add: esc simple_escape_def)
qed

lemma surrogate_plain: "is_lead c \<or> is_trail c \<Longrightarrow> c \<noteq> 0x22 \<and> c \<noteq> 0x5C \<and> \<not> c < 0x20"
  by (auto simp: is_lead_def is_trail_def word_le_nat_alt word_less_nat_alt)

lemma parse_chars_quote_units:
  "parse_chars acc (quote_units s @ 0x22 # r) = Some (acc @ s, r)"
proof (induction s arbitrary: acc rule: quote_units.induct)
  case (3 c d cs)
  then show ?case
    using surrogate_plain [of c] surrogate_plain [of d]
    by (simp add: parse_chars_quote_unit)
qed (simp_all add: parse_chars_quote_unit)

lemma dec_digits_ne [simp]: "dec_digits n \<noteq> []"
  by (induction n rule: dec_digits.induct) (subst dec_digits.simps, simp)

lemma digits_value_snoc [simp]: "digits_value (ds @ [d]) = 10 * digits_value ds + d"
  by (simp add: digits_value_def)

lemma digits_value_dec_digits [simp]: "digits_value (dec_digits n) = n"
  by (induction n rule: dec_digits.induct) (subst dec_digits.simps, simp add: digits_value_def)

lemma hd_dec_digits: "n \<noteq> 0 \<Longrightarrow> hd (dec_digits n) \<noteq> 0"
  by (induction n rule: dec_digits.induct) (subst dec_digits.simps, simp)

lemma last_dec_digits: "last (dec_digits n) = n mod 10"
  by (subst dec_digits.simps) simp

lemma digits_value_zeros [simp]: "digits_value (replicate k 0 @ ds) = digits_value ds"
proof -
  have "foldl (\<lambda>acc d. 10 * acc + d) (0::nat) (replicate k 0) = 0"
    by (induction k) auto
  then show ?thesis
    by (simp add: digits_value_def)
qed

lemma digit_val_dec_char [simp]: "d < 10 \<Longrightarrow> digit_val (dec_char d) = d"
  by (simp add: digit_val_def dec_char_def unat_of_nat del: of_nat_add)

lemma is_digit_dec_char [simp]: "d < 10 \<Longrightarrow> is_digit (dec_char d)"
  by (simp add: is_digit_def dec_char_def word_le_nat_alt unat_of_nat del: of_nat_add)

lemma dec_char_zero: "d < 10 \<Longrightarrow> dec_char d = 0x30 \<longleftrightarrow> d = 0"
proof
  assume "d < 10" "dec_char d = 0x30"
  then have "d = digit_val 0x30"
    using digit_val_dec_char [of d] by simp
  then show "d = 0"
    by (simp add: digit_val_def)
qed (simp add: dec_char_def)

lemma map_digit_val_dec: "map digit_val (map dec_char (dec_digits n)) = dec_digits n"
  by (simp add: map_idI dec_digits_lt)

lemma takeWhile_zeros:
  "takeWhile (\<lambda>d. d = (0::nat)) (replicate z 0 @ ys) = replicate z 0 @ takeWhile (\<lambda>d. d = 0) ys"
  by (induction z) auto

lemma dropWhile_zeros:
  "dropWhile (\<lambda>d. d = (0::nat)) (replicate z 0 @ ys) = dropWhile (\<lambda>d. d = 0) ys"
  by (induction z) auto

lemma mk_num_digits:
  assumes "m \<noteq> 0" "\<not> 10 dvd m"
  shows "mk_num neg (replicate a 0 @ dec_digits m @ replicate z 0) e =
    JNum (if neg then - int m else int m) (e + int z)"
proof -
  obtain ds d where ds: "dec_digits m = ds @ [d]"
    by (metis dec_digits_ne rev_exhaust)
  have "d = m mod 10"
    using last_dec_digits [of m] ds by simp
  then have d: "d \<noteq> 0"
    using assms(2) by presburger
  have r: "rev (replicate a 0 @ dec_digits m @ replicate z 0) =
      replicate z 0 @ d # rev ds @ replicate a 0"
    by (simp add: ds)
  have "takeWhile (\<lambda>d. d = 0) (rev (replicate a 0 @ dec_digits m @ replicate z 0)) = replicate z 0"
    unfolding r using d by (simp add: takeWhile_zeros)
  moreover have "rev (dropWhile (\<lambda>d. d = 0) (rev (replicate a 0 @ dec_digits m @ replicate z 0)))
      = replicate a 0 @ dec_digits m"
    unfolding r using d by (simp add: dropWhile_zeros ds)
  ultimately show ?thesis
    using assms(1) by (simp add: mk_num_def)
qed

lemma mk_num_digits_z:
  "m \<noteq> 0 \<Longrightarrow> \<not> 10 dvd m \<Longrightarrow>
   mk_num neg (dec_digits m @ replicate z 0) e = JNum (if neg then - int m else int m) (e + int z)"
  using mk_num_digits [of m neg 0 z e] by simp

lemma mk_num_digits_1:
  "m \<noteq> 0 \<Longrightarrow> \<not> 10 dvd m \<Longrightarrow> mk_num neg (dec_digits m) e = JNum (if neg then - int m else int m) e"
  using mk_num_digits [of m neg 0 0 e] by simp

lemma mk_num_digits_lead:
  "m \<noteq> 0 \<Longrightarrow> \<not> 10 dvd m \<Longrightarrow>
   mk_num neg (0 # replicate z 0 @ dec_digits m) e = JNum (if neg then - int m else int m) e"
  using mk_num_digits [of m neg "Suc z" 0 e] by simp

lemma parse_exp_none: "num_stop r \<Longrightarrow> parse_exp r = Some (0, r)"
  by (cases r) (auto simp: parse_exp_def num_stop_def)

lemma takeWhile_digits:
  "\<forall>d \<in> set ds. d < 10 \<Longrightarrow>
   takeWhile is_digit (map dec_char ds @ r) = map dec_char ds @ takeWhile is_digit r"
  by (induction ds) auto

lemma dropWhile_digits:
  "\<forall>d \<in> set ds. d < 10 \<Longrightarrow> dropWhile is_digit (map dec_char ds @ r) = dropWhile is_digit r"
  by (induction ds) auto

lemma parse_number_int_part:
  assumes "ip \<noteq> []" "list_all is_digit ip" "hd ip \<noteq> 0x30 \<or> ip = [0x30]"
    "rest = [] \<or> \<not> is_digit (hd rest)"
  shows "parse_number ((if neg then [0x2D] else []) @ ip @ rest) = frac_exp neg ip rest"
proof -
  obtain c ip0 where ip: "ip = c # ip0"
    using assms(1) by (cases ip) auto
  have c: "is_digit c" "c \<noteq> 0x2D"
    using assms(2) ip by (auto simp: is_digit_def)
  have tw: "takeWhile is_digit rest = []"
    using assms(4) by (cases rest) auto
  have ipw: "(if c = 0x30 then [c] else takeWhile is_digit (c # ip0 @ rest)) = c # ip0"
    using assms(2,3) ip tw by (auto simp: takeWhile_append2 list_all_iff)
  have s1: "(case (if neg then [0x2D] else []) @ ip @ rest of
              c # r \<Rightarrow> if c = 0x2D then (True, r) else (False, (if neg then [0x2D] else []) @ ip @ rest)
            | [] \<Rightarrow> (False, (if neg then [0x2D] else []) @ ip @ rest)) = (neg, c # ip0 @ rest)"
    using c ip by (cases neg) simp_all
  show ?thesis
    unfolding parse_number_def s1 prod.case list.case Let_def ipw
    using c ip by (simp add: frac_exp_def split: list.split option.split)
qed

lemma dec_digits_all: "\<forall>d \<in> set (dec_digits n). d < 10"
  using dec_digits_lt by blast

lemma map_digit_val_dec_comp [simp]: "map (digit_val \<circ> dec_char) (dec_digits n) = dec_digits n"
  by (rule map_idI) (simp add: dec_digits_lt)

lemma digits_chars:
  "list_all is_digit (map dec_char (dec_digits n))"
  "map digit_val (map dec_char (dec_digits n)) = dec_digits n"
  using dec_digits_lt by (auto simp: list_all_iff)

lemma hd_digits_char: "n \<noteq> 0 \<Longrightarrow> hd (map dec_char (dec_digits n)) \<noteq> 0x30"
  using hd_dec_digits [of n] dec_digits_lt [of "hd (dec_digits n)" n] dec_char_zero
  by (simp add: hd_map)

lemma zero_chars:
  "list_all is_digit (replicate j (0x30::cu))" "map digit_val (replicate j (0x30::cu)) = replicate j 0"
  by (simp_all add: list_all_iff is_digit_def digit_val_def)

lemma num_stop_no_digit: "num_stop r \<Longrightarrow> r = [] \<or> \<not> is_digit (hd r)"
  by (cases r) (auto simp: num_stop_def)

lemma parse_exp_signed:
  assumes "r = [] \<or> \<not> is_digit (hd r)"
  shows "parse_exp (0x65 # (if x < 0 then 0x2D else 0x2B) # map dec_char (dec_digits (nat \<bar>x\<bar>)) @ r)
    = Some (x, r)"
proof -
  have r: "takeWhile is_digit r = []" "dropWhile is_digit r = r"
    using assms by (cases r; auto)+
  show ?thesis
  proof (cases "x < 0")
    case True
    then show ?thesis
      using r by (simp add: parse_exp_def takeWhile_digits dropWhile_digits dec_digits_all)
  next
    case False
    then show ?thesis
      using r by (simp add: parse_exp_def takeWhile_digits dropWhile_digits dec_digits_all)
  qed
qed

lemma frac_exp_stop: "num_stop r \<Longrightarrow> frac_exp neg ip r = Some (mk_num neg (map digit_val ip) 0, r)"
  by (cases r) (auto simp: frac_exp_def num_stop_def parse_exp_none)

lemma frac_exp_dot:
  assumes "fds \<noteq> []" "list_all is_digit fds" "rest2 = [] \<or> \<not> is_digit (hd rest2)"
  shows "frac_exp neg ip (0x2E # fds @ rest2) =
    (case parse_exp rest2 of None \<Rightarrow> None
     | Some (x, s4) \<Rightarrow> Some (mk_num neg (map digit_val (ip @ fds)) (x - int (length fds)), s4))"
proof -
  have "takeWhile is_digit (fds @ rest2) = fds" "dropWhile is_digit (fds @ rest2) = rest2"
    using assms(2,3) by (cases rest2; simp add: takeWhile_append2 dropWhile_append2 list_all_iff)+
  then show ?thesis
    using assms(1) by (simp add: frac_exp_def split: option.split)
qed

lemma frac_exp_exp:
  "frac_exp neg ip (0x65 # t) =
    (case parse_exp (0x65 # t) of None \<Rightarrow> None | Some (x, s4) \<Rightarrow> Some (mk_num neg (map digit_val ip) x, s4))"
  by (simp add: frac_exp_def)

lemma digits_prefix:
  "0 < j \<Longrightarrow> m \<noteq> 0 \<Longrightarrow>
   take j (map dec_char (dec_digits m)) \<noteq> [] \<and>
   list_all is_digit (take j (map dec_char (dec_digits m))) \<and>
   hd (take j (map dec_char (dec_digits m))) \<noteq> 0x30"
  using digits_chars(1) [of m] hd_digits_char [of m]
  by (auto simp: list_all_iff dest!: in_set_takeD)

lemma digits_suffix:
  "j < length (dec_digits m) \<Longrightarrow>
   drop j (map dec_char (dec_digits m)) \<noteq> [] \<and> list_all is_digit (drop j (map dec_char (dec_digits m)))"
  using digits_chars(1) [of m] by (auto simp: list_all_iff dest!: in_set_dropD)

lemma digit_val_zero [simp]: "digit_val 0x30 = 0"
  by (simp add: digit_val_def)

lemma digits_chars_ne: "map dec_char (dec_digits m) \<noteq> []"
  by simp

lemma parse_fmt_int:
  assumes "m \<noteq> 0" "\<not> 10 dvd m" "num_stop r"
  shows "parse_number ((if neg then [0x2D] else []) @ (map dec_char (dec_digits m) @ replicate j 0x30) @ r)
    = Some (JNum (if neg then - int m else int m) (int j), r)"
proof -
  have "parse_number ((if neg then [0x2D] else []) @ (map dec_char (dec_digits m) @ replicate j 0x30) @ r)
      = frac_exp neg (map dec_char (dec_digits m) @ replicate j 0x30) r"
    using assms digits_chars(1) [of m] hd_digits_char [of m] zero_chars(1) [of j]
    by (intro parse_number_int_part) (auto simp: num_stop_no_digit)
  also have "\<dots> = Some (mk_num neg (dec_digits m @ replicate j 0) 0, r)"
    using assms(3) by (simp add: frac_exp_stop digits_chars(2) zero_chars(2))
  finally show ?thesis
    using assms(1,2) by (simp add: mk_num_digits_z)
qed

lemma parse_fmt_point:
  assumes "m \<noteq> 0" "\<not> 10 dvd m" "num_stop r" "0 < j" "j < length (dec_digits m)"
  shows "parse_number ((if neg then [0x2D] else []) @
      (take j (map dec_char (dec_digits m)) @ 0x2E # drop j (map dec_char (dec_digits m))) @ r)
    = Some (JNum (if neg then - int m else int m) (- int (length (dec_digits m) - j)), r)"
proof -
  let ?D = "map dec_char (dec_digits m)"
  have "parse_number ((if neg then [0x2D] else []) @ (take j ?D @ 0x2E # drop j ?D) @ r)
      = parse_number ((if neg then [0x2D] else []) @ take j ?D @ (0x2E # drop j ?D @ r))"
    by simp
  also have "\<dots> = frac_exp neg (take j ?D) (0x2E # drop j ?D @ r)"
    using assms digits_prefix [of j m] by (intro parse_number_int_part) (auto simp: is_digit_def)
  also have "\<dots> = (case parse_exp r of None \<Rightarrow> None
     | Some (x, s4) \<Rightarrow> Some (mk_num neg (map digit_val (take j ?D @ drop j ?D)) (x - int (length (drop j ?D))), s4))"
    using assms(3,5) digits_suffix [of j m] by (intro frac_exp_dot) (auto simp: num_stop_no_digit)
  also have "\<dots> = Some (mk_num neg (dec_digits m) (- int (length (dec_digits m) - j)), r)"
    using assms(3,5) by (simp add: parse_exp_none digits_chars(2) del: map_append)
  finally show ?thesis
    using assms(1,2) by (simp add: mk_num_digits_1)
qed

lemma parse_fmt_small:
  assumes "m \<noteq> 0" "\<not> 10 dvd m" "num_stop r"
  shows "parse_number ((if neg then [0x2D] else []) @
      ([0x30, 0x2E] @ replicate z 0x30 @ map dec_char (dec_digits m)) @ r)
    = Some (JNum (if neg then - int m else int m) (- int (z + length (dec_digits m))), r)"
proof -
  let ?D = "map dec_char (dec_digits m)"
  have "parse_number ((if neg then [0x2D] else []) @ ([0x30, 0x2E] @ replicate z 0x30 @ ?D) @ r)
      = parse_number ((if neg then [0x2D] else []) @ [0x30] @ (0x2E # (replicate z 0x30 @ ?D) @ r))"
    by simp
  also have "\<dots> = frac_exp neg [0x30] (0x2E # (replicate z 0x30 @ ?D) @ r)"
    by (intro parse_number_int_part) (auto simp: is_digit_def)
  also have "\<dots> = (case parse_exp r of None \<Rightarrow> None
     | Some (x, s4) \<Rightarrow> Some (mk_num neg (map digit_val ([0x30] @ replicate z 0x30 @ ?D))
                               (x - int (length (replicate z 0x30 @ ?D))), s4))"
    using assms(3) digits_chars(1) [of m] zero_chars(1) [of z]
    by (intro frac_exp_dot) (auto simp: num_stop_no_digit)
  also have "\<dots> = Some (mk_num neg (0 # replicate z 0 @ dec_digits m)
      (- int (z + length (dec_digits m))), r)"
    using assms(3) by (simp add: parse_exp_none digits_chars(2) zero_chars(2))
  finally show ?thesis
    using assms(1,2) by (simp add: mk_num_digits_lead)
qed

lemma parse_fmt_exp1:
  assumes "m \<noteq> 0" "\<not> 10 dvd m" "num_stop r" "length (dec_digits m) = 1"
  shows "parse_number ((if neg then [0x2D] else []) @ (map dec_char (dec_digits m) @ 0x65 # exp_chars x) @ r)
    = Some (JNum (if neg then - int m else int m) x, r)"
proof -
  let ?D = "map dec_char (dec_digits m)"
  have "parse_number ((if neg then [0x2D] else []) @ (?D @ 0x65 # exp_chars x) @ r)
      = parse_number ((if neg then [0x2D] else []) @ ?D @ (0x65 # exp_chars x @ r))"
    by simp
  also have "\<dots> = frac_exp neg ?D (0x65 # exp_chars x @ r)"
    using assms(1) digits_chars(1) [of m] hd_digits_char [of m]
    by (intro parse_number_int_part) (auto simp: is_digit_def)
  also have "\<dots> = Some (mk_num neg (dec_digits m) x, r)"
    using parse_exp_signed [of r x] assms(3)
    by (simp add: frac_exp_exp num_stop_no_digit digits_chars(2))
  finally show ?thesis
    using assms(1,2) by (simp add: mk_num_digits_1)
qed

lemma parse_fmt_exp:
  assumes "m \<noteq> 0" "\<not> 10 dvd m" "num_stop r" "1 < length (dec_digits m)"
  shows "parse_number ((if neg then [0x2D] else []) @
      (take 1 (map dec_char (dec_digits m)) @ 0x2E # drop 1 (map dec_char (dec_digits m)) @
       0x65 # exp_chars x) @ r)
    = Some (JNum (if neg then - int m else int m) (x - int (length (dec_digits m) - 1)), r)"
proof -
  let ?D = "map dec_char (dec_digits m)"
  have "parse_number ((if neg then [0x2D] else []) @ (take 1 ?D @ 0x2E # drop 1 ?D @ 0x65 # exp_chars x) @ r)
      = parse_number ((if neg then [0x2D] else []) @ take 1 ?D @ (0x2E # drop 1 ?D @ (0x65 # exp_chars x @ r)))"
    by simp
  also have "\<dots> = frac_exp neg (take 1 ?D) (0x2E # drop 1 ?D @ (0x65 # exp_chars x @ r))"
    using assms digits_prefix [of 1 m] by (intro parse_number_int_part) (auto simp: is_digit_def)
  also have "\<dots> = (case parse_exp (0x65 # exp_chars x @ r) of None \<Rightarrow> None
     | Some (y, s4) \<Rightarrow> Some (mk_num neg (map digit_val (take 1 ?D @ drop 1 ?D)) (y - int (length (drop 1 ?D))), s4))"
    using assms(4) digits_suffix [of 1 m] by (intro frac_exp_dot) (auto simp: is_digit_def)
  also have "\<dots> = Some (mk_num neg (dec_digits m) (x - int (length (dec_digits m) - 1)), r)"
    using parse_exp_signed [of r x] assms(3)
    by (simp add: num_stop_no_digit digits_chars(2) del: map_append)
  finally show ?thesis
    using assms(1,2) by (simp add: mk_num_digits_1)
qed

lemma parse_pos_num_str:
  assumes "a \<noteq> 0" "\<not> 10 dvd a" "num_stop r"
  shows "parse_number ((if neg then [0x2D] else []) @ pos_num_str a e @ r)
    = Some (JNum (if neg then - int a else int a) e, r)"
proof -
  let ?D = "map dec_char (dec_digits a)"
  let ?k = "int (length (dec_digits a))"
  let ?n = "?k + e"
  have k1: "1 \<le> length (dec_digits a)"
    by (simp add: Suc_le_eq)
  consider (A) "?k \<le> ?n \<and> ?n \<le> 21" | (B) "\<not> (?k \<le> ?n \<and> ?n \<le> 21)" "0 < ?n \<and> ?n \<le> 21"
    | (C) "\<not> (?k \<le> ?n \<and> ?n \<le> 21)" "\<not> (0 < ?n \<and> ?n \<le> 21)" "-6 < ?n \<and> ?n \<le> 0"
    | (D) "\<not> (?k \<le> ?n \<and> ?n \<le> 21)" "\<not> (0 < ?n \<and> ?n \<le> 21)" "\<not> (-6 < ?n \<and> ?n \<le> 0)"
    by linarith
  then show ?thesis
  proof cases
    case A
    then have "pos_num_str a e = ?D @ replicate (nat e) 0x30"
      by (simp add: pos_num_str_def Let_def)
    with A show ?thesis
      using parse_fmt_int [OF assms, of neg "nat e"] by simp
  next
    case B
    then have "pos_num_str a e = take (nat ?n) ?D @ 0x2E # drop (nat ?n) ?D"
      by (simp add: pos_num_str_def Let_def)
    moreover have "0 < nat ?n" "nat ?n < length (dec_digits a)"
      using B by linarith+
    ultimately show ?thesis
      using parse_fmt_point [OF assms, of "nat ?n" neg] by (simp add: of_nat_diff)
  next
    case C
    then have "pos_num_str a e = [0x30, 0x2E] @ replicate (nat (- ?n)) 0x30 @ ?D"
      by (simp add: pos_num_str_def Let_def)
    with C show ?thesis
      using parse_fmt_small [OF assms, of neg "nat (- ?n)"] by simp
  next
    case D
    have base: "pos_num_str a e = (if ?k = 1 then ?D @ 0x65 # exp_chars (?n - 1)
        else take 1 ?D @ 0x2E # drop 1 ?D @ 0x65 # exp_chars (?n - 1))"
      unfolding pos_num_str_def Let_def length_map using D by (simp only: if_False)
    show ?thesis
    proof (cases "length (dec_digits a) = 1")
      case True
      then show ?thesis
        using base parse_fmt_exp1 [OF assms True, of neg "?n - 1"] by simp
    next
      case False
      then have "1 < length (dec_digits a)"
        using k1 by linarith
      then show ?thesis
        using base False parse_fmt_exp [OF assms, of neg "?n - 1"] k1 by (simp add: of_nat_diff)
    qed
  qed
qed

lemma parse_num_str:
  assumes "wf_num m e" "num_stop r"
  shows "parse_number (num_str m e @ r) = Some (JNum m e, r)"
proof (cases "m = 0")
  case True
  have "parse_number ((if False then [0x2D] else []) @ [0x30] @ r) = frac_exp False [0x30] r"
    using num_stop_no_digit [OF assms(2)] by (intro parse_number_int_part) (auto simp: is_digit_def)
  then show ?thesis
    using True assms by (simp add: num_str_def frac_exp_stop wf_num_def mk_num_def digits_value_def)
next
  case False
  have "\<not> 10 dvd m"
    using False assms(1) by (simp add: wf_num_def)
  then have nd: "\<not> 10 dvd nat \<bar>m\<bar>"
    by (simp add: int_dvd_int_iff [symmetric])
  show ?thesis
  proof (cases "m < 0")
    case True
    then show ?thesis
      using parse_pos_num_str [of "nat \<bar>m\<bar>" r True e] nd False assms(2)
      by (simp add: num_str_def)
  next
    case neg: False
    then show ?thesis
      using parse_pos_num_str [of "nat \<bar>m\<bar>" r False e] nd False assms(2)
      by (simp add: num_str_def)
  qed
qed

lemma pos_num_str_digit: "pos_num_str m e \<noteq> [] \<and> is_digit (hd (pos_num_str m e))"
proof -
  have d: "is_digit (hd (map dec_char (dec_digits m)))"
    using digits_chars(1) [of m] by (cases "dec_digits m") auto
  show ?thesis
    unfolding pos_num_str_def Let_def
    using d by (auto simp: is_digit_def)
qed

lemma num_str_Cons: "\<exists>c t. num_str m e = c # t \<and> (c = 0x2D \<or> is_digit c)"
  using pos_num_str_digit [of "nat (- m)" e] pos_num_str_digit [of "nat m" e]
  by (cases "pos_num_str (nat m) e") (auto simp: num_str_def is_digit_def neq_Nil_conv)

lemma stringify_Cons: "\<exists>c t. stringify v = c # t \<and> \<not> is_ws c \<and> c \<noteq> 0x5D \<and> c \<noteq> 0x7D"
proof (cases v)
  case (JNum m e)
  then show ?thesis
    using num_str_Cons [of m e] by (auto simp: is_ws_def is_digit_def)
qed (auto simp: is_ws_def quote_json_def)

lemma key_before_neq: "key_before a b \<Longrightarrow> a \<noteq> b"
  by (auto simp: key_before_def split: option.splits)

lemma insert_index_key_last:
  "\<forall>(a, _) \<in> set ps. \<exists>i'. array_index a = Some i' \<and> i' < i \<Longrightarrow>
   insert_index_key i k v ps = ps @ [(k, v)]"
  by (induction ps) auto

lemma obj_set_canon_snoc:
  assumes "canon_props (ps @ [(k, v)])"
  shows "obj_set ps k v = ps @ [(k, v)]"
proof -
  have before: "\<forall>a \<in> set (map fst ps). key_before a k"
    using assms by (simp add: canon_props_def sorted_wrt_append)
  then have "k \<notin> set (map fst ps)"
    using key_before_neq by blast
  moreover have "insert_index_key i k v ps = ps @ [(k, v)]" if "array_index k = Some i" for i
    using before that
    by (intro insert_index_key_last) (auto simp: key_before_def split: option.splits)
  ultimately show ?thesis
    by (simp add: obj_set_def split: option.split)
qed

lemma foldl_obj_set_canon:
  "canon_props ps \<Longrightarrow> foldl (\<lambda>acc (k, v). obj_set acc k v) [] ps = ps"
proof (induction ps rule: rev_induct)
  case (snoc p ps)
  obtain k v where p: "p = (k, v)" by fastforce
  have "canon_props ps"
    using snoc.prems by (simp add: canon_props_def sorted_wrt_append)
  then show ?case
    using snoc p obj_set_canon_snoc [of ps k v] by simp
qed simp

lemma skip_ws_stringify: "skip_ws (stringify v @ r) = stringify v @ r"
  using stringify_Cons [of v] by (auto simp: skip_ws_def)

lemma num_stop_sep [simp]: "num_stop (0x2C # r)" "num_stop (0x5D # r)" "num_stop (0x7D # r)" "num_stop []"
  by (simp_all add: num_stop_def is_digit_def)

lemma skip_ws_sep [simp]:
  "skip_ws (0x2C # r) = 0x2C # r" "skip_ws (0x5D # r) = 0x5D # r" "skip_ws (0x7D # r) = 0x7D # r"
  "skip_ws (0x3A # r) = 0x3A # r" "skip_ws (0x22 # r) = 0x22 # r"
  by (simp_all add: skip_ws_def is_ws_def)

lemma parse_roundtrip:
  "wf_json v \<Longrightarrow> num_stop r \<Longrightarrow> size v < n \<Longrightarrow> parse_value n (stringify v @ r) = Some (v, r)"
  "wf_list xs \<Longrightarrow> xs \<noteq> [] \<Longrightarrow> size (JArr xs) \<le> n \<Longrightarrow>
     parse_elems n acc (stringify_elems xs @ 0x5D # r) = Some (JArr (acc @ xs), r)"
  "wf_props ps \<Longrightarrow> ps \<noteq> [] \<Longrightarrow> size (JObj ps) \<le> n \<Longrightarrow>
     parse_members n qs (stringify_members ps @ 0x7D # r) =
       Some (JObj (foldl (\<lambda>acc (k, v). obj_set acc k v) qs ps), r)"
proof (induction v and xs and ps arbitrary: n r and n acc r and n qs r
    rule: stringify_stringify_elems_stringify_members.induct)
  case 1
  then show ?case by (cases n) (simp_all add: skip_ws_def is_ws_def is_digit_def)
next
  case (2 b)
  then show ?case by (cases n) (simp_all add: skip_ws_def is_ws_def is_digit_def)
next
  case (3 m e)
  then obtain n' where n: "n = Suc n'" by (cases n) auto
  obtain c t where ct: "num_str m e = c # t" "c = 0x2D \<or> is_digit c"
    using num_str_Cons by blast
  have "parse_number (num_str m e @ r) = Some (JNum m e, r)"
    using 3 by (simp add: parse_num_str)
  moreover have "\<not> is_ws c" "c \<noteq> 0x7B" "c \<noteq> 0x5B" "c \<noteq> 0x22"
    using ct(2) by (auto simp: is_ws_def is_digit_def)
  ultimately show ?case
    using ct n by (simp add: skip_ws_def)
next
  case (4 s)
  then show ?case
    by (cases n) (simp_all add: quote_json_def parse_chars_quote_units)
next
  case (5 xs)
  then obtain n' where n: "n = Suc n'" by (cases n) auto
  show ?case
  proof (cases "xs = []")
    case True
    then show ?thesis using n by (simp add: skip_ws_def is_ws_def)
  next
    case False
    then obtain c t where ct: "stringify_elems xs @ 0x5D # r = c # t" "\<not> is_ws c" "c \<noteq> 0x5D"
      using stringify_Cons [of "hd xs"] by (cases xs rule: stringify_elems.cases) auto
    have "parse_value n (stringify (JArr xs) @ r) = parse_elems n' [] (stringify_elems xs @ 0x5D # r)"
      using ct n by (simp add: skip_ws_def is_ws_def)
    also have "\<dots> = Some (JArr xs, r)"
      using 5 n False by simp
    finally show ?thesis .
  qed
next
  case (6 ps)
  then obtain n' where n: "n = Suc n'" by (cases n) auto
  show ?case
  proof (cases "ps = []")
    case True
    then show ?thesis using n by (simp add: skip_ws_def is_ws_def)
  next
    case False
    then obtain k v ps' where "ps = (k, v) # ps'" by (cases ps) auto
    then obtain t where t: "stringify_members ps @ 0x7D # r = 0x22 # t"
      by (cases ps') (auto simp: quote_json_def)
    have "parse_value n (stringify (JObj ps) @ r) = parse_members n' [] (stringify_members ps @ 0x7D # r)"
      using t n by (simp add: skip_ws_def is_ws_def)
    also have "\<dots> = Some (JObj (foldl (\<lambda>acc (k, v). obj_set acc k v) [] ps), r)"
      using 6 n False by simp
    finally show ?thesis
      using 6 by (simp add: foldl_obj_set_canon)
  qed
next
  case 7
  then show ?case by simp
next
  case (8 x)
  then obtain n' where n: "n = Suc n'" by (cases n) auto
  then show ?case
    using 8 by (simp add: skip_ws_stringify)
next
  case (9 x y xs)
  then obtain n' where n: "n = Suc n'" by (cases n) auto
  then show ?case
    using 9 by (simp add: skip_ws_stringify)
next
  case 10
  then show ?case by simp
next
  case (11 k v)
  then obtain n' where n: "n = Suc n'" by (cases n) auto
  then show ?case
    using 11 by (simp add: quote_json_def parse_chars_quote_units)
next
  case (12 k v p ps)
  then obtain n' where n: "n = Suc n'" by (cases n) auto
  then show ?case
    using 12 by (simp add: quote_json_def parse_chars_quote_units)
qed


lemma digits_value_zero_iff: "digits_value ds = 0 \<longleftrightarrow> (\<forall>d \<in> set ds. d = 0)"
proof (induction ds rule: rev_induct)
  case (snoc d ds)
  then show ?case by auto
qed (simp add: digits_value_def)

lemma canonical_dec_digits:
  "ds \<noteq> [] \<Longrightarrow> \<forall>d \<in> set ds. d < 10 \<Longrightarrow> ds = [0] \<or> hd ds \<noteq> 0 \<Longrightarrow>
   dec_digits (digits_value ds) = ds"
proof (induction ds rule: rev_induct)
  case (snoc d xs)
  show ?case
  proof (cases "xs = []")
    case True
    then show ?thesis using snoc.prems by (subst dec_digits.simps) (simp add: digits_value_def)
  next
    case False
    have hd: "hd xs \<noteq> 0"
      using snoc.prems(3) False by (auto simp: hd_append)
    then have "digits_value xs \<noteq> 0"
      using False by (auto simp: digits_value_zero_iff neq_Nil_conv)
    moreover have "d < 10" using snoc.prems(2) by simp
    ultimately have "dec_digits (10 * digits_value xs + d) = dec_digits (digits_value xs) @ [d]"
      by (subst dec_digits.simps) simp
    moreover have "dec_digits (digits_value xs) = xs"
      using snoc.IH False snoc.prems(2) hd by simp
    ultimately show ?thesis by simp
  qed
qed simp

lemma dec_char_digit_val: "is_digit c \<Longrightarrow> dec_char (digit_val c) = c"
  by (simp add: is_digit_def dec_char_def digit_val_def word_le_nat_alt)

lemma unat_48: "unat (a :: cu) = 48 \<Longrightarrow> a = 0x30"
  by (simp add: word_unat_eq_iff)

lemma array_index_canonical:
  "array_index k = Some i \<Longrightarrow> k = map dec_char (dec_digits i)"
proof -
  assume a: "array_index k = Some i"
  then have k: "k \<noteq> []" "list_all is_digit k" "k = [0x30] \<or> hd k \<noteq> 0x30"
    and i: "i = digits_value (map digit_val k)"
    by (auto simp: array_index_def split: if_splits)
  have lt: "\<forall>d \<in> set (map digit_val k). d < 10"
    using k(2) by (auto simp: list_all_iff is_digit_def digit_val_def word_le_nat_alt)
  have "map digit_val k = [0] \<or> hd (map digit_val k) \<noteq> 0"
    using k by (cases k) (auto simp: is_digit_def digit_val_def word_le_nat_alt
        dest: unat_48)
  then have "dec_digits i = map digit_val k"
    using i k(1) lt by (simp add: canonical_dec_digits)
  then have "map dec_char (dec_digits i) = map (dec_char \<circ> digit_val) k" by simp
  also have "\<dots> = k"
    using k(2) by (induction k) (auto simp: dec_char_digit_val)
  finally show ?thesis by simp
qed

lemma array_index_inj: "array_index a = Some i \<Longrightarrow> array_index b = Some i \<Longrightarrow> a = b"
  using array_index_canonical by metis


lemma keys_insert_index_key:
  "set (map fst (insert_index_key i k v ps)) = insert k (set (map fst ps))"
proof (induction ps)
  case (Cons p ps)
  obtain a b where "p = (a, b)" by fastforce
  then show ?case
    using Cons.IH by (cases "array_index a") (auto simp: insert_commute)
qed simp

lemma sorted_insert_index_key:
  assumes "sorted_wrt key_before (map fst ps)" "k \<notin> set (map fst ps)" "array_index k = Some i"
  shows "sorted_wrt key_before (map fst (insert_index_key i k v ps))"
  using assms
proof (induction ps)
  case (Cons p ps)
  obtain k' v' where p: "p = (k', v')" by fastforce
  have rest: "\<forall>a \<in> set (map fst ps). key_before k' a" and sps: "sorted_wrt key_before (map fst ps)"
    using Cons.prems(1) p by auto
  show ?case
  proof (cases "array_index k'")
    case None
    then have "\<forall>a \<in> set (map fst ps). array_index a = None"
      using rest by (auto simp: key_before_def split: option.splits)
    then show ?thesis
      using Cons.prems p None by (auto simp: key_before_def)
  next
    case (Some i')
    show ?thesis
    proof (cases "i < i'")
      case True
      have "key_before k a" if "a \<in> set (map fst ps)" for a
        using rest that True Some Cons.prems(3)
        by (auto simp: key_before_def split: option.splits)
      then show ?thesis
        using Cons.prems p Some True by (auto simp: key_before_def)
    next
      case False
      moreover have "i' \<noteq> i"
        using array_index_inj [of k' i k] Cons.prems(2,3) Some p by auto
      ultimately have "key_before k' k"
        using Some Cons.prems(3) by (simp add: key_before_def)
      then have "\<forall>a \<in> set (map fst (insert_index_key i k v ps)). key_before k' a"
        using rest by (simp only: keys_insert_index_key) blast
      then show ?thesis
        using Cons.IH [OF sps] Cons.prems p Some False by simp
    qed
  qed
qed simp

lemma obj_set_canon: "canon_props ps \<Longrightarrow> canon_props (obj_set ps k v)"
proof -
  assume c: "canon_props ps"
  show ?thesis
  proof (cases "k \<in> set (map fst ps)")
    case True
    have h: "map (fst \<circ> (\<lambda>(k', v'). if k' = k then (k', v) else (k', v'))) ps = map fst ps"
      by (induction ps) auto
    show ?thesis
      using c True unfolding obj_set_def canon_props_def by (simp only: if_True map_map h)
  next
    case False
    show ?thesis
    proof (cases "array_index k")
      case None
      have "key_before a k" if "a \<in> set (map fst ps)" for a
        using that False None by (auto simp: key_before_def split: option.split)
      then show ?thesis
        using c False None by (simp add: obj_set_def canon_props_def sorted_wrt_append)
    next
      case (Some i)
      then show ?thesis
        using c False sorted_insert_index_key [of ps k i v]
        by (simp add: obj_set_def canon_props_def)
    qed
  qed
qed


lemma wf_props_iff: "wf_props ps \<longleftrightarrow> (\<forall>(k, v) \<in> set ps. wf_json v)"
  by (induction ps) auto

lemma wf_list_iff: "wf_list xs \<longleftrightarrow> (\<forall>x \<in> set xs. wf_json x)"
  by (induction xs) auto

lemma obj_set_wf: "wf_props ps \<Longrightarrow> wf_json v \<Longrightarrow> wf_props (obj_set ps k v)"
proof -
  assume a: "wf_props ps" "wf_json v"
  have "set (insert_index_key i k v ps) = insert (k, v) (set ps)" for i
  proof (induction ps)
    case (Cons p ps)
    obtain a b where "p = (a, b)" by fastforce
    then show ?case
      using Cons.IH by (cases "array_index a") (auto simp: insert_commute)
  qed simp
  then show ?thesis
    using a by (auto simp: obj_set_def wf_props_iff split: option.split if_splits)
qed

lemma mk_num_wf: "\<forall>d \<in> set ds. d < 10 \<Longrightarrow> wf_json (mk_num neg ds e)"
proof -
  assume lt: "\<forall>d \<in> set ds. d < 10"
  let ?w = "dropWhile (\<lambda>d. d = 0) (rev ds)"
  show ?thesis
  proof (cases "digits_value (rev ?w) = 0")
    case True
    then show ?thesis by (simp add: mk_num_def wf_num_def)
  next
    case False
    have w: "?w \<noteq> []"
    proof
      assume a: "?w = []"
      have "digits_value (rev ?w) = 0"
        unfolding a by (simp add: digits_value_def)
      with False show False by simp
    qed
    then obtain zs d where zs: "rev ?w = zs @ [d]"
      by (cases "rev ?w" rule: rev_cases) auto
    then have wd: "?w = d # rev zs"
      by (simp add: rev_swap)
    then have d0: "d \<noteq> 0"
      using hd_dropWhile [OF w] by simp
    have "d \<in> set (rev ds)"
      using wd set_dropWhileD [of d "\<lambda>d. d = 0" "rev ds"] by simp
    then have "d \<in> set ds" by simp
    then have d10: "d < 10"
      using lt by blast
    have "(10 * digits_value zs + d) mod 10 = d"
      using d10 by simp
    then have "\<not> 10 dvd digits_value (rev ?w)"
      using zs d0 by (simp add: dvd_eq_mod_eq_0)
    then have "\<not> (10::int) dvd int (digits_value (rev ?w))"
      by (simp add: int_dvd_int_iff [symmetric])
    then show ?thesis
      using False by (simp add: mk_num_def Let_def wf_num_def)
  qed
qed

lemma digit_val_lt [simp]: "is_digit c \<Longrightarrow> digit_val c < 10"
proof -
  assume "is_digit c"
  then have "48 \<le> unat c" "unat c \<le> 57"
    by (simp_all add: is_digit_def word_le_nat_alt)
  then show ?thesis
    by (simp add: digit_val_def)
qed

lemma digit_val_takeWhile [simp]: "x \<in> set (takeWhile is_digit xs) \<Longrightarrow> digit_val x < 10"
  by (auto dest: set_takeWhileD)

lemma parse_number_wf: "parse_number s = Some (v, r) \<Longrightarrow> wf_json v"
  by (auto simp: parse_number_def Let_def split: list.splits if_splits option.splits prod.splits)
     (auto intro!: mk_num_wf)


lemma wf_list_snoc: "wf_list (acc @ [x]) \<longleftrightarrow> wf_list acc \<and> wf_json x"
  by (auto simp: wf_list_iff)

lemma parse_wf:
  "parse_value n s = Some (v, r) \<Longrightarrow> wf_json v"
  "parse_elems n acc s = Some (v, r) \<Longrightarrow> wf_list acc \<Longrightarrow> wf_json v"
  "parse_members n ps s = Some (v, r) \<Longrightarrow> canon_props ps \<Longrightarrow> wf_props ps \<Longrightarrow> wf_json v"
proof (induction n s and n acc s and n ps s arbitrary: v r and v r and v r
    rule: parse_value_parse_elems_parse_members.induct)
  case (2 n s)
  then show ?case
    by (auto simp: canon_props_def split: list.splits if_splits option.splits
        dest: parse_number_wf)
next
  case (4 n acc s)
  then show ?case
    by (auto simp: wf_list_snoc split: list.splits if_splits option.splits)
next
  case (6 n ps s)
  then show ?case
    by (auto simp: obj_set_canon obj_set_wf split: list.splits if_splits option.splits)
qed simp_all

lemma parse_stringify: "wf_json v \<Longrightarrow> json_parse (stringify v) = Inr v"
proof -
  assume wf: "wf_json v"
  let ?s = "stringify v"
  let ?N = "max (Suc (size v)) (2 * length ?s + 1)"
  have "parse_value ?N (?s @ []) = Some (v, [])"
    using wf by (intro parse_roundtrip(1)) auto
  moreover have "parse_value ?N ?s = parse_value (2 * length ?s + 1) ?s"
    by (rule parse_fuel_enough) simp
  ultimately have "parse_value (2 * length ?s + 1) ?s = Some (v, [])"
    by simp
  then show ?thesis
    unfolding json_parse_def by (simp add: skip_ws_def)
qed

lemma json_parse_wf: "json_parse s = Inr v \<Longrightarrow> wf_json v"
  unfolding json_parse_def
  by (cases "parse_value (2 * length s + 1) s") (auto split: if_splits dest: parse_wf(1)
      simp del: parse_value.simps)

end
