(* ===== verification/Spec2Isabelle.thy ===== *)
theory Spec2Isabelle
  imports Navigation DashboardView JsonRoundtrip
begin

text \<open>
  \<^bold>\<open>A verification development of the JobShield AI web front end.\<close>

  \<^bold>\<open>The program.\<close> \<open>src/apps/web\<close> is a Next.js front end. Nearly all of it
  forwards requests: the admin API routes under \<open>app/api/admin\<close> call
  \<open>adminFetch\<close> (\<open>lib/admin-api.ts\<close>), which adds the admin key and turns an
  unsuccessful response into an exception; the pages under \<open>app/\<close> post forms
  and render JSON. The one piece of protocol logic is the handler \<open>generate\<close>
  of \<open>app/agent/page.tsx\<close>: it posts a request, reads the streamed response
  body fragment by fragment, decodes it as UTF-8, cuts the text at blank lines
  into frames, reads the \<open>event:\<close> and \<open>data:\<close> lines of each frame, parses the
  payload as JSON, appends a line to the progress log and, for the event
  \<open>result\<close>, stores \<open>agent_config\<close> in the result slot.

  \<^bold>\<open>The theories.\<close>
  \<^item> \<open>Prelude\<close>: the types of the model (a JavaScript string is a list of UTF-16
    code units, \<open>cu list\<close>; a fragment is a list of bytes), the exceptions
    \<open>js_error\<close>, literals, the collection \<open>model_defs\<close> and the search
    \<open>index_of\<close> on lists.
  \<^item> \<open>JsString\<close>: the ECMAScript builtins the handler calls: \<open>split\<close>, \<open>join\<close>,
    \<open>pop\<close>, \<open>|| ''\<close>, and \<open>match\<close> with \<open>/event: (.*)/\<close> and \<open>/data: (.*)/\<close>.
  \<^item> \<open>Json\<close>: \<open>JSON.parse\<close> (a recursive-descent parser of the ECMA-404 grammar
    with fuel), \<open>JSON.stringify\<close> (property order, string escapes, number
    printing) and property reads.
  \<^item> \<open>JsonRoundtrip\<close>: well-formed JSON values (\<open>wf_json\<close>: numbers in the
    normal form \<open>mk_num\<close> gives, object keys in enumeration order), the proof
    that \<open>JSON.parse\<close> inverts \<open>JSON.stringify\<close> on them (string escapes, the
    four formats of \<open>Number::toString\<close>, arrays and objects), and that every
    value \<open>JSON.parse\<close> returns is well-formed.
  \<^item> \<open>JsonPretty\<close>: \<open>JSON.stringify(v, null, 2)\<close> (\<open>pretty\<close>), which the
    agent console and the experiment detail page render, and \<open>minify\<close>, the
    removal of white space outside string literals it is compared with.
  \<^item> \<open>Utf8\<close>: the \<open>TextDecoder\<close>, the WHATWG UTF-8 decoder in streaming mode.
  \<^item> \<open>FrameDecoder\<close>: the Frame Decoder of the spec, lines 16 to 23 of
    \<open>app/agent/page.tsx\<close>: state \<open>frame_decoder\<close> (the decoder and the pending
    buffer), step \<open>feed\<close>, run \<open>feed_all\<close>, and the batch specification
    \<open>frames_of\<close>/\<open>pending_of\<close> it refines.
  \<^item> \<open>AgentConsole\<close>: the Event Dispatcher and the handler, lines 5 to 33: the
    React state \<open>ui\<close>, \<open>dispatch\<close>, \<open>dispatch_all\<close>, \<open>read_loop\<close>,
    \<open>read_assessment\<close>, \<open>agent_request_body\<close>, \<open>generate\<close>, and the result
    card \<open>agent_view\<close>.
  \<^item> \<open>UrlQuery\<close>: \<open>new URL(req.url).searchParams.get(name)\<close>, the WHATWG
    \<open>application/x-www-form-urlencoded\<close> parser (split at \<open>&\<close>, \<open>+\<close> to space,
    percent-decoding, UTF-8 decoding without BOM) and the first match.
  \<^item> \<open>AdminApi\<close>: \<open>adminFetch\<close> of \<open>lib/admin-api.ts\<close> (environment \<open>env\<close>, the
    Fetch \<open>Headers\<close> operations \<open>header_get\<close>/\<open>header_set\<close>, the request it
    sends, the errors it throws) and one definition per handler of the admin API
    routes (\<open>labels_GET\<close>, \<open>labels_POST\<close>, \<open>labels_recent_GET\<close>, \<open>compare_GET\<close>,
    \<open>experiments_GET\<close>, \<open>experiments_POST\<close>, \<open>experiment_PATCH\<close>,
    \<open>metrics_GET\<close>, \<open>runs_GET\<close>), each building its backend path and forwarding
    the backend's JSON through \<open>forward\<close>. The network is a function from the
    request to an answer or a failure, so every path through a handler is a
    value.
  \<^item> \<open>NextConfig\<close>: the rewrite of \<open>next.config.js\<close>, \<open>/api/py/:path*\<close> to the
    backend base URL.
  \<^item> \<open>JsValues\<close>: the conversions the pages apply: \<open>String.prototype.trim\<close>
    (\<open>js_trim\<close>), \<open>Number(s)\<close> (\<open>js_number\<close>, the \<open>StringToNumber\<close> grammar with
    \<open>Infinity\<close> and the \<open>0x\<close>/\<open>0o\<close>/\<open>0b\<close> forms, \<open>NaN\<close> otherwise), the
    template-literal \<open>ToString\<close> of a parsed value (\<open>template_val\<close>),
    \<open>ToBoolean\<close> (\<open>truthy\<close>), and TypeScript type annotations as the shape they
    promise of a JSON value (\<open>ts_type\<close>, \<open>has_type\<close>).
  \<^item> \<open>EvaluatePages\<close>: \<open>app/evaluate/page.tsx\<close> (state \<open>eval_page\<close>, handler
    \<open>eval_run\<close>, request body \<open>eval_body\<close>, the inputs \<open>eval_edit\<close>, the button
    label, and the form as the step relation \<open>eval_step\<close>), \<open>app/dashboard/page.tsx\<close> (state
    \<open>dash\<close>, \<open>dash_effect\<close>, \<open>tools_of\<close>, the branch its render takes
    \<open>dash_render\<close>, and its type
    \<open>Assessment\<close> as \<open>assessment_type\<close>), and the shared \<open>localStorage\<close>
    (\<open>storage\<close>, a map from keys to strings).
  \<^item> \<open>AdminPages\<close>: \<open>app/admin/labels/[assessment_id]/page.tsx\<close> (\<open>label_page\<close>,
    \<open>label_body\<close>, \<open>label_save\<close>, \<open>label_edit\<close>), \<open>app/admin/experiments/page.tsx\<close>
    (\<open>exp_page\<close>, \<open>exp_load\<close>, \<open>exp_create\<close>, \<open>toggle_request\<close>, \<open>exp_toggle\<close>,
    \<open>exp_edit\<close>, the rows \<open>exp_rows\<close> and their links \<open>exp_link\<close>, and the page's
    events in order, \<open>exp_run\<close>)
    and \<open>app/admin/experiments/[id]/page.tsx\<close> (\<open>detail\<close>, \<open>detail_effect\<close>,
    \<open>replay\<close>, \<open>compare_view\<close>, \<open>detail_render\<close>); React's rendering of a value
    as text is \<open>react_text\<close>.
  \<^item> \<open>UrlEncoding\<close>: the URL parser's encoding of a string (\<open>code_points\<close>,
    the conversion to a \<open>USVString\<close>; \<open>utf8_bytes\<close> and \<open>utf8_encode\<close>, UTF-8),
    and the proof that percent-decoding and the decoder of \<open>Utf8\<close> invert it:
    every scalar value decodes from its bytes, case by length of the sequence,
    through the boundaries the decoder checks on the second byte; and a
    client's percent-encoding of a query value (\<open>pct_encode\<close>), which the
    query parser decodes back.
  \<^item> \<open>Server\<close>: the Next.js server the pages talk to (\<open>next_server\<close>): the
    route table that the folders of \<open>app/api/admin\<close> define (\<open>route_of\<close>,
    dynamic segments percent-decoded by \<open>seg_param\<close>), the dispatch by method
    to the handlers of \<open>AdminApi\<close> (\<open>call_route\<close>, with 405, \<open>HEAD\<close> and
    \<open>OPTIONS\<close>), a thrown exception as a 500 answer, the query as the UTF-8
    bytes \<open>URLSearchParams\<close> reads (\<open>utf8_encode\<close>), and the proxy of the
    \<open>/api/py\<close> rewrite (\<open>py_proxy\<close>). A page handler given
    \<open>next_server e pages send\<close> as its network is the page talking to the
    backend \<open>send\<close> through the server. \<open>url_origin\<close> and
    \<open>backend_base\<close> state where the admin key may go.
  \<^item> \<open>Markup\<close>: JSX element trees (\<open>node\<close>, a nested datatype of elements and
    texts), the root layout of \<open>app/layout.tsx\<close> (\<open>root_layout\<close>, which
    wraps every page) and the home page of \<open>app/page.tsx\<close> (\<open>home_page\<close>), with
    the targets of their \<open>Link\<close> elements (\<open>links\<close>) and their text.
  \<^item> \<open>Navigation\<close>: the page routes the folders of \<open>app/\<close> define
    (\<open>page_of\<close>, the dynamic segments \<open>[id]\<close> and \<open>[assessment_id]\<close> decoded
    as in \<open>Server\<close>), the client-side navigation of a \<open>Link\<close> (\<open>navigate\<close>),
    the page component the layout renders for a route with the state its first
    effects leave (\<open>mount\<close>), and the proof that pages, API routes and the
    rewrite are apart, so the server serves every page path as a page document.
  \<^item> \<open>Binary64\<close>: IEEE 754 doubles over the rationals (\<open>f64\<close>): rounding to
    nearest, ties to even, with subnormals and overflow (\<open>rnd\<close>), the double
    of a JSON number (\<open>to_number\<close>), \<open>Number::multiply\<close> (\<open>f64_mul\<close>),
    \<open>Number.prototype.toFixed\<close> (\<open>to_fixed\<close>) and the shortest
    \<open>Number::toString\<close> it falls back to from \<open>10^21\<close> on; the error bound of
    the rounding (\<open>rnd_val_err\<close>, relative \<open>2^-53\<close> plus the subnormal step)
    and the bound of \<open>(x*100).toFixed(0)\<close> (\<open>percent_bound\<close>).
  \<^item> \<open>DashboardView\<close>: the markup of \<open>app/dashboard/page.tsx\<close>: the element
    tree the component returns (\<open>velem\<close>, whose \<open>{x}\<close> children are still
    values) with every property read in source order (\<open>factor_row\<close>,
    \<open>tool_row\<close>, \<open>dash_board\<close>; a \<open>null\<close> row throws), React's rendering of
    it (\<open>render_v\<close>: an object child throws), the markup the branch of
    \<open>dash_render\<close> yields (\<open>dash_markup\<close>), and the page's lifecycle
    (\<open>dash_screen\<close>): the first commit, the effect, the render after
    \<open>setAssessment\<close> with no tools yet and the render after \<open>setTools\<close>, an
    uncaught exception replacing the page by the framework's error page
    (\<open>Crashed\<close>; the app defines no error boundary).
  \<^item> \<open>Spec2Isabelle\<close> (this theory): the properties that span the components.

  \<^bold>\<open>What the lemmas show.\<close> The Frame Decoder refines its batch specification
  (C1) and the read loop refines a batch dispatch (C2), so the handler does not
  depend on how the body is fragmented (C3); every link of the layout and the
  home page leads to a page, never to an API route or the proxy (C4); the
  dispatcher's behaviour on every kind of frame, with its exceptions,
  and its append-only log (C5 to C11); \<open>adminFetch\<close>'s key check, request and
  errors (C12 to C14); the URLs the routes build, a percent-encoded limit
  reaching the backend's query decoded (C15, C16); that a stored assessment of
  the page's \<open>Assessment\<close> type stays on the screen when the tools are
  well-shaped (C17), and that each breakdown entry shows its value as a
  percentage rounded on doubles (C18); the evaluation form's stuck
  \<open>loading\<close> flag and its field splitting (C19, C20); that a corrupt stored
  assessment crashes the dashboard (C21) and the fallback of the tools fetch
  (C22); the admin pages' requests and error paths (C23 to C27); that the flag
  disabling the admin pages does not stop their requests (C28); that pages,
  API routes and the rewrite are apart (C29); that the assessment the
  evaluation form stores reaches the agent console and the dashboard unchanged
  when its numbers are finite doubles (C30). Through the server: the admin key
  is sent to the backend's origin only (C31); saving a label always reports
  success, also when the backend or the key is missing (C32); the evaluation
  form behaves as if it called the backend at the rewritten URL (C33); a posted
  label reaches the backend as one exact request (C34). The read loop settles
  once the stream ends (C35). Without a stored assessment the dashboard shows
  its placeholder (C36). The link of an experiment row opens the detail page
  with the experiment's id, whose requests reach the metrics and runs handlers
  with the same id (C37). By rule induction over \<open>eval_step\<close>, the
  evaluation form sends at most one request per page load (C38); by induction
  over the event list, the experiments page creates every experiment as
  \<open>v1\<close> and inactive (C39); and the agent console's result card shows the
  configuration of the result frame, laid out by the pretty printer (C40).

  \<^bold>\<open>Modelling choices.\<close> Exceptions are values: a handler returns the state it
  reached together with \<open>Rejected e\<close>, so the updates made before a throw stay
  visible, as React keeps them. The transport is a list of read results; a list
  that ends without \<open>Done\<close> is a stream still open (\<open>Pending\<close>). Numbers in JSON
  values are exact decimals \<open>m * 10 ^ e\<close>: this agrees with V8 on every literal of
  at most 15 significant digits whose value lies within the range of doubles,
  which is where \<open>JSON.stringify(JSON.parse(s))\<close> gives back the literal's
  shortest form; where the code computes on a number (the dashboard's
  \<open>(x*100).toFixed(f)\<close>) the decimal is rounded to a double by \<open>Binary64\<close>,
  and \<open>json_finite\<close> names the values whose numbers are finite doubles. The
  parser's fuel is \<open>2 * length s + 1\<close>: every call of \<open>parse_value\<close> below the
  first is made on a shorter suffix or from a loop call that spent a unit, so
  the recursion never runs deeper than twice the input's length; the lemmas of
  \<open>Json\<close> prove that any larger fuel gives the same answer
  (\<open>json_parse_fuel_independent\<close>). The query of a request URL is given as the
  ASCII bytes the URL parser leaves; in \<open>Server\<close> it is the UTF-8 encoding of
  the query, which percent-encoding by the URL parser and percent-decoding by
  \<open>URLSearchParams\<close> leave unchanged; a value the client percent-encodes
  itself is \<open>pct_encode\<close> of its UTF-8 bytes. The origin of a URL
  (\<open>url_origin\<close>) is read as the WHATWG parser reads it for \<open>http\<close> and
  \<open>https\<close>: the path that follows, with its dot segments, is not resolved, so
  the confinement of the admin key is stated for origins, not paths. The route
  table and the precedence of route handlers, rewrites and pages
  (\<open>route_of\<close>, \<open>next_server\<close>) follow the Next.js documentation; the folders
  and files of \<open>app/\<close> are their data.

  \<^bold>\<open>What is not modelled.\<close> Styles (\<open>globals.css\<close>, class names are kept
  as attributes only) and, on the admin pages and the agent console, the static
  markup around what they render: the text the pages show from their state is
  modelled (the experiment rows and their links, the detail page, the agent
  console's log and result card, the form's button label), and the layout, the
  home page and the dashboard as element trees; the page documents the server
  renders (a parameter \<open>pages\<close> of \<open>next_server\<close>: no handler fetches one),
  the headers the proxy adds (\<open>X-Forwarded-*\<close>) and the redirect of a path
  with a trailing slash, and the backend itself: the network \<open>send\<close> answers
  each request on its own, so the model does not track what the backend stores
  between two requests. \<open>crypto.randomUUID()\<close> is a parameter of \<open>eval_run\<close>.
  Numbers read by \<open>Number()\<close> and printed by React outside the dashboard's
  percentages are exact decimals, as in \<open>Json\<close>, and the sign of \<open>-0\<close> is
  not kept.
\<close>

section \<open>Lemmas shared by the cross-page properties\<close>

lemma fetch_json_wf: "fetch_json send rq = Inr v \<Longrightarrow> wf_json v"
  by (auto simp: fetch_json_def split: net.splits dest: json_parse_wf)

lemma stringify_not_Nil: "stringify v \<noteq> []"
  using stringify_Cons [of v] by auto

section \<open>Properties of the whole handler\<close>

text \<open>
  C3. The handler's final state and outcome depend only on the bytes of the
  response body, not on how the transport cut them into fragments: two
  fragmentations of the same bytes, followed by the same further read results,
  give the same progress log, result slot and outcome.
\<close>

theorem fragmentation_independent:
  assumes "concat vs = concat ws"
  shows "generate u st (\<lambda>_. Body (map Chunk vs @ rs)) = generate u st (\<lambda>_. Body (map Chunk ws @ rs))"
proof -
  have "read_loop u' fd_new (map Chunk vs @ rs) = read_loop u' fd_new (map Chunk ws @ rs)" for u'
    using assms by (rule read_loop_same_bytes)
  then show ?thesis
    by (cases "read_assessment st") (simp_all add: generate_def Let_def)
qed

theorem fragmentation_independent_witness:
  \<open>concat [bytes ''event: a\<newline>data: "'' @ [0xE6, 0x8F], [0x90] @ bytes ''"\<newline>\<newline>'']
     = concat [bytes ''event: a\<newline>data: "'' @ [0xE6, 0x8F, 0x90] @ bytes ''"\<newline>\<newline>''] \<and>
   generate \<lparr>events = [], agent = Undefined\<rparr> None
     (\<lambda>_. Body (map Chunk [bytes ''event: a\<newline>data: "'' @ [0xE6, 0x8F], [0x90] @ bytes ''"\<newline>\<newline>'']
                @ [Done]))
   = generate \<lparr>events = [], agent = Undefined\<rparr> None
     (\<lambda>_. Body (map Chunk [bytes ''event: a\<newline>data: "'' @ [0xE6, 0x8F, 0x90] @ bytes ''"\<newline>\<newline>'']
                @ [Done]))\<close>
proof -
  have h: \<open>concat [bytes ''event: a\<newline>data: "'' @ [0xE6, 0x8F], [0x90] @ bytes ''"\<newline>\<newline>'']
     = concat [bytes ''event: a\<newline>data: "'' @ [0xE6, 0x8F, 0x90] @ bytes ''"\<newline>\<newline>'']\<close>
    by simp
  show ?thesis
    using h fragmentation_independent [OF h, of "\<lparr>events = [], agent = Undefined\<rparr>" None "[Done]"]
    by simp
qed

text \<open>
  The concrete scenario of the specification: the fragments
  \<open>event: step\ndata: {"n":1}\n\n\<close>, \<open>event: result\ndata: {"agent_\<close> and
  \<open>config":{"a":1}}\n\n\<close>, then the end of the stream, leave the progress log
  \<open>["step: {"n":1}", "result: {"agent_config":{"a":1}}"]\<close>, the result slot
  \<open>{"a":1}\<close>, and the handler resolved.
\<close>

theorem spec_scenario:
  \<open>generate u None
     (\<lambda>_. Body [Chunk (bytes ''event: step\<newline>data: {"n":1}\<newline>\<newline>''),
                Chunk (bytes ''event: result\<newline>data: {"agent_''),
                Chunk (bytes ''config":{"a":1}}\<newline>\<newline>''), Done])
   = (u\<lparr>events := [js ''step: {"n":1}'', js ''result: {"agent_config":{"a":1}}''],
        agent := Val (JObj [(js ''a'', JNum 1 0)])\<rparr>, Resolved)\<close>
  by (simp add: model_defs split_from.simps dec_digits.simps)

section \<open>Properties across the front end and its backend\<close>

text \<open>
  The pages' calls to \<open>/api/py/...\<close> (rewritten by \<open>next.config.js\<close>) and
  the admin routes' calls through \<open>adminFetch\<close> go to the same backend: both
  prefix the base URL \<open>NEXT_PUBLIC_API_BASE_URL\<close>, or \<open>http://localhost:8000\<close>
  when it is unset or empty.
\<close>

theorem same_backend_base:
  "admin_fetch e path init send = Inr (rq, r) \<Longrightarrow>
   py_rewrite e (js ''/api/py/'' @ p) = Some (js_or (api_base_url e) default_base @ [0x2F] @ p) \<and>
   req_url rq = js_or (api_base_url e) default_base @ path"
  by (auto simp: py_rewrite_def admin_fetch_def Let_def split: option.splits if_splits sum.splits
      net.splits)

theorem same_backend_base_witness:
  "py_rewrite \<lparr>api_base_url = None, admin_api_key = Some (js ''k'')\<rparr> (js ''/api/py/'' @ js ''agent/generate'') =
     Some (js ''http://localhost:8000/agent/generate'') \<and>
   req_url (fst (projr (admin_fetch \<lparr>api_base_url = None, admin_api_key = Some (js ''k'')\<rparr> (js ''/admin/experiments'') no_init
     (\<lambda>_. Answer \<lparr>status = 200, resp_text = js ''[]''\<rparr>)))) = js ''http://localhost:8000/admin/experiments''"
proof -
  have h: "admin_fetch \<lparr>api_base_url = None, admin_api_key = Some (js ''k'')\<rparr> (js ''/admin/experiments'') no_init
     (\<lambda>_. Answer \<lparr>status = 200, resp_text = js ''[]''\<rparr>) =
     Inr (\<lparr>req_url = js ''http://localhost:8000/admin/experiments'', req_method = None,
           req_headers = [(js ''x-admin-key'', js ''k'')], req_body = None, req_no_store = True\<rparr>,
          \<lparr>status = 200, resp_text = js ''[]''\<rparr>)"
    by (simp add: model_defs)
  show ?thesis
    using same_backend_base [OF h, of "js ''agent/generate''"] h by (simp add: model_defs)
qed


section \<open>The pages share the stored assessment\<close>

text \<open>
  C30. What the evaluation form stores is what the other pages read: when the
  backend answers the form with JSON \<open>v\<close>, \<open>run\<close> stores
  \<open>JSON.stringify(v)\<close> under \<open>assessment\<close> and navigates to the dashboard; the
  agent console's \<open>JSON.parse(localStorage.getItem('assessment'))\<close> then gives
  back exactly \<open>v\<close>, and so does the dashboard's effect. This holds when every
  number of \<open>v\<close> is a finite double (\<open>json_finite\<close>): a literal such as
  \<open>1e400\<close> is parsed as \<open>Infinity\<close> and stored as \<open>null\<close>.
\<close>

theorem evaluate_hands_over_assessment:
  assumes "fetch_json send (json_request (js ''POST'') (js ''/api/py/risk/evaluate'') (eval_body p sid)) = Inr v"
    and "json_finite v"
  shows "eval_run p st sid send =
           (p\<lparr>loading := True\<rparr>, st(assessment_key \<mapsto> stringify v), Some (js ''/dashboard''), Resolved) \<and>
         read_assessment ((st(assessment_key \<mapsto> stringify v)) assessment_key) = Inr (Val v) \<and>
         assessment (fst (dash_effect d (st(assessment_key \<mapsto> stringify v)) send')) = Val v"
proof -
  have rt: "json_parse (stringify v) = Inr v"
    using fetch_json_wf [OF assms(1)] by (rule parse_stringify)
  show ?thesis
    using assms rt stringify_not_Nil [of v]
    by (simp add: eval_run_def read_assessment_def dash_effect_def)
qed

theorem evaluate_hands_over_assessment_witness:
  \<open>read_assessment ((fst (snd (eval_run eval_init (\<lambda>_. None) (js ''s1'')
      (\<lambda>_. Answer \<lparr>status = 200, resp_text = js ''{"score":42,"assessment_id":7}''\<rparr>)))) assessment_key) =
   Inr (Val (JObj [(js ''score'', JNum 42 0), (js ''assessment_id'', JNum 7 0)]))\<close>
proof -
  have f: \<open>fetch_json (\<lambda>_. Answer \<lparr>status = 200, resp_text = js ''{"score":42,"assessment_id":7}''\<rparr>)
      (json_request (js ''POST'') (js ''/api/py/risk/evaluate'') (eval_body eval_init (js ''s1''))) =
      Inr (JObj [(js ''score'', JNum 42 0), (js ''assessment_id'', JNum 7 0)])\<close>
    by (simp add: model_defs dec_digits.simps)
  have n: \<open>json_finite (JObj [(js ''score'', JNum 42 0), (js ''assessment_id'', JNum 7 0)])\<close>
    using json_finite_num [of 42 0] json_finite_num [of 7 0] by (simp add: dec_rat_def)
  show ?thesis
    using evaluate_hands_over_assessment [OF f n, of "\<lambda>_. None" dash_init "\<lambda>_. Unreachable"] by simp
qed

end
